(* ===== verification/Prelude.thy ===== *)
theory Prelude
  imports Main "HOL-Library.Word"
begin

text \<open>
  Shared vocabulary of the development: Rust's machine integers as words, \<open>Result\<close> as a sum
  with the error on the left, the question-mark operator as a bind, panics as an explicit
  outcome, the checked and saturating integer operations of the standard library, decimal
  rendering of integers, and the generic lemmas about them that the component theories use
  through the collections \<open>res_simps\<close> and \<open>checked_simps\<close>.

  The deployed binary is built with \<^verbatim>\<open>cargo build --release\<close> and no overflow-check profile
  (Dockerfile, Cargo.toml), so a plain \<open>+\<close>, \<open>-\<close> or \<open>*\<close> of the source wraps around; division
  by zero panics in every profile.
\<close>

named_theorems res_simps \<open>inversion of result binds and option conversions\<close>
named_theorems checked_simps \<open>checked and saturating integer operations read through unat\<close>

subsection \<open>Machine integers\<close>

type_synonym u8 = "8 word"
type_synonym u32 = "32 word"
type_synonym u64 = "64 word"
type_synonym u128 = "128 word"

text \<open>Signed integers are words read through \<open>sint\<close>.\<close>

type_synonym i64 = "64 word"
type_synonym i128 = "128 word"

type_synonym bytes = "u8 list"

text \<open>Points in time of a monotone clock and durations, both in milliseconds.\<close>

type_synonym instant = nat
type_synonym duration = nat

definition elapsed :: "instant \<Rightarrow> instant \<Rightarrow> duration" where
  "elapsed now since = now - since"

definition from_secs :: "nat \<Rightarrow> duration" where
  "from_secs s = 1000 * s"

subsection \<open>Results, panics\<close>

abbreviation Ok :: "'a \<Rightarrow> 'e + 'a" where
  "Ok \<equiv> Inr"

abbreviation Err :: "'e \<Rightarrow> 'e + 'a" where
  "Err \<equiv> Inl"

text \<open>The question-mark operator: go on with the value, or return the error.\<close>

definition bind_res :: "'e + 'a \<Rightarrow> ('a \<Rightarrow> 'e + 'b) \<Rightarrow> 'e + 'b" where
  "bind_res r f = (case r of Err e \<Rightarrow> Err e | Ok x \<Rightarrow> f x)"

definition ok_value :: "'e + 'a \<Rightarrow> 'a option" where
  "ok_value r = (case r of Ok x \<Rightarrow> Some x | Err e \<Rightarrow> None)"

definition map_err :: "'e + 'a \<Rightarrow> ('e \<Rightarrow> 'f) \<Rightarrow> 'f + 'a" where
  "map_err r f = (case r of Err e \<Rightarrow> Err (f e) | Ok x \<Rightarrow> Ok x)"

definition ok_or :: "'a option \<Rightarrow> 'e \<Rightarrow> 'e + 'a" where
  "ok_or x e = (case x of None \<Rightarrow> Err e | Some v \<Rightarrow> Ok v)"

definition is_ok :: "'e + 'a \<Rightarrow> bool" where
  "is_ok r = (case r of Err e \<Rightarrow> False | Ok x \<Rightarrow> True)"

text \<open>An iterator of results collected into a result of a list: the first error wins.\<close>

fun collect_res :: "('e + 'a) list \<Rightarrow> 'e + 'a list" where
  "collect_res [] = Ok []"
| "collect_res (r # rs) = bind_res r (\<lambda>x. bind_res (collect_res rs) (\<lambda>xs. Ok (x # xs)))"

text \<open>A computation of the source either panics or returns.\<close>

datatype 'a outcome = Panic | Returns 'a

definition bind_out :: "'a outcome \<Rightarrow> ('a \<Rightarrow> 'b outcome) \<Rightarrow> 'b outcome" where
  "bind_out m f = (case m of Panic \<Rightarrow> Panic | Returns x \<Rightarrow> f x)"

text \<open>The question-mark operator inside a function that may also panic.\<close>

definition try_out :: "'e + 'a \<Rightarrow> ('a \<Rightarrow> ('e + 'b) outcome) \<Rightarrow> ('e + 'b) outcome" where
  "try_out r f = (case r of Err e \<Rightarrow> Returns (Err e) | Ok x \<Rightarrow> f x)"

text \<open>Fallible steps on a world that is passed along; an error ends the computation.\<close>

definition bind_st :: "('w \<Rightarrow> ('e + 'a) \<times> 'w) \<Rightarrow> ('a \<Rightarrow> 'w \<Rightarrow> ('e + 'b) \<times> 'w) \<Rightarrow> 'w \<Rightarrow> ('e + 'b) \<times> 'w" where
  "bind_st m f w = (case m w of (Err e, w') \<Rightarrow> (Err e, w') | (Ok x, w') \<Rightarrow> f x w')"

text \<open>A pure result inside such a computation.\<close>

definition lift_res :: "'e + 'a \<Rightarrow> 'w \<Rightarrow> ('e + 'a) \<times> 'w" where
  "lift_res r w = (r, w)"

subsection \<open>Checked and saturating integer operations\<close>

definition checked_add :: "'w::len word \<Rightarrow> 'w word \<Rightarrow> 'w word option" where
  "checked_add a b = (if unat a + unat b < 2 ^ LENGTH('w) then Some (a + b) else None)"

definition checked_sub :: "'w::len word \<Rightarrow> 'w word \<Rightarrow> 'w word option" where
  "checked_sub a b = (if b \<le> a then Some (a - b) else None)"

definition checked_mul :: "'w::len word \<Rightarrow> 'w word \<Rightarrow> 'w word option" where
  "checked_mul a b = (if unat a * unat b < 2 ^ LENGTH('w) then Some (a * b) else None)"

definition checked_div :: "'w::len word \<Rightarrow> 'w word \<Rightarrow> 'w word option" where
  "checked_div a b = (if b = 0 then None else Some (a div b))"

definition saturating_sub :: "'w::len word \<Rightarrow> 'w word \<Rightarrow> 'w word" where
  "saturating_sub a b = (if b \<le> a then a - b else 0)"

definition saturating_mul :: "'w::len word \<Rightarrow> 'w word \<Rightarrow> 'w word" where
  "saturating_mul a b = (if unat a * unat b < 2 ^ LENGTH('w) then a * b else - 1)"

text \<open>The plain \<open>/\<close>: it panics on a zero divisor.\<close>

definition div_op :: "'w::len word \<Rightarrow> 'w word \<Rightarrow> 'w word outcome" where
  "div_op a b = (if b = 0 then Panic else Returns (a div b))"

text \<open>\<open>abs\<close> of a signed integer, which leaves the least one as it is.\<close>

definition wrapping_abs :: "'w::len word \<Rightarrow> 'w word" where
  "wrapping_abs w = (if sint w < 0 then - w else w)"

text \<open>Signed \<open>checked_add\<close> on two's complement words.\<close>

definition checked_add_signed :: "'w::len word \<Rightarrow> 'w word \<Rightarrow> 'w word option" where
  "checked_add_signed a b =
     (if sint (a + b) = sint a + sint b then Some (a + b) else None)"

subsection \<open>Decimal rendering\<close>

definition digit_char :: "nat \<Rightarrow> char" where
  "digit_char d = char_of (48 + d)"

fun dec_of_nat :: "nat \<Rightarrow> string" where
  "dec_of_nat n = (if n < 10 then [digit_char n]
                   else dec_of_nat (n div 10) @ [digit_char (n mod 10)])"

declare dec_of_nat.simps [simp del]

definition dec_of_int :: "int \<Rightarrow> string" where
  "dec_of_int i = (if i < 0 then CHR ''-'' # dec_of_nat (nat (- i)) else dec_of_nat (nat i))"

text \<open>Reading a decimal back; used to state that rendering loses nothing.\<close>

fun nat_of_dec_aux :: "nat \<Rightarrow> string \<Rightarrow> nat" where
  "nat_of_dec_aux acc [] = acc"
| "nat_of_dec_aux acc (c # cs) = nat_of_dec_aux (10 * acc + (of_char c - 48)) cs"

definition nat_of_dec :: "string \<Rightarrow> nat" where
  "nat_of_dec s = nat_of_dec_aux 0 s"

text \<open>The dash of some error messages, as its UTF-8 bytes.\<close>

definition em_dash :: string where
  "em_dash = [CHR 0xE2, CHR 0x80, CHR 0x94]"

subsection \<open>Lemmas: results and panics\<close>

lemma bind_res_simps [simp]:
  "bind_res (Ok x) f = f x"
  "bind_res (Err e) f = Err e"
  by (simp_all add: bind_res_def)

lemma bind_res_eq_Ok [res_simps]:
  "bind_res r f = Ok y \<longleftrightarrow> (\<exists>x. r = Ok x \<and> f x = Ok y)"
  by (auto simp: bind_res_def split: sum.splits)

lemma bind_res_eq_Err [res_simps]:
  "bind_res r f = Err e \<longleftrightarrow> r = Err e \<or> (\<exists>x. r = Ok x \<and> f x = Err e)"
  by (auto simp: bind_res_def split: sum.splits)

text \<open>A guard with an early error return is passed when it does not hold.\<close>

lemma guard_eq_Ok [res_simps]: "(if c then Err e else r) = Ok x \<longleftrightarrow> \<not> c \<and> r = Ok x"
  by simp

lemma map_err_simps [simp]:
  "map_err (Ok x) f = Ok x"
  "map_err (Err e) f = Err (f e)"
  by (simp_all add: map_err_def)

lemma map_err_eq_Ok [res_simps]: "map_err r f = Ok y \<longleftrightarrow> r = Ok y"
  by (auto simp: map_err_def split: sum.splits)

lemma map_err_eq_Err [res_simps]: "map_err r f = Err e \<longleftrightarrow> (\<exists>d. r = Err d \<and> e = f d)"
  by (auto simp: map_err_def split: sum.splits)

lemma ok_or_simps [simp]:
  "ok_or (Some x) e = Ok x"
  "ok_or None e = Err e"
  by (simp_all add: ok_or_def)

lemma ok_or_eq_Ok [res_simps]: "ok_or x e = Ok y \<longleftrightarrow> x = Some y"
  by (auto simp: ok_or_def split: option.splits)

lemma ok_or_eq_Err [res_simps]: "ok_or x e = Err d \<longleftrightarrow> x = None \<and> d = e"
  by (auto simp: ok_or_def split: option.splits)

lemma is_ok_simps [simp]: "is_ok (Ok x)" "\<not> is_ok (Err e)"
  by (simp_all add: is_ok_def)

lemma is_ok_iff [res_simps]: "is_ok r \<longleftrightarrow> (\<exists>x. r = Ok x)"
  by (cases r) auto

lemma not_is_ok_iff [res_simps]: "\<not> is_ok r \<longleftrightarrow> (\<exists>e. r = Err e)"
  by (cases r) auto

lemma bind_out_simps [simp]:
  "bind_out (Returns x) f = f x"
  "bind_out Panic f = Panic"
  by (simp_all add: bind_out_def)

lemma bind_out_eq_Returns [res_simps]:
  "bind_out m f = Returns y \<longleftrightarrow> (\<exists>x. m = Returns x \<and> f x = Returns y)"
  by (auto simp: bind_out_def split: outcome.splits)

lemma bind_out_eq_Panic [res_simps]:
  "bind_out m f = Panic \<longleftrightarrow> m = Panic \<or> (\<exists>x. m = Returns x \<and> f x = Panic)"
  by (auto simp: bind_out_def split: outcome.splits)

lemma try_out_simps [simp]:
  "try_out (Ok x) f = f x"
  "try_out (Err e) f = Returns (Err e)"
  by (simp_all add: try_out_def)

lemma try_out_eq_Returns_Ok [res_simps]:
  "try_out r f = Returns (Ok y) \<longleftrightarrow> (\<exists>x. r = Ok x \<and> f x = Returns (Ok y))"
  by (auto simp: try_out_def split: sum.splits)

lemma try_out_eq_Returns_Err:
  "try_out r f = Returns (Err e) \<longleftrightarrow> r = Err e \<or> (\<exists>x. r = Ok x \<and> f x = Returns (Err e))"
  by (auto simp: try_out_def split: sum.splits)

lemma outcome_res_cases:
  obtains "m = Panic" | e where "m = Returns (Err e)" | x where "m = Returns (Ok x)"
  by (cases m) (auto elim: sumE)

lemma try_out_eq_Panic [res_simps]:
  "try_out r f = Panic \<longleftrightarrow> (\<exists>x. r = Ok x \<and> f x = Panic)"
  by (auto simp: try_out_def split: sum.splits)

lemma lift_res_eq [res_simps]: "lift_res r w = (r', w') \<longleftrightarrow> r = r' \<and> w' = w"
  by (auto simp: lift_res_def)

lemma bind_st_eq_Ok [res_simps]:
  "bind_st m f w = (Ok y, w') \<longleftrightarrow> (\<exists>x w1. m w = (Ok x, w1) \<and> f x w1 = (Ok y, w'))"
  by (auto simp: bind_st_def split: prod.splits sum.splits)

lemma bind_st_eq_Err [res_simps]:
  "bind_st m f w = (Err e, w') \<longleftrightarrow> m w = (Err e, w') \<or> (\<exists>x w1. m w = (Ok x, w1) \<and> f x w1 = (Err e, w'))"
  by (auto simp: bind_st_def split: prod.splits sum.splits)

lemma bind_st_lift [simp]:
  "bind_st (lift_res (Ok x)) f w = f x w"
  "bind_st (lift_res (Err e)) f w = (Err e, w)"
  by (simp_all add: bind_st_def lift_res_def)

lemma bind_st_step: "m w = (Ok x, w') \<Longrightarrow> bind_st m f w = f x w'"
  by (simp add: bind_st_def)

lemma collect_res_eq_Ok:
  "collect_res rs = Ok xs \<longleftrightarrow> rs = map Ok xs"
  by (induction rs arbitrary: xs) (auto simp: res_simps)

lemma collect_res_map_Ok [simp]: "collect_res (map Ok xs) = Ok xs"
  by (simp add: collect_res_eq_Ok)

subsection \<open>Lemmas: integers\<close>

lemma checked_add_eq_Some [checked_simps]:
  fixes a b c :: "'w::len word"
  shows "checked_add a b = Some c \<longleftrightarrow> unat c = unat a + unat b"
proof
  assume "checked_add a b = Some c"
  then show "unat c = unat a + unat b"
    by (auto simp: checked_add_def unat_word_ariths split: if_splits)
next
  assume c: "unat c = unat a + unat b"
  have bound: "unat c < 2 ^ LENGTH('w)" by (rule unsigned_less)
  with c have "unat (a + b) = unat c" by (simp add: unat_word_ariths)
  with c bound show "checked_add a b = Some c"
    by (simp add: checked_add_def word_unat_eq_iff)
qed

lemma checked_add_eq_None [checked_simps]:
  fixes a b :: "'w::len word"
  shows "checked_add a b = None \<longleftrightarrow> 2 ^ LENGTH('w) \<le> unat a + unat b"
  by (auto simp: checked_add_def)

lemma checked_mul_eq_Some [checked_simps]:
  fixes a b c :: "'w::len word"
  shows "checked_mul a b = Some c \<longleftrightarrow> unat c = unat a * unat b"
proof
  assume "checked_mul a b = Some c"
  then show "unat c = unat a * unat b"
    by (auto simp: checked_mul_def unat_word_ariths split: if_splits)
next
  assume c: "unat c = unat a * unat b"
  have bound: "unat c < 2 ^ LENGTH('w)" by (rule unsigned_less)
  with c have "unat (a * b) = unat c" by (simp add: unat_word_ariths)
  with c bound show "checked_mul a b = Some c"
    by (simp add: checked_mul_def word_unat_eq_iff)
qed

lemma checked_mul_eq_None [checked_simps]:
  fixes a b :: "'w::len word"
  shows "checked_mul a b = None \<longleftrightarrow> 2 ^ LENGTH('w) \<le> unat a * unat b"
  by (auto simp: checked_mul_def)

lemma share_div_le:
  fixes a b r :: nat
  assumes "a \<le> b"
  shows "a * r div b \<le> r"
proof (cases "b = 0")
  case False
  from assms have "a * r \<le> r * b" by (simp add: mult.commute)
  then have "a * r div b \<le> r * b div b" by (rule div_le_mono)
  with False show ?thesis by simp
qed simp

lemma unat_lt2p: "unat (x :: 'w::len word) < 2 ^ LENGTH('w)"
  by (rule unsigned_less)

lemma unat_mul_fits:
  "unat a * unat b < 2 ^ LENGTH('w) \<Longrightarrow> unat (a * b) = unat a * unat (b :: 'w::len word)"
  by (simp add: unat_word_ariths)

lemma unat_add_fits:
  "unat a + unat b < 2 ^ LENGTH('w) \<Longrightarrow> unat (a + b) = unat a + unat (b :: 'w::len word)"
  by (simp add: unat_word_ariths)

lemma word_div_unat: "(x :: 'w::len word) div y = of_nat (unat x div unat y)"
  by (simp flip: unat_div)

lemma unat_of_nat_fits: "n < 2 ^ LENGTH('w) \<Longrightarrow> unat (of_nat n :: 'w::len word) = n"
  by (simp add: unat_of_nat)

lemma unat_ucast_fits:
  "unat w < 2 ^ LENGTH('v) \<Longrightarrow> unat (ucast (w :: 'w::len word) :: 'v::len word) = unat w"
  by (simp add: unsigned_ucast_eq take_bit_nat_eq_self)

lemma word_nonzero_unat: "(x :: 'w::len word) \<noteq> 0 \<longleftrightarrow> 0 < unat x"
  by (simp add: unat_gt_0)

lemma unat_sub_le: "b \<le> a \<Longrightarrow> unat (a - b) = unat a - unat (b :: 'w::len word)"
  by (simp add: unat_sub)

lemma checked_sub_eq_Some [checked_simps]:
  fixes a b c :: "'w::len word"
  shows "checked_sub a b = Some c \<longleftrightarrow> unat b \<le> unat a \<and> unat c = unat a - unat b"
  by (auto simp: checked_sub_def word_le_nat_alt word_unat_eq_iff unat_sub_le)

lemma checked_sub_eq_None [checked_simps]:
  "checked_sub a b = None \<longleftrightarrow> unat a < unat (b :: 'w::len word)"
  by (auto simp: checked_sub_def word_le_nat_alt)

lemma checked_div_eq_Some [checked_simps]:
  "checked_div a b = Some c \<longleftrightarrow> unat b \<noteq> 0 \<and> unat c = unat a div unat (b :: 'w::len word)"
  by (auto simp: checked_div_def unat_div word_unat_eq_iff)

lemma checked_div_eq_None [checked_simps]:
  "checked_div a b = None \<longleftrightarrow> unat (b :: 'w::len word) = 0"
  by (auto simp: checked_div_def unat_eq_0)

lemma unat_saturating_sub [checked_simps]:
  "unat (saturating_sub a b) = unat a - unat (b :: 'w::len word)"
  by (auto simp: saturating_sub_def word_le_nat_alt unat_sub_le)

lemma unat_saturating_mul [checked_simps]:
  fixes a b :: "'w::len word"
  shows "unat (saturating_mul a b) = min (unat a * unat b) (2 ^ LENGTH('w) - 1)"
  by (auto simp: saturating_mul_def unat_word_ariths unsigned_minus_1_eq_mask mask_eq_exp_minus_1)

lemma div_op_eq_Returns [checked_simps]:
  "div_op a b = Returns c \<longleftrightarrow> unat b \<noteq> 0 \<and> unat c = unat a div unat (b :: 'w::len word)"
  by (auto simp: div_op_def unat_div word_unat_eq_iff)

lemma div_op_eq_Panic [checked_simps]: "div_op a b = Panic \<longleftrightarrow> b = 0"
  by (simp add: div_op_def)

lemma checked_add_signed_eq_Some [checked_simps]:
  fixes a b c :: "'w::len word"
  shows "checked_add_signed a b = Some c \<longleftrightarrow> sint c = sint a + sint b"
proof
  assume "checked_add_signed a b = Some c"
  then show "sint c = sint a + sint b"
    by (auto simp: checked_add_signed_def split: if_splits)
next
  assume c: "sint c = sint a + sint b"
  have "c = word_of_int (sint c)" by simp
  also have "\<dots> = word_of_int (sint a) + word_of_int (sint b)"
    by (simp add: c)
  also have "\<dots> = a + b" by simp
  finally show "checked_add_signed a b = Some c"
    using c by (simp add: checked_add_signed_def)
qed

lemma checked_mul_chain:
  fixes a b c :: "'w::len word"
  assumes "0 < unat c"
  shows "bind_res (ok_or (checked_mul a b) e) (\<lambda>p. bind_res (ok_or (checked_mul p c) e) k) =
     (if unat a * unat b * unat c < 2 ^ LENGTH('w) then k (a * b * c) else Err e)"
proof (cases "unat a * unat b < 2 ^ LENGTH('w)")
  case True
  then show ?thesis by (auto simp: checked_mul_def unat_mul_fits)
next
  case False
  moreover have "unat a * unat b \<le> unat a * unat b * unat c" using assms by simp
  ultimately have "\<not> unat a * unat b * unat c < 2 ^ LENGTH('w)" by linarith
  with False show ?thesis by (simp add: checked_mul_def)
qed

lemma unat_mul_chain:
  fixes a b c :: "'w::len word"
  assumes "unat a * unat b * unat c < 2 ^ LENGTH('w)"
  shows "unat (a * b * c) = unat a * unat b * unat c"
  using assms by (metis (no_types, lifting) mod_less mod_mult_left_eq unat_word_ariths(2))

subsection \<open>Lemmas: decimals\<close>

lemma of_char_digit_char: "d < 10 \<Longrightarrow> of_char (digit_char d) = 48 + d"
  by (simp add: digit_char_def)

lemma nat_of_dec_aux_append:
  "nat_of_dec_aux acc (xs @ ys) = nat_of_dec_aux (nat_of_dec_aux acc xs) ys"
  by (induction xs arbitrary: acc) auto

lemma nat_of_dec_dec_of_nat [simp]: "nat_of_dec (dec_of_nat n) = n"
proof (induction n rule: dec_of_nat.induct)
  case (1 n)
  show ?case
  proof (cases "n < 10")
    case True
    then show ?thesis
      by (simp add: dec_of_nat.simps [of n] nat_of_dec_def of_char_digit_char)
  next
    case False
    with 1 show ?thesis
      by (simp add: dec_of_nat.simps [of n] nat_of_dec_def nat_of_dec_aux_append
          of_char_digit_char)
  qed
qed

lemma dec_of_nat_inject [simp]: "dec_of_nat m = dec_of_nat n \<longleftrightarrow> m = n"
  by (metis nat_of_dec_dec_of_nat)

end
