(* ===== verification/Text_Ops.thy ===== *)
theory Text_Ops
  imports Prelude
begin

text \<open>
  The string operations of Rust's standard library that the components share, on strings as lists
  of their UTF-8 bytes: trimming, splitting at a separator, reading integers, and the lossy
  reading of bytes as UTF-8. The lemmas invert them: joining undoes splitting, reading undoes
  printing, and the lossy reading changes nothing that reads as ASCII.
\<close>

subsection \<open>Trimming and splitting\<close>

definition is_ascii_whitespace :: "char \<Rightarrow> bool" where
  "is_ascii_whitespace c = (let n = (of_char c :: nat) in 9 \<le> n \<and> n \<le> 13 \<or> n = 32)"

definition trim :: "string \<Rightarrow> string" where
  "trim s = rev (dropWhile is_ascii_whitespace (rev (dropWhile is_ascii_whitespace s)))"

text \<open>\<open>str::split\<close> on a character: always at least one piece.\<close>

fun split_on :: "char \<Rightarrow> string \<Rightarrow> string list" where
  "split_on c [] = [[]]"
| "split_on c (x # xs) =
     (if x = c then [] # split_on c xs
      else (case split_on c xs of y # ys \<Rightarrow> (x # y) # ys | [] \<Rightarrow> [[x]]))"

text \<open>\<open>str::splitn\<close>: at most the given number of pieces, the last one unsplit.\<close>

fun splitn :: "nat \<Rightarrow> char \<Rightarrow> string \<Rightarrow> string list" where
  "splitn 0 c s = []"
| "splitn (Suc 0) c s = [s]"
| "splitn (Suc (Suc n)) c s =
     (if c \<in> set s
      then takeWhile (\<lambda>x. x \<noteq> c) s # splitn (Suc n) c (tl (dropWhile (\<lambda>x. x \<noteq> c) s))
      else [s])"

fun join_with :: "char \<Rightarrow> string list \<Rightarrow> string" where
  "join_with c [] = []"
| "join_with c [x] = x"
| "join_with c (x # y # xs) = x @ c # join_with c (y # xs)"

text \<open>
  Upper case, as far as its result can be compared with ASCII text of the letters that the
  callers use: the ASCII letters and the long s, whose upper case is S. Other characters have no
  upper case of these letters and are kept.
\<close>

definition upper_char :: "char \<Rightarrow> char" where
  "upper_char c = (let n = (of_char c :: nat) in if 97 \<le> n \<and> n \<le> 122 then char_of (n - 32) else c)"

fun to_uppercase :: "string \<Rightarrow> string" where
  "to_uppercase (a # b # s) =
     (if a = CHR 0xC5 \<and> b = CHR 0xBF then CHR ''S'' # to_uppercase s else upper_char a # to_uppercase (b # s))"
| "to_uppercase s = map upper_char s"

subsection \<open>Reading integers\<close>

definition is_ascii_alphanumeric :: "char \<Rightarrow> bool" where
  "is_ascii_alphanumeric c =
     (let n = (of_char c :: nat) in 48 \<le> n \<and> n \<le> 57 \<or> 65 \<le> n \<and> n \<le> 90 \<or> 97 \<le> n \<and> n \<le> 122)"

definition is_digit :: "char \<Rightarrow> bool" where
  "is_digit c = (let n = (of_char c :: nat) in 48 \<le> n \<and> n \<le> 57)"

definition parse_digits :: "string \<Rightarrow> nat option" where
  "parse_digits ds = (if ds \<noteq> [] \<and> list_all is_digit ds then Some (nat_of_dec ds) else None)"

text \<open>\<open>str::parse\<close> for an unsigned type: an optional plus sign, then decimal digits, in range.\<close>

definition parse_uint :: "string \<Rightarrow> ('w::len) word option" where
  "parse_uint s =
     (case parse_digits (case s of c # cs \<Rightarrow> if c = CHR ''+'' then cs else s | [] \<Rightarrow> []) of
        Some n \<Rightarrow> if n < 2 ^ LENGTH('w) then Some (of_nat n) else None
      | None \<Rightarrow> None)"

definition parse_u64 :: "string \<Rightarrow> u64 option" where
  "parse_u64 s = parse_uint s"

text \<open>For \<open>i64\<close> a minus sign is accepted too.\<close>

definition parse_i64 :: "string \<Rightarrow> i64 option" where
  "parse_i64 s =
     (case s of
        [] \<Rightarrow> None
      | c # cs \<Rightarrow>
          if c = CHR ''-'' then
            (case parse_digits cs of
               Some n \<Rightarrow> if n \<le> 2 ^ 63 then Some (- of_nat n) else None
             | None \<Rightarrow> None)
          else
            (case parse_digits (if c = CHR ''+'' then cs else s) of
               Some n \<Rightarrow> if n < 2 ^ 63 then Some (of_nat n) else None
             | None \<Rightarrow> None))"

subsection \<open>Lossy UTF-8\<close>

text \<open>
  \<open>String::from_utf8_lossy\<close>: a well-formed sequence is kept, and each maximal prefix of a
  sequence that cannot be completed becomes one replacement character. The step says, for the
  first byte, whether its sequence is well-formed and how many bytes after it belong to it.
\<close>

definition byte_in :: "nat \<Rightarrow> nat \<Rightarrow> string \<Rightarrow> nat \<Rightarrow> bool" where
  "byte_in lo hi s i = (i < length s \<and> lo \<le> (of_char (s ! i) :: nat) \<and> of_char (s ! i) \<le> hi)"

definition utf8_step :: "char \<Rightarrow> string \<Rightarrow> bool \<times> nat" where
  "utf8_step c cs =
     (let n = (of_char c :: nat); cont = byte_in 0x80 0xBF cs;
          second = (if n = 0xE0 then byte_in 0xA0 0xBF cs 0
                    else if n = 0xED then byte_in 0x80 0x9F cs 0
                    else if n = 0xF0 then byte_in 0x90 0xBF cs 0
                    else if n = 0xF4 then byte_in 0x80 0x8F cs 0
                    else cont 0) in
      if n < 0x80 then (True, 0)
      else if n < 0xC2 \<or> 0xF4 < n \<or> \<not> second then (False, 0)
      else if n < 0xE0 then (True, 1)
      else if \<not> cont 1 then (False, 1)
      else if n < 0xF0 then (True, 2)
      else if \<not> cont 2 then (False, 2)
      else (True, 3))"

definition replacement :: string where
  "replacement = [CHR 0xEF, CHR 0xBF, CHR 0xBD]"

function utf8_lossy :: "string \<Rightarrow> string" where
  "utf8_lossy [] = []"
| "utf8_lossy (c # cs) =
     (let (ok, n) = utf8_step c cs in
      (if ok then c # take n cs else replacement) @ utf8_lossy (drop n cs))"
  by pat_completeness auto

termination
  by (relation "measure length") (auto simp: less_Suc_eq_le)

subsection \<open>Lemmas\<close>

lemma split_on_nonempty [simp]: "split_on c s \<noteq> []"
  by (induction s) (auto split: list.split)

lemma split_on_single: "c \<notin> set s \<Longrightarrow> split_on c s = [s]"
  by (induction s) auto

lemma split_on_append: "c \<notin> set s \<Longrightarrow> split_on c (s @ c # t) = s # split_on c t"
  by (induction s) auto

lemma split_on_pieces: "p \<in> set (split_on c s) \<Longrightarrow> c \<notin> set p"
  by (induction s arbitrary: p) (force split: list.splits if_splits)+

lemma split_on_join:
  assumes "xs \<noteq> []" and "\<forall>x \<in> set xs. c \<notin> set x"
  shows "split_on c (join_with c xs) = xs"
  using assms
  by (induction c xs rule: join_with.induct) (simp_all add: split_on_single split_on_append)

lemma join_with_inject:
  assumes "xs \<noteq> []" and "ys \<noteq> []" and "\<forall>x \<in> set xs. c \<notin> set x" and "\<forall>y \<in> set ys. c \<notin> set y"
    and "join_with c xs = join_with c ys"
  shows "xs = ys"
  by (metis assms split_on_join)

lemma join_split_on: "join_with c (split_on c s) = s"
proof (induction s)
  case (Cons x s)
  show ?case
  proof (cases "split_on c s")
    case (Cons y ys)
    with Cons.IH show ?thesis by (cases ys) auto
  qed simp
qed simp

lemma splitn_3:
  assumes "c \<notin> set a" and "c \<notin> set b"
  shows "splitn 3 c (a @ c # b @ c # d) = [a, b, d]"
proof -
  have split: "takeWhile (\<lambda>x. x \<noteq> c) (s @ c # t) = s \<and> dropWhile (\<lambda>x. x \<noteq> c) (s @ c # t) = c # t"
    if "c \<notin> set s" for s t
    using that by (induction s) auto
  show ?thesis by (simp add: numeral_3_eq_3 split assms)
qed

lemma splitn_head: "splitn n c s = p # ps \<Longrightarrow> 2 \<le> n \<Longrightarrow> c \<notin> set p"
  by (cases "(n, c, s)" rule: splitn.cases) (auto dest: set_takeWhileD split: if_splits)

lemma trim_id: "s \<noteq> [] \<Longrightarrow> \<not> is_ascii_whitespace (hd s) \<Longrightarrow> \<not> is_ascii_whitespace (last s) \<Longrightarrow> trim s = s"
proof -
  assume s: "s \<noteq> []" and hd: "\<not> is_ascii_whitespace (hd s)" and last: "\<not> is_ascii_whitespace (last s)"
  have keep: "dropWhile P xs = xs" if "xs \<noteq> []" "\<not> P (hd xs)" for P and xs :: string
    using that by (cases xs) auto
  show "trim s = s" using s hd last by (simp add: trim_def keep hd_rev)
qed

lemma digit_char_is_digit [simp]: "d < 10 \<Longrightarrow> is_digit (digit_char d)"
  by (simp add: is_digit_def of_char_digit_char)

lemma dec_of_nat_digits [simp]: "list_all is_digit (dec_of_nat n)"
  by (induction n rule: dec_of_nat.induct) (subst dec_of_nat.simps, simp)

lemma dec_of_nat_nonempty [simp]: "dec_of_nat n \<noteq> []"
  by (subst dec_of_nat.simps) simp

lemma parse_digits_dec [simp]: "parse_digits (dec_of_nat n) = Some n"
  by (simp add: parse_digits_def)

lemma dec_of_nat_hd: "is_digit (hd (dec_of_nat n))"
  using dec_of_nat_digits [of n] dec_of_nat_nonempty [of n] by (cases "dec_of_nat n") auto

lemma parse_uint_dec [simp]: "parse_uint (dec_of_nat (unat w)) = Some (w :: 'w::len word)"
proof -
  obtain c cs where dec: "dec_of_nat (unat w) = c # cs" by (cases "dec_of_nat (unat w)") simp_all
  then have "is_digit c" using dec_of_nat_hd [of "unat w"] by simp
  then have "c \<noteq> CHR ''+''" by (auto simp: is_digit_def)
  then show ?thesis
    using parse_digits_dec [of "unat w"] unat_lt2p [of w] by (simp add: parse_uint_def dec)
qed

lemma utf8_lossy_ascii:
  assumes "\<forall>c \<in> set (utf8_lossy s). of_char c < (128 :: nat)"
  shows "utf8_lossy s = s"
  using assms
proof (induction s rule: utf8_lossy.induct)
  case (2 c cs)
  obtain ok n where step: "utf8_step c cs = (ok, n)" by (cases "utf8_step c cs")
  with "2.prems" have ok by (auto simp: replacement_def split: if_splits)
  with 2 step show ?case by simp
qed simp

lemma ascii_utf8_lossy: "\<forall>c \<in> set s. of_char c < (128 :: nat) \<Longrightarrow> utf8_lossy s = s"
  by (induction s) (simp_all add: utf8_step_def Let_def)

lemma utf8_lossy_eq_ascii:
  "\<forall>c \<in> set t. of_char c < (128 :: nat) \<Longrightarrow> utf8_lossy s = t \<longleftrightarrow> s = t"
  using utf8_lossy_ascii [of s] ascii_utf8_lossy [of t] by auto

end
