(* ===== verification/Utils.thy ===== *)
theory Utils
  imports Text_Ops
begin

text \<open>
  The shared data of the engine, \<^verbatim>\<open>src/utils/mod.rs\<close>: the error type with its HTTP status
  and its rendering, canonical asset identities and their routing key, exact rational prices
  reduced by the greatest common divisor, payments and fee estimates. The lemmas show that
  a rational price is the reduced form of its fraction and that it is canonical.
\<close>

subsection \<open>Errors\<close>

datatype engine_error =
    NotFound string
  | InvalidRequest string
  | Conflict string
  | AdapterError string
  | NetworkError string
  | Internal string
  | PreconditionFailed string

fun http_status :: "engine_error \<Rightarrow> nat" where
  "http_status (NotFound _) = 404"
| "http_status (InvalidRequest _) = 400"
| "http_status (Conflict _) = 409"
| "http_status (PreconditionFailed _) = 412"
| "http_status _ = 500"

text \<open>The derived \<open>Display\<close> of the error enum.\<close>

fun error_to_string :: "engine_error \<Rightarrow> string" where
  "error_to_string (NotFound s) = ''payment not found: '' @ s"
| "error_to_string (InvalidRequest s) = ''invalid request: '' @ s"
| "error_to_string (Conflict s) = ''conflict: '' @ s"
| "error_to_string (AdapterError s) = ''chain adapter error: '' @ s"
| "error_to_string (NetworkError s) = ''network error: '' @ s"
| "error_to_string (Internal s) = ''internal error: '' @ s"
| "error_to_string (PreconditionFailed s) = ''precondition failed: '' @ s"

subsection \<open>Assets\<close>

datatype asset_type = Native | IssuedAsset | ContractToken

record asset_id =
  ast_network :: string
  ast_type :: asset_type
  ast_symbol :: string
  ast_decimals :: u8
  ast_issuer :: "string option"
  ast_contract :: "string option"

text \<open>The routing key: the contract address when present, else by asset type.\<close>

definition canonical_key :: "asset_id \<Rightarrow> string" where
  "canonical_key a =
     (case ast_contract a of
        Some c \<Rightarrow> c
      | None \<Rightarrow>
          (case ast_type a of
             Native \<Rightarrow> ''native''
           | IssuedAsset \<Rightarrow>
               (case ast_issuer a of Some i \<Rightarrow> i | None \<Rightarrow> '''') @ '':'' @ ast_symbol a
           | ContractToken \<Rightarrow> ''contract:'' @ ast_symbol a))"

definition native_asset :: "string \<Rightarrow> asset_id" where
  "native_asset net =
     \<lparr>ast_network = net, ast_type = Native, ast_symbol = ''XLM'', ast_decimals = 7,
      ast_issuer = None, ast_contract = None\<rparr>"

subsection \<open>Exact rational prices\<close>

function gcd_u128 :: "u128 \<Rightarrow> u128 \<Rightarrow> u128" where
  "gcd_u128 a b = (if b = 0 then a else gcd_u128 b (a mod b))"
  by pat_completeness auto
termination
proof (relation "measure (\<lambda>(a, b). unat b)", goal_cases)
  case (2 a b)
  then show ?case
    by (simp add: unat_mod) (metis mod_less_divisor unat_gt_0)
qed simp

declare gcd_u128.simps [simp del]

text \<open>Both components are decimal strings, as they are serialised.\<close>

record rational_price =
  rp_numerator :: string
  rp_denominator :: string

text \<open>The constructor asserts a positive denominator and panics otherwise.\<close>

definition rational_price_new :: "u128 \<Rightarrow> u128 \<Rightarrow> rational_price outcome" where
  "rational_price_new n d =
     (if d = 0 then Panic
      else let g = gcd_u128 n d in
        bind_out (div_op n g) (\<lambda>n'. bind_out (div_op d g) (\<lambda>d'.
          Returns \<lparr>rp_numerator = dec_of_nat (unat n'), rp_denominator = dec_of_nat (unat d')\<rparr>)))"

definition rational_price_zero :: rational_price where
  "rational_price_zero = \<lparr>rp_numerator = ''0'', rp_denominator = ''1''\<rparr>"

subsection \<open>Payments and fees\<close>

datatype payment_status = Pending | Processing | Confirmed | Failed

datatype urgency = Standard | Fast | Urgent

record payment =
  pm_id :: string
  pm_sender :: string
  pm_recipient :: string
  pm_amount :: u64
  pm_asset :: asset_id
  pm_status :: payment_status
  pm_tx_hash :: "string option"
  pm_fee_stroops :: u64
  pm_urgency :: urgency
  pm_error :: "string option"
  pm_created_at :: string
  pm_updated_at :: string

record fee_estimate =
  standard_stroops :: u64
  fast_stroops :: u64
  urgent_stroops :: u64
  standard_seconds :: u32
  fast_seconds :: u32
  urgent_seconds :: u32

definition default_fee_estimate :: fee_estimate where
  "default_fee_estimate =
     \<lparr>standard_stroops = 100, fast_stroops = 250, urgent_stroops = 500,
      standard_seconds = 5, fast_seconds = 3, urgent_seconds = 1\<rparr>"

subsection \<open>Lemmas: the greatest common divisor\<close>

lemma unat_gcd_u128: "unat (gcd_u128 a b) = gcd (unat a) (unat b)"
proof (induction a b rule: gcd_u128.induct)
  case (1 a b)
  show ?case
  proof (cases "b = 0")
    case True
    then show ?thesis by (simp add: gcd_u128.simps [of a 0])
  next
    case False
    with 1 have "unat (gcd_u128 a b) = gcd (unat b) (unat a mod unat b)"
      by (simp add: gcd_u128.simps [of a b] unat_mod)
    then show ?thesis by (simp add: gcd_red_nat [symmetric])
  qed
qed

lemma gcd_u128_pos: "d \<noteq> 0 \<Longrightarrow> gcd_u128 n d \<noteq> 0"
  using unat_gcd_u128 [of n d] by (auto simp: unat_eq_0)

subsection \<open>Lemmas: reduced prices\<close>

text \<open>The price a rendered fraction stands for, read back from its decimals.\<close>

definition price_num :: "rational_price \<Rightarrow> nat" where
  "price_num p = nat_of_dec (rp_numerator p)"

definition price_den :: "rational_price \<Rightarrow> nat" where
  "price_den p = nat_of_dec (rp_denominator p)"

lemma rational_price_new_Returns:
  "d \<noteq> 0 \<Longrightarrow> rational_price_new n d =
     Returns \<lparr>rp_numerator = dec_of_nat (unat n div gcd (unat n) (unat d)),
              rp_denominator = dec_of_nat (unat d div gcd (unat n) (unat d))\<rparr>"
  using gcd_u128_pos [of d n]
  by (simp add: rational_price_new_def div_op_def unat_div unat_gcd_u128)

lemma div_gcd_coprime_nat:
  fixes n d :: nat
  assumes "d \<noteq> 0"
  shows "coprime (n div gcd n d) (d div gcd n d)"
  using assms by (simp add: div_gcd_coprime)

lemma div_gcd_cross_nat:
  fixes n d :: nat
  shows "(n div gcd n d) * d = n * (d div gcd n d)"
  by (metis (no_types, lifting) div_mult_swap dvd_div_mult gcd_dvd1 gcd_dvd2)

lemma reduced_fraction_eq_iff:
  fixes n d m e :: nat
  assumes "d \<noteq> 0" and "e \<noteq> 0"
  shows "n div gcd n d = m div gcd m e \<and> d div gcd n d = e div gcd m e \<longleftrightarrow> n * e = m * d"
proof
  let ?g = "gcd n d" and ?h = "gcd m e"
  assume eq: "n div ?g = m div ?h \<and> d div ?g = e div ?h"
  obtain a b where "n = a * ?g" "d = b * ?g" "m = a * ?h" "e = b * ?h"
    using eq by (metis dvd_div_mult_self gcd_dvd1 gcd_dvd2)
  then show "n * e = m * d" by (metis mult.assoc mult.commute)
next
  let ?g = "gcd n d" and ?h = "gcd m e"
  assume cross: "n * e = m * d"
  have pos: "?g \<noteq> 0" "?h \<noteq> 0" "d div ?g \<noteq> 0"
    using assms by (simp_all add: div_eq_0_iff gcd_le2_nat not_less)
  obtain a b a' b' where parts: "n = a * ?g" "d = b * ?g" "m = a' * ?h" "e = b' * ?h"
    by (metis dvd_div_mult_self gcd_dvd1 gcd_dvd2)
  then have quot: "n div ?g = a" "d div ?g = b" "m div ?h = a'" "e div ?h = b'"
    using pos by (metis nonzero_mult_div_cancel_right)+
  have "(a * b') * (?g * ?h) = (a' * b) * (?g * ?h)"
    using cross parts by (metis mult.assoc mult.commute)
  then have "(n div ?g) * (e div ?h) = (m div ?h) * (d div ?g)"
    using pos by (auto simp: quot)
  then show "n div ?g = m div ?h \<and> d div ?g = e div ?h"
    by (subst (asm) coprime_crossproduct_nat)
      (use assms in \<open>simp_all add: div_gcd_coprime_nat\<close>)
qed

text \<open>
  A rational price built from \<open>n\<close> and a positive \<open>d\<close> never panics; its components denote
  the fraction \<open>n / d\<close> exactly, the denominator is at least one, and the fraction is in
  lowest terms.
\<close>

lemma rational_price_reduced:
  assumes "d \<noteq> 0"
  shows "\<exists>p. rational_price_new n d = Returns p
           \<and> price_num p * unat d = unat n * price_den p
           \<and> 1 \<le> price_den p
           \<and> coprime (price_num p) (price_den p)"
proof -
  have d: "unat d \<noteq> 0" using assms by (simp add: unat_eq_0)
  then have "unat d div gcd (unat n) (unat d) \<noteq> 0"
    by (simp add: div_eq_0_iff gcd_le2_nat not_less)
  with d show ?thesis
    using assms
    by (simp add: rational_price_new_Returns price_num_def price_den_def div_gcd_cross_nat
        div_gcd_coprime_nat)
qed

text \<open>
  Prices are canonical: two quotes render to the same pair of strings exactly when they
  denote the same fraction, so clients may compare the serialised price.
\<close>

lemma rational_price_canonical:
  assumes "d \<noteq> 0" and "e \<noteq> 0"
  shows "rational_price_new n d = rational_price_new m e
           \<longleftrightarrow> unat n * unat e = unat m * unat d"
proof -
  have d: "unat d \<noteq> 0" and e: "unat e \<noteq> 0" using assms by (simp_all add: unat_eq_0)
  have "rational_price_new n d = rational_price_new m e \<longleftrightarrow>
      unat n div gcd (unat n) (unat d) = unat m div gcd (unat m) (unat e) \<and>
      unat d div gcd (unat n) (unat d) = unat e div gcd (unat m) (unat e)"
    using assms by (simp add: rational_price_new_Returns)
  also have "\<dots> \<longleftrightarrow> unat n * unat e = unat m * unat d"
    using reduced_fraction_eq_iff [OF d e] by blast
  finally show ?thesis .
qed

end
