(* ===== verification/Rate_Limit.thy ===== *)
theory Rate_Limit
  imports Utils
begin

text \<open>
  Scopes of \<^verbatim>\<open>src/auth.rs\<close> and the per-workload, per-scope rate limiter of
  \<^verbatim>\<open>src/rate_limit.rs\<close>: fixed windows per key, started by the first request after the last
  one ended. The property bounds what a key can do in any interval of a window's length, for
  every interleaving with the requests of other keys.
\<close>

subsection \<open>Scopes\<close>

datatype scope = Read | TxConstruct | TxSubmit | Admin | Diagnostics

fun scope_as_str :: "scope \<Rightarrow> string" where
  "scope_as_str Read = ''read''"
| "scope_as_str TxConstruct = ''tx_construct''"
| "scope_as_str TxSubmit = ''tx_submit''"
| "scope_as_str Admin = ''admin''"
| "scope_as_str Diagnostics = ''diagnostics''"

definition scope_parse :: "string \<Rightarrow> scope option" where
  "scope_parse s =
     (if s = ''read'' then Some Read
      else if s = ''tx_construct'' then Some TxConstruct
      else if s = ''tx_submit'' then Some TxSubmit
      else if s = ''admin'' then Some Admin
      else if s = ''diagnostics'' then Some Diagnostics
      else None)"

record service_identity =
  si_key_id :: string

subsection \<open>The limiter\<close>

record rate_limit =
  rl_limit :: u32
  rl_window :: duration

definition per_minute :: "u32 \<Rightarrow> rate_limit" where
  "per_minute n = \<lparr>rl_limit = n, rl_window = from_secs 60\<rparr>"

fun default_limit_for :: "scope \<Rightarrow> rate_limit" where
  "default_limit_for Read = per_minute 600"
| "default_limit_for TxConstruct = per_minute 180"
| "default_limit_for TxSubmit = per_minute 60"
| "default_limit_for Admin = per_minute 30"
| "default_limit_for Diagnostics = per_minute 30"

record bucket =
  window_start :: instant
  bucket_count :: u32

type_synonym rate_limiter = "string \<rightharpoonup> bucket"

definition limiter_new :: rate_limiter where
  "limiter_new = Map.empty"

text \<open>The locked section of one request, at the time \<open>now\<close>.\<close>

definition allow :: "rate_limiter \<Rightarrow> instant \<Rightarrow> string \<Rightarrow> rate_limit \<Rightarrow> bool \<times> rate_limiter" where
  "allow st now key limit =
     (let entry = (case st key of Some b \<Rightarrow> b | None \<Rightarrow> \<lparr>window_start = now, bucket_count = 0\<rparr>);
          entry1 = (if rl_window limit \<le> elapsed now (window_start entry)
                    then \<lparr>window_start = now, bucket_count = 0\<rparr> else entry) in
      if rl_limit limit \<le> bucket_count entry1 then (False, st(key \<mapsto> entry1))
      else (True, st(key \<mapsto> entry1\<lparr>bucket_count := bucket_count entry1 + 1\<rparr>)))"

text \<open>The middleware: the bucket key of a request, and what happens to it.\<close>

definition limiter_key :: "service_identity option \<Rightarrow> scope \<Rightarrow> string" where
  "limiter_key identity scope =
     (case identity of
        Some i \<Rightarrow> si_key_id i @ '':'' @ scope_as_str scope
      | None \<Rightarrow> ''anonymous:'' @ scope_as_str scope)"

record rate_limit_error =
  rle_status :: nat
  rle_code :: string
  rle_message :: string

definition enforce ::
    "rate_limiter \<Rightarrow> instant \<Rightarrow> scope \<Rightarrow> service_identity option \<Rightarrow> (rate_limit_error + unit) \<times> rate_limiter" where
  "enforce st now scope identity =
     (case allow st now (limiter_key identity scope) (default_limit_for scope) of
        (False, st') \<Rightarrow>
          (Err \<lparr>rle_status = 429, rle_code = ''RATE_LIMITED'',
                rle_message = ''too many requests for this scope; slow down''\<rparr>, st')
      | (True, st') \<Rightarrow> (Ok (), st'))"

subsection \<open>Lemmas: how much a key is admitted\<close>

lemma scope_parse_as_str [simp]: "scope_parse (scope_as_str s) = Some s"
  by (cases s) (simp_all add: scope_parse_def)

lemma scope_as_str_inject: "scope_as_str s = scope_as_str s' \<longleftrightarrow> s = s'"
  by (metis option.inject scope_parse_as_str)

text \<open>The number of requests of key \<open>k\<close> admitted in a sequence of requests of any keys.\<close>

fun admitted :: "rate_limit \<Rightarrow> (instant \<times> string) list \<Rightarrow> rate_limiter \<Rightarrow> string \<Rightarrow> nat" where
  "admitted lim [] st k = 0"
| "admitted lim ((now, k') # es) st k =
     (case allow st now k' lim of
        (b, st') \<Rightarrow> (if b \<and> k' = k then 1 else 0) + admitted lim es st' k)"

lemma allow_other: "k' \<noteq> k \<Longrightarrow> snd (allow st now k' lim) k = st k"
  by (simp add: allow_def Let_def)

text \<open>Within the current window the rest of the budget is left.\<close>

lemma admitted_same_window:
  assumes "st k = Some b" and "bucket_count b \<le> rl_limit lim"
    and "\<forall>(now, k') \<in> set es. elapsed now (window_start b) < rl_window lim"
  shows "admitted lim es st k \<le> unat (rl_limit lim) - unat (bucket_count b)"
  using assms
proof (induction es arbitrary: st b)
  case (Cons e es)
  obtain now k' where e: "e = (now, k')" by (cases e)
  have rest: "\<forall>(now, k') \<in> set es. elapsed now (window_start b) < rl_window lim"
    and now: "\<not> rl_window lim \<le> elapsed now (window_start b)"
    using Cons.prems(3) by (auto simp: e not_le)
  show ?case
  proof (cases "k' = k")
    case False
    obtain r st' where allow: "allow st now k' lim = (r, st')" by (cases "allow st now k' lim")
    have "st' k = Some b" using allow_other [OF False, of st now lim] Cons.prems(1) allow by simp
    with Cons.IH [of st' b] Cons.prems(2) rest False show ?thesis by (simp add: e allow)
  next
    case True
    show ?thesis
    proof (cases "rl_limit lim \<le> bucket_count b")
      case full: True
      then have "allow st now k' lim = (False, st(k \<mapsto> b))"
        using now Cons.prems(1) True by (simp add: allow_def Let_def)
      moreover have "admitted lim es (st(k \<mapsto> b)) k \<le> unat (rl_limit lim) - unat (bucket_count b)"
        by (rule Cons.IH) (use Cons.prems(2) rest in simp_all)
      ultimately show ?thesis by (simp add: e)
    next
      case False
      let ?b = "b\<lparr>bucket_count := bucket_count b + 1\<rparr>"
      have less: "unat (bucket_count b) < unat (rl_limit lim)"
        using False by (simp add: word_le_nat_alt not_le)
      then have u: "unat (bucket_count b + 1) = Suc (unat (bucket_count b))"
        using unat_lt2p [of "rl_limit lim"] unat_add_fits [of "bucket_count b" "1 :: u32"] by simp
      have "allow st now k' lim = (True, st(k \<mapsto> ?b))"
        using now Cons.prems(1) True False by (simp add: allow_def Let_def)
      moreover have "admitted lim es (st(k \<mapsto> ?b)) k \<le> unat (rl_limit lim) - unat (bucket_count ?b)"
        by (rule Cons.IH) (use less u rest in \<open>simp_all add: word_le_nat_alt\<close>)
      ultimately show ?thesis using less u True by (simp add: e)
    qed
  qed
qed simp

text \<open>A request that starts a new window.\<close>

lemma admitted_new_window:
  assumes "case st k of None \<Rightarrow> True | Some b \<Rightarrow> rl_window lim \<le> elapsed now (window_start b)"
    and "\<forall>(t, k') \<in> set es. elapsed t now < rl_window lim"
  shows "admitted lim ((now, k) # es) st k \<le> unat (rl_limit lim)"
proof -
  let ?b = "\<lparr>window_start = now, bucket_count = 0\<rparr>"
  have "admitted lim ((now, k) # es) st k = admitted lim ((now, k) # es) (st(k \<mapsto> ?b)) k"
    using assms(1) by (auto simp: allow_def Let_def elapsed_def split: option.splits)
  also have "\<dots> \<le> unat (rl_limit lim) - unat (bucket_count ?b)"
  proof (cases "rl_window lim = 0")
    case True
    with assms(2) have "es = []" by (cases es) auto
    with True show ?thesis by (auto simp: allow_def Let_def word_le_nat_alt)
  next
    case False
    show ?thesis
      by (rule admitted_same_window) (use False assms(2) in \<open>auto simp: elapsed_def\<close>)
  qed
  finally show ?thesis by simp
qed

lemma admitted_two_windows:
  assumes "case st k of None \<Rightarrow> True | Some b \<Rightarrow> bucket_count b \<le> rl_limit lim"
    and "sorted (map fst es)" and "\<forall>(t, k') \<in> set es. start \<le> t \<and> t < start + rl_window lim"
  shows "admitted lim es st k \<le>
     (case st k of None \<Rightarrow> 0 | Some b \<Rightarrow> unat (rl_limit lim) - unat (bucket_count b)) + unat (rl_limit lim)"
  using assms
proof (induction es arbitrary: st)
  case (Cons e es)
  obtain now k' where e: "e = (now, k')" by (cases e)
  have later: "\<forall>(t, k') \<in> set es. elapsed t now < rl_window lim"
    using Cons.prems(2,3) by (auto simp: e elapsed_def)
  show ?case
  proof (cases "k' = k")
    case False
    obtain r st' where allow: "allow st now k' lim = (r, st')" by (cases "allow st now k' lim")
    have "st' k = st k" using allow_other [OF False, of st now lim] allow by simp
    with Cons.IH [of st'] Cons.prems False show ?thesis by (simp add: e allow)
  next
    case True
    show ?thesis
    proof (cases "case st k of None \<Rightarrow> True | Some b \<Rightarrow> rl_window lim \<le> elapsed now (window_start b)")
      case new: True
      with admitted_new_window [of lim now st k es] later show ?thesis
        by (simp add: e True split: option.splits)
    next
      case False
      then obtain b where b: "st k = Some b" "\<not> rl_window lim \<le> elapsed now (window_start b)"
        by (auto split: option.splits)
      show ?thesis
      proof (cases "rl_limit lim \<le> bucket_count b")
        case full: True
        have "st(k \<mapsto> b) = st" using b by auto
        with full have allow: "allow st now k' lim = (False, st)"
          using b True by (simp add: allow_def Let_def)
        show ?thesis using Cons.IH [of st] Cons.prems b by (simp add: e allow)
      next
        case free: False
        let ?b = "b\<lparr>bucket_count := bucket_count b + 1\<rparr>"
        have less: "unat (bucket_count b) < unat (rl_limit lim)"
          using free by (simp add: word_le_nat_alt not_le)
        then have u: "unat (bucket_count b + 1) = Suc (unat (bucket_count b))"
          using unat_lt2p [of "rl_limit lim"] unat_add_fits [of "bucket_count b" "1 :: u32"] by simp
        define st' where "st' = st(k \<mapsto> ?b)"
        have allow: "allow st now k lim = (True, st')" "st' k = Some ?b"
          using b True free by (simp_all add: allow_def Let_def st'_def)
        have "admitted lim es st' k \<le> unat (rl_limit lim) - unat (bucket_count ?b) + unat (rl_limit lim)"
          using Cons.IH [of st'] Cons.prems(2,3) less u allow(2) by (simp add: e word_le_nat_alt)
        with b less u show ?thesis by (simp add: e allow True)
      qed
    qed
  qed
qed simp

subsection \<open>Properties\<close>

text \<open>
  C32. From a fresh limiter, in every sequence of requests of any keys in the order of their times,
  a key is admitted at most its limit within one window, and within any further interval of a
  window's length at most twice its limit, where a window that was already running may be used up
  and one new window can start. Requests of other keys make no difference.\<close>

theorem rate_limit_bounds:
  assumes "sorted (map fst es)" and "\<forall>(t, k') \<in> set es. start \<le> t \<and> t < start + rl_window lim"
    and "case st k of None \<Rightarrow> True | Some b \<Rightarrow> bucket_count b \<le> rl_limit lim"
  shows "admitted lim es st k \<le> 2 * unat (rl_limit lim) \<and>
     (st k = None \<longrightarrow> admitted lim es st k \<le> unat (rl_limit lim))"
proof -
  from admitted_two_windows [of lim st k es start] assms show ?thesis by (auto split: option.splits)
qed

theorem rate_limit_bounds_witness:
  "admitted \<lparr>rl_limit = 3, rl_window = 60\<rparr> [(0, ''k''), (1, ''k''), (2, ''j''), (3, ''k''), (4, ''k'')]
     limiter_new ''k'' = 3"
proof -
  have "admitted \<lparr>rl_limit = 3, rl_window = 60\<rparr> [(0, ''k''), (1, ''k''), (2, ''j''), (3, ''k''), (4, ''k'')]
      limiter_new ''k'' \<le> 3"
    using rate_limit_bounds [of "[(0, ''k''), (1, ''k''), (2, ''j''), (3, ''k''), (4, ''k'')]" 0
        "\<lparr>rl_limit = 3, rl_window = 60\<rparr>" limiter_new "''k''"]
    by (simp add: limiter_new_def)
  moreover have "3 \<le> admitted \<lparr>rl_limit = 3, rl_window = 60\<rparr>
      [(0, ''k''), (1, ''k''), (2, ''j''), (3, ''k''), (4, ''k'')] limiter_new ''k''"
    by code_simp
  ultimately show ?thesis by simp
qed

text \<open>
  Workloads and scopes never share a budget: two authenticated requests use the same bucket
  only for the same key and the same scope.\<close>

lemma budgets_are_separate:
  "limiter_key (Some i) s = limiter_key (Some j) s' \<longleftrightarrow> si_key_id i = si_key_id j \<and> s = s'"
proof
  assume eq: "limiter_key (Some i) s = limiter_key (Some j) s'"
  have no_colon: "CHR '':'' \<notin> set (scope_as_str x)" for x by (cases x) simp_all
  have "takeWhile (\<lambda>c. c \<noteq> CHR '':'') (rev (limiter_key (Some i) x)) = rev (scope_as_str x)" for i x
    using no_colon [of x] by (auto simp: limiter_key_def takeWhile_append)
  with eq have "rev (scope_as_str s) = rev (scope_as_str s')" by metis
  then have "s = s'" by (simp add: scope_as_str_inject)
  with eq show "si_key_id i = si_key_id j \<and> s = s'" by (simp add: limiter_key_def)
qed (simp add: limiter_key_def)

end
