(* ===== verification/Nonce_Store.thy ===== *)
theory Nonce_Store
  imports Utils
begin

text \<open>
  Replay protection, \<^verbatim>\<open>src/nonce_store.rs\<close>. A nonce store records when a nonce was last
  accepted. The trait \<open>NonceStore\<close> is the locale \<open>nonce_store\<close>; from its laws follows, for every
  sequence of uses and evictions, that two accepted uses of one nonce are a whole replay window
  apart. The in-memory store and the Redis store satisfy the laws.
\<close>

subsection \<open>The in-memory store\<close>

type_synonym nonce_map = "string \<rightharpoonup> instant"

definition nonce_memory_new :: nonce_map where
  "nonce_memory_new = Map.empty"

text \<open>Each clock reading of a call is the time \<open>now\<close> of its locked section.\<close>

definition memory_check_and_set :: "nonce_map \<Rightarrow> instant \<Rightarrow> string \<Rightarrow> duration \<Rightarrow> (engine_error + bool) \<times> nonce_map" where
  "memory_check_and_set st now key ttl =
     (case st key of
        Some stored_at \<Rightarrow>
          if ttl \<le> elapsed now stored_at then (Ok False, st(key \<mapsto> now)) else (Ok True, st)
      | None \<Rightarrow> (Ok False, st(key \<mapsto> now)))"

definition evict_expired :: "nonce_map \<Rightarrow> instant \<Rightarrow> duration \<Rightarrow> nonce_map" where
  "evict_expired st now ttl =
     (\<lambda>k. case st k of Some t \<Rightarrow> if elapsed now t < ttl then Some t else None | None \<Rightarrow> None)"

text \<open>How often the background task evicts.\<close>

definition eviction_interval :: "duration \<Rightarrow> duration" where
  "eviction_interval ttl = max (ttl div 4) (from_secs 1)"

subsection \<open>The Redis store\<close>

text \<open>
  \<open>SET key 1 NX EX secs\<close> of the server is a parameter: it answers whether it wrote, or fails. The
  window is passed in whole seconds, at least one.
\<close>

definition ex_seconds :: "duration \<Rightarrow> nat" where
  "ex_seconds ttl = max (ttl div 1000) 1"

definition redis_check_and_set ::
    "('db \<Rightarrow> instant \<Rightarrow> string \<Rightarrow> nat \<Rightarrow> (string + bool) \<times> 'db) \<Rightarrow> 'db \<Rightarrow> instant \<Rightarrow> string \<Rightarrow> duration
       \<Rightarrow> (engine_error + bool) \<times> 'db" where
  "redis_check_and_set set_nx_ex db now key ttl =
     (case set_nx_ex db now (''nonce:'' @ key) (ex_seconds ttl) of
        (Err e, db') \<Rightarrow> (Err (Internal (''redis nonce set error: '' @ e)), db')
      | (Ok wrote, db') \<Rightarrow> (Ok (\<not> wrote), db'))"

text \<open>Which store is built: Redis when configured and reachable, memory otherwise.\<close>

datatype nonce_backend = Redis_Nonces string | Memory_Nonces

definition create_nonce_store :: "(string \<Rightarrow> engine_error + unit) \<Rightarrow> string option \<Rightarrow> nonce_backend \<times> bool" where
  "create_nonce_store connect redis_url =
     (case redis_url of
        Some url \<Rightarrow>
          (case connect url of
             Ok _ \<Rightarrow> (Redis_Nonces url, False)
           | Err e \<Rightarrow> (Memory_Nonces, True))
      | None \<Rightarrow> (Memory_Nonces, True))"

text \<open>A Redis server that does not answer is replaced by the store of the process, as if none were configured.\<close>

lemma nonce_store_falls_back:
  "connect url = Err e \<Longrightarrow> create_nonce_store connect (Some url) = create_nonce_store connect None"
  by (simp add: create_nonce_store_def)

subsection \<open>Sequences of uses\<close>

text \<open>A use of a nonce, or a run of the maintenance task, with its time.\<close>

datatype nonce_event = Use instant string | Maintain instant

fun event_time :: "nonce_event \<Rightarrow> instant" where
  "event_time (Use t _) = t"
| "event_time (Maintain t) = t"

fun nonce_step ::
    "('s \<Rightarrow> instant \<Rightarrow> string \<Rightarrow> duration \<Rightarrow> (engine_error + bool) \<times> 's) \<Rightarrow> ('s \<Rightarrow> instant \<Rightarrow> duration \<Rightarrow> 's)
       \<Rightarrow> duration \<Rightarrow> nonce_event \<Rightarrow> 's \<Rightarrow> 's" where
  "nonce_step check maintain ttl (Use t k) s = snd (check s t k ttl)"
| "nonce_step check maintain ttl (Maintain t) s = maintain s t ttl"

definition nonce_run ::
    "('s \<Rightarrow> instant \<Rightarrow> string \<Rightarrow> duration \<Rightarrow> (engine_error + bool) \<times> 's) \<Rightarrow> ('s \<Rightarrow> instant \<Rightarrow> duration \<Rightarrow> 's)
       \<Rightarrow> duration \<Rightarrow> nonce_event list \<Rightarrow> 's \<Rightarrow> 's" where
  "nonce_run check maintain ttl es s = fold (nonce_step check maintain ttl) es s"

subsection \<open>The contract of a nonce store\<close>

text \<open>
  \<open>seen s t k\<close>: the store would report a use of \<open>k\<close> at time \<open>t\<close> as a replay. For the configured
  window \<open>ttl\<close>: an accepted use was not seen, and is seen from then on for the whole window;
  nothing that is seen is forgotten, neither by a use nor by maintenance.
\<close>

locale nonce_store =
  fixes check_and_set :: "'s \<Rightarrow> instant \<Rightarrow> string \<Rightarrow> duration \<Rightarrow> (engine_error + bool) \<times> 's"
    and maintain :: "'s \<Rightarrow> instant \<Rightarrow> duration \<Rightarrow> 's"
    and seen :: "'s \<Rightarrow> instant \<Rightarrow> string \<Rightarrow> bool"
    and ttl :: duration
  assumes accepted: "check_and_set s now k ttl = (Ok False, s') \<Longrightarrow>
      \<not> seen s now k \<and> (\<forall>t \<ge> now. elapsed t now < ttl \<longrightarrow> seen s' t k)"
    and kept: "check_and_set s now k ttl = (r, s') \<Longrightarrow> now \<le> t \<Longrightarrow> seen s t k' \<Longrightarrow> seen s' t k'"
    and maintain_kept: "now \<le> t \<Longrightarrow> seen s t k \<Longrightarrow> seen (maintain s now ttl) t k"
begin

lemma step_kept:
  "event_time e \<le> t \<Longrightarrow> seen s t k \<Longrightarrow> seen (nonce_step check_and_set maintain ttl e s) t k"
  by (cases e) (auto intro: maintain_kept kept [OF prod.collapse [symmetric]])

lemma run_kept:
  "\<forall>e \<in> set es. event_time e \<le> t \<Longrightarrow> seen s t k \<Longrightarrow> seen (nonce_run check_and_set maintain ttl es s) t k"
  unfolding nonce_run_def by (induction es arbitrary: s) (auto intro: step_kept)

lemma accepted_uses_apart:
  assumes first: "check_and_set s t k ttl = (Ok False, s1)"
    and between: "\<forall>e \<in> set es. event_time e \<le> t'" and "t \<le> t'"
    and second: "fst (check_and_set (nonce_run check_and_set maintain ttl es s1) t' k ttl) = Ok False"
  shows "ttl \<le> elapsed t' t"
proof (rule ccontr)
  assume "\<not> ttl \<le> elapsed t' t"
  then have "seen s1 t' k" using accepted [OF first] assms(3) by simp
  then have "seen (nonce_run check_and_set maintain ttl es s1) t' k" using between by (rule run_kept [rotated])
  then show False using accepted [of "nonce_run check_and_set maintain ttl es s1" t' k] second
    by (metis prod.collapse)
qed

end

subsection \<open>The stores satisfy the contract\<close>

definition memory_seen :: "duration \<Rightarrow> nonce_map \<Rightarrow> instant \<Rightarrow> string \<Rightarrow> bool" where
  "memory_seen ttl st t k \<longleftrightarrow> (\<exists>t0. st k = Some t0 \<and> elapsed t t0 < ttl)"

interpretation memory_nonces: nonce_store memory_check_and_set evict_expired "memory_seen ttl" ttl for ttl
  by unfold_locales
    (auto simp: memory_check_and_set_def evict_expired_def memory_seen_def elapsed_def
      split: option.splits if_splits)

text \<open>
  What is used of the server: a key that was written is live for the given number of seconds and
  was not live before; no write ends the life of another key. The window is configured in whole
  seconds.
\<close>

locale expiring_server =
  fixes set_nx_ex :: "'db \<Rightarrow> instant \<Rightarrow> string \<Rightarrow> nat \<Rightarrow> (string + bool) \<times> 'db"
    and live :: "'db \<Rightarrow> instant \<Rightarrow> string \<Rightarrow> bool"
    and ttl :: duration
  assumes wrote: "set_nx_ex db now k secs = (Ok True, db') \<Longrightarrow>
      \<not> live db now k \<and> (\<forall>t \<ge> now. elapsed t now < from_secs secs \<longrightarrow> live db' t k)"
    and others: "set_nx_ex db now k secs = (r, db') \<Longrightarrow> now \<le> t \<Longrightarrow> live db t k' \<Longrightarrow> live db' t k'"
    and whole_seconds: "1000 dvd ttl"

lemma ex_seconds_covers: "1000 dvd ttl \<Longrightarrow> ttl \<le> from_secs (ex_seconds ttl)"
  by (auto simp: ex_seconds_def from_secs_def)

sublocale expiring_server \<subseteq> durable: nonce_store "redis_check_and_set set_nx_ex" "\<lambda>db _ _. db"
    "\<lambda>db t k. live db t (''nonce:'' @ k)" ttl
proof unfold_locales
  fix s now k s' assume "redis_check_and_set set_nx_ex s now k ttl = (Ok False, s')"
  then have "set_nx_ex s now (''nonce:'' @ k) (ex_seconds ttl) = (Ok True, s')"
    by (auto simp: redis_check_and_set_def split: prod.splits sum.splits)
  from wrote [OF this] ex_seconds_covers [OF whole_seconds]
  show "\<not> live s now (''nonce:'' @ k) \<and> (\<forall>t \<ge> now. elapsed t now < ttl \<longrightarrow> live s' t (''nonce:'' @ k))"
    by auto
next
  fix s now k r s' t k'
  assume run: "redis_check_and_set set_nx_ex s now k ttl = (r, s')" and "now \<le> t" "live s t (''nonce:'' @ k')"
  moreover from run have "set_nx_ex s now (''nonce:'' @ k) (ex_seconds ttl) =
      (fst (set_nx_ex s now (''nonce:'' @ k) (ex_seconds ttl)), s')"
    by (auto simp: redis_check_and_set_def split: prod.splits sum.splits)
  ultimately show "live s' t (''nonce:'' @ k')" using others by blast
qed

text \<open>A server that keeps the expiry of each key, for concrete runs.\<close>

definition map_set_nx_ex :: "(string \<rightharpoonup> instant) \<Rightarrow> instant \<Rightarrow> string \<Rightarrow> nat \<Rightarrow> (string + bool) \<times> (string \<rightharpoonup> instant)" where
  "map_set_nx_ex db now k secs =
     (case db k of
        Some expiry \<Rightarrow> if now < expiry then (Ok False, db) else (Ok True, db(k \<mapsto> now + from_secs secs))
      | None \<Rightarrow> (Ok True, db(k \<mapsto> now + from_secs secs)))"

definition map_live :: "(string \<rightharpoonup> instant) \<Rightarrow> instant \<Rightarrow> string \<Rightarrow> bool" where
  "map_live db t k \<longleftrightarrow> (\<exists>e. db k = Some e \<and> t < e)"

interpretation map_expiring: expiring_server map_set_nx_ex map_live 300000
  by unfold_locales
    (auto simp: map_set_nx_ex_def map_live_def elapsed_def split: option.splits if_splits)

context expiring_server
begin

lemmas accepted_uses_apart = durable.accepted_uses_apart

end

subsection \<open>Properties\<close>

text \<open>
  C31. In process memory, two accepted uses of one nonce are at least the replay window apart,
  whatever uses of any nonces and whatever evictions happen in between: within the window every
  second use is reported as a replay.\<close>

theorem nonce_accepted_once_per_window:
  assumes "memory_check_and_set s t k ttl = (Ok False, s1)"
    and "\<forall>e \<in> set es. event_time e \<le> t'" and "t \<le> t'"
    and "fst (memory_check_and_set (nonce_run memory_check_and_set evict_expired ttl es s1) t' k ttl) = Ok False"
  shows "ttl \<le> elapsed t' t"
  using assms by (rule memory_nonces.accepted_uses_apart)

theorem nonce_accepted_once_per_window_witness:
  "300 \<le> elapsed 310 5"
proof (rule nonce_accepted_once_per_window)
  show "memory_check_and_set nonce_memory_new 5 ''n'' 300 = (Ok False, nonce_memory_new(''n'' \<mapsto> 5))"
    by (simp add: memory_check_and_set_def nonce_memory_new_def)
  show "fst (memory_check_and_set (nonce_run memory_check_and_set evict_expired 300
      [Use 100 ''n'', Use 200 ''m'', Maintain 280] (nonce_memory_new(''n'' \<mapsto> 5))) 310 ''n'' 300) = Ok False"
    by code_simp
qed simp_all

text \<open>
  Over Redis the same holds for a window of whole seconds, for every server that keeps a key
  alive for the seconds it was given.\<close>

lemma redis_nonce_accepted_once_per_window:
  assumes "expiring_server set_nx_ex live ttl"
    and "redis_check_and_set set_nx_ex s t k ttl = (Ok False, s1)"
    and "\<forall>e \<in> set es. event_time e \<le> t'" and "t \<le> t'"
    and "fst (redis_check_and_set set_nx_ex
           (nonce_run (redis_check_and_set set_nx_ex) (\<lambda>db _ _. db) ttl es s1) t' k ttl) = Ok False"
  shows "ttl \<le> elapsed t' t"
  using assms by (rule expiring_server.accepted_uses_apart)

end
