(* ===== verification/Auth.thy ===== *)
theory Auth
  imports Rate_Limit Nonce_Store
begin

text \<open>
  Service authentication, \<^verbatim>\<open>src/auth.rs\<close>: the registry of service keys and its textual format,
  and the middleware that admits a signed request. Header text, hexadecimal decoding, the hash
  and the message authentication code are library functions, the fields of \<open>auth_lib\<close>; the nonce
  store is an argument with the contract \<open>nonce_store\<close>. The properties: what an admitted request
  has shown, that a request is admitted once, and that the key format loses nothing.
\<close>

subsection \<open>Networks\<close>

datatype network = Mainnet | Testnet

definition network_parse :: "string \<Rightarrow> engine_error + network" where
  "network_parse s =
     (if s = ''mainnet'' then Ok Mainnet
      else if s = ''testnet'' then Ok Testnet
      else Err (InvalidRequest (''network must be '' @ [CHR 0x27] @ ''mainnet'' @ [CHR 0x27] @ '' or '' @
             [CHR 0x27] @ ''testnet'' @ [CHR 0x27] @ '', got '' @ [CHR 0x27] @ s @ [CHR 0x27])))"

subsection \<open>Service keys\<close>

record service_key =
  sk_secret :: bytes
  sk_scopes :: "scope list"

record auth_lib =
  al_to_str :: "string \<Rightarrow> string option"
  al_hex_decode :: "string \<Rightarrow> string + bytes"
  al_sha256_hex :: "string \<Rightarrow> string"
  al_mac_new :: "bytes \<Rightarrow> bool"
  al_mac_verify :: "bytes \<Rightarrow> string \<Rightarrow> bytes \<Rightarrow> bool"

text \<open>A part of an entry: present and not empty.\<close>

definition key_part :: "string list \<Rightarrow> nat \<Rightarrow> string \<Rightarrow> string \<Rightarrow> string + string" where
  "key_part parts i what entry =
     ok_or (if i < length parts \<and> parts ! i \<noteq> [] then Some (parts ! i) else None)
       (''malformed key entry (missing '' @ what @ ''): '' @ entry)"

definition parse_key_entry :: "auth_lib \<Rightarrow> string \<Rightarrow> string + string \<times> service_key" where
  "parse_key_entry lib entry =
     (let parts = splitn 3 (CHR '':'') entry in
      bind_res (key_part parts 0 ''key_id'' entry) (\<lambda>key_id.
      bind_res (key_part parts 1 ''secret'' entry) (\<lambda>secret_hex.
      bind_res (key_part parts 2 ''scopes'' entry) (\<lambda>scopes_raw.
      bind_res (map_err (al_hex_decode lib secret_hex)
                  (\<lambda>e. ''key '' @ key_id @ '': secret must be hex-encoded: '' @ e)) (\<lambda>secret.
      if length secret < 16 then
        Err (''key '' @ key_id @ '': secret too short (>=16 bytes required, got '' @
               dec_of_nat (length secret) @ '')'')
      else
        bind_res (collect_res (map (\<lambda>s. ok_or (scope_parse s)
                    (''key '' @ key_id @ '': unknown scope '' @ [CHR 0x27] @ s @ [CHR 0x27]))
                  (split_on (CHR ''|'') scopes_raw))) (\<lambda>scopes.
        if scopes = [] then Err (''key '' @ key_id @ '': no scopes granted'')
        else Ok (key_id, \<lparr>sk_secret = secret, sk_scopes = scopes\<rparr>)))))))"

fun parse_key_entries :: "auth_lib \<Rightarrow> string list \<Rightarrow> (string \<rightharpoonup> service_key) \<Rightarrow> string + (string \<rightharpoonup> service_key)" where
  "parse_key_entries lib [] keys = Ok keys"
| "parse_key_entries lib (entry # rest) keys =
     bind_res (parse_key_entry lib entry) (\<lambda>(key_id, key).
     parse_key_entries lib rest (keys(key_id \<mapsto> key)))"

definition parse_service_keys :: "auth_lib \<Rightarrow> string \<Rightarrow> string + (string \<rightharpoonup> service_key)" where
  "parse_service_keys lib raw =
     parse_key_entries lib (filter (\<lambda>s. s \<noteq> []) (map trim (split_on (CHR '';'') raw))) Map.empty"

subsection \<open>The middleware\<close>

text \<open>
  A request with its headers in order, names in lower case; \<open>rq_body\<close> is \<open>None\<close> when the body
  cannot be read. The query string is part of the request target but not of its path.
\<close>

record request =
  rq_method :: string
  rq_path :: string
  rq_query :: "string option"
  rq_headers :: "(string \<times> string) list"
  rq_body :: "string option"

record auth_config =
  ac_keys :: "string \<rightharpoonup> service_key"
  ac_network :: network
  ac_clock_skew :: duration
  ac_replay_window :: duration

record rejection =
  rj_status :: nat
  rj_code :: string
  rj_message :: string

definition MAX_BODY_BYTES :: nat where
  "MAX_BODY_BYTES = 256 * 1024"

definition reject :: "nat \<Rightarrow> string \<Rightarrow> string \<Rightarrow> rejection + 'a" where
  "reject status code message = Err \<lparr>rj_status = status, rj_code = code, rj_message = message\<rparr>"

definition header_str :: "auth_lib \<Rightarrow> (string \<times> string) list \<Rightarrow> string \<Rightarrow> string option" where
  "header_str lib headers name =
     (case Option.bind (map_of headers name) (al_to_str lib) of
        Some s \<Rightarrow> if s = [] then None else Some s
      | None \<Rightarrow> None)"

text \<open>A required header, or the rejection of its name.\<close>

definition require_header :: "auth_lib \<Rightarrow> request \<Rightarrow> string \<Rightarrow> string \<Rightarrow> string \<Rightarrow> rejection + string" where
  "require_header lib req name code message =
     (case header_str lib (rq_headers req) name of
        Some v \<Rightarrow> Ok v
      | None \<Rightarrow> reject 401 code message)"

definition canonical_string :: "string \<Rightarrow> string \<Rightarrow> string \<Rightarrow> string \<Rightarrow> string \<Rightarrow> string \<Rightarrow> string \<Rightarrow> string" where
  "canonical_string method path digest timestamp nonce scope network =
     join_with (CHR 0x0A) [method, path, digest, timestamp, nonce, scope, network]"

text \<open>The comparison of the signature, in constant time, is the library's.\<close>

definition verify_signature :: "auth_lib \<Rightarrow> service_key \<Rightarrow> string \<Rightarrow> string \<Rightarrow> rejection + unit" where
  "verify_signature lib key canonical signature_hex =
     (case al_hex_decode lib signature_hex of
        Err _ \<Rightarrow> reject 401 ''INVALID_SIGNATURE_ENCODING'' ''X-Nodus-Signature must be hex-encoded''
      | Ok sig \<Rightarrow>
          if \<not> al_mac_new lib (sk_secret key) then reject 500 ''KEY_ERROR'' ''key error''
          else if \<not> al_mac_verify lib (sk_secret key) canonical sig then
            reject 401 ''BAD_SIGNATURE'' ''signature verification failed''
          else Ok ())"

text \<open>
  The checks up to and including the signature, in the order of the code: the key and the key
  under which the nonce is then spent. \<open>clock\<close> is the wall clock in seconds.
\<close>

definition verify_request ::
  "auth_lib \<Rightarrow> auth_config \<Rightarrow> scope \<Rightarrow> request \<Rightarrow> i64 \<Rightarrow> rejection + string \<times> string" where
  "verify_request lib auth required_scope req clock =
     bind_res (require_header lib req ''x-nodus-key-id'' ''MISSING_KEY_ID'' ''missing X-Nodus-Key-Id'') (\<lambda>key_id.
     bind_res (require_header lib req ''x-nodus-timestamp'' ''MISSING_TIMESTAMP'' ''missing X-Nodus-Timestamp'')
       (\<lambda>timestamp_raw.
     bind_res (require_header lib req ''x-nodus-nonce'' ''MISSING_NONCE'' ''missing X-Nodus-Nonce'') (\<lambda>nonce.
     bind_res (require_header lib req ''x-nodus-scope'' ''MISSING_SCOPE'' ''missing X-Nodus-Scope'')
       (\<lambda>claimed_scope_raw.
     bind_res (require_header lib req ''x-nodus-network'' ''MISSING_NETWORK'' ''missing X-Nodus-Network'')
       (\<lambda>network_raw.
     bind_res (require_header lib req ''x-nodus-signature'' ''MISSING_SIGNATURE'' ''missing X-Nodus-Signature'')
       (\<lambda>signature_hex.
     if claimed_scope_raw \<noteq> scope_as_str required_scope then
       reject 403 ''SCOPE_MISMATCH''
         (''request signed for scope '' @ [CHR 0x27] @ claimed_scope_raw @ [CHR 0x27] @
          '' cannot be used on a '' @ [CHR 0x27] @ scope_as_str required_scope @ [CHR 0x27] @ '' endpoint'')
     else (case ac_keys auth key_id of
       None \<Rightarrow> reject 401 ''UNKNOWN_KEY'' ''unknown key id''
     | Some key \<Rightarrow>
       if required_scope \<notin> set (sk_scopes key) then
         reject 403 ''SCOPE_NOT_GRANTED''
           (''key is not authorized for scope '' @ [CHR 0x27] @ scope_as_str required_scope @ [CHR 0x27])
       else
       bind_res (if network_raw = ''mainnet'' then Ok Mainnet
                 else if network_raw = ''testnet'' then Ok Testnet
                 else reject 400 ''INVALID_NETWORK'' (''X-Nodus-Network must be '' @ [CHR 0x27] @ ''mainnet'' @
                        [CHR 0x27] @ '' or '' @ [CHR 0x27] @ ''testnet'' @ [CHR 0x27])) (\<lambda>claimed_network.
       if claimed_network \<noteq> ac_network auth then
         reject 403 ''NETWORK_MISMATCH'' ''request signed for a different network than this deployment''
       else (case parse_i64 timestamp_raw of
         None \<Rightarrow> reject 400 ''INVALID_TIMESTAMP'' ''X-Nodus-Timestamp must be a unix-seconds integer''
       | Some timestamp \<Rightarrow>
         let skew = (of_nat (ac_clock_skew auth div 1000) :: i64) in
         if sint skew < sint (wrapping_abs (clock - timestamp)) then
           reject 401 ''CLOCK_SKEW'' ''timestamp outside the accepted clock-skew window''
         else if length nonce < 8 \<or> 128 < length nonce then
           reject 400 ''INVALID_NONCE'' ''nonce must be between 8 and 128 characters''
         else (case rq_body req of
           None \<Rightarrow> reject 413 ''BODY_TOO_LARGE'' ''request body exceeds the signable size limit''
         | Some body \<Rightarrow>
           if MAX_BODY_BYTES < length body then
             reject 413 ''BODY_TOO_LARGE'' ''request body exceeds the signable size limit''
           else
           let canonical = canonical_string (rq_method req) (rq_path req) (al_sha256_hex lib body)
                             timestamp_raw nonce claimed_scope_raw network_raw in
           bind_res (verify_signature lib key canonical signature_hex) (\<lambda>_.
           Ok (key_id, key_id @ '':'' @ nonce))))))))))))"

text \<open>Only a verified request spends its nonce. On success the handler gets the identity.\<close>

definition spend_nonce ::
  "('s \<Rightarrow> instant \<Rightarrow> string \<Rightarrow> duration \<Rightarrow> (engine_error + bool) \<times> 's) \<Rightarrow> auth_config \<Rightarrow> instant \<Rightarrow> string \<Rightarrow> 's \<Rightarrow>
     (rejection + unit) \<times> 's" where
  "spend_nonce check_and_set auth now replay_key nonces =
     (case check_and_set nonces now replay_key (ac_replay_window auth) of
        (Ok True, nonces') \<Rightarrow> (reject 409 ''REPLAYED_NONCE'' ''this nonce has already been used'', nonces')
      | (Ok False, nonces') \<Rightarrow> (Ok (), nonces')
      | (Err _, nonces') \<Rightarrow>
          (reject 503 ''NONCE_STORE_UNAVAILABLE'' ''replay-protection store unavailable'', nonces'))"

definition require_scope ::
  "auth_lib \<Rightarrow> ('s \<Rightarrow> instant \<Rightarrow> string \<Rightarrow> duration \<Rightarrow> (engine_error + bool) \<times> 's) \<Rightarrow> auth_config \<Rightarrow> scope \<Rightarrow>
     request \<Rightarrow> i64 \<Rightarrow> instant \<Rightarrow> 's \<Rightarrow> (rejection + service_identity) \<times> 's" where
  "require_scope lib check_and_set auth required_scope req clock now nonces =
     (case verify_request lib auth required_scope req clock of
        Err r \<Rightarrow> (Err r, nonces)
      | Ok (key_id, replay_key) \<Rightarrow>
          (case spend_nonce check_and_set auth now replay_key nonces of
             (spent, nonces') \<Rightarrow> (bind_res spent (\<lambda>_. Ok \<lparr>si_key_id = key_id\<rparr>), nonces')))"

subsection \<open>What the checks establish\<close>

lemma reject_simps [simp]: "reject st c m \<noteq> Ok x" "\<not> is_ok (reject st c m)"
  by (simp_all add: reject_def)

lemma bind_res_reject [simp]: "bind_res (reject st c m) f = reject st c m"
  by (simp add: reject_def bind_res_def)

text \<open>A guard that rejects is passed when it does not hold.\<close>

lemma reject_guards [res_simps]:
  "(if c then reject st m e else r) = Ok x \<longleftrightarrow> \<not> c \<and> r = Ok x"
  "(case opt of None \<Rightarrow> reject st m e | Some v \<Rightarrow> f v) = Ok x \<longleftrightarrow> (\<exists>v. opt = Some v \<and> f v = Ok x)"
  "(case res of Err d \<Rightarrow> reject st m e | Ok v \<Rightarrow> g v) = Ok x \<longleftrightarrow> (\<exists>v. res = Ok v \<and> g v = Ok x)"
  by (auto split: option.splits sum.splits)

lemma require_header_eq_Ok [res_simps]:
  "require_header lib req name code message = Ok v \<longleftrightarrow> header_str lib (rq_headers req) name = Some v"
  by (auto simp: require_header_def split: option.splits)

fun network_name :: "network \<Rightarrow> string" where
  "network_name Mainnet = ''mainnet''"
| "network_name Testnet = ''testnet''"

lemma network_name_inject [simp]: "network_name m = network_name n \<longleftrightarrow> m = n"
  by (cases m; cases n) simp_all

lemma network_parse_eq_Ok [res_simps]: "network_parse s = Ok n \<longleftrightarrow> s = network_name n"
  by (cases n) (auto simp: network_parse_def)

text \<open>The clock check passes: within the skew, or for the one difference whose absolute value wraps.\<close>

definition clock_ok :: "nat \<Rightarrow> i64 \<Rightarrow> i64 \<Rightarrow> bool" where
  "clock_ok skew clock timestamp \<longleftrightarrow>
     \<not> sint (of_nat skew :: i64) < sint (wrapping_abs (clock - timestamp))"

lemma verify_request_Ok:
  assumes "verify_request lib auth scope req clock = Ok (key_id, replay_key)"
  obtains key timestamp_raw timestamp nonce signature_hex sig body
  where "header_str lib (rq_headers req) ''x-nodus-key-id'' = Some key_id"
    "header_str lib (rq_headers req) ''x-nodus-timestamp'' = Some timestamp_raw"
    "header_str lib (rq_headers req) ''x-nodus-nonce'' = Some nonce"
    "header_str lib (rq_headers req) ''x-nodus-scope'' = Some (scope_as_str scope)"
    "header_str lib (rq_headers req) ''x-nodus-network'' = Some (network_name (ac_network auth))"
    "header_str lib (rq_headers req) ''x-nodus-signature'' = Some signature_hex"
    "ac_keys auth key_id = Some key" "scope \<in> set (sk_scopes key)"
    "parse_i64 timestamp_raw = Some timestamp" "clock_ok (ac_clock_skew auth div 1000) clock timestamp"
    "8 \<le> length nonce" "length nonce \<le> 128"
    "rq_body req = Some body" "length body \<le> MAX_BODY_BYTES"
    "al_hex_decode lib signature_hex = Ok sig"
    "al_mac_verify lib (sk_secret key) (canonical_string (rq_method req) (rq_path req)
       (al_sha256_hex lib body) timestamp_raw nonce (scope_as_str scope) (network_name (ac_network auth))) sig"
    "replay_key = key_id @ '':'' @ nonce"
proof -
  have net: "(if raw = ''mainnet'' then Ok Mainnet else if raw = ''testnet'' then Ok Testnet else reject a b c) =
      Ok n \<longleftrightarrow> raw = network_name n" for raw a b c n
    by (cases n) auto
  show thesis
    using assms that unfolding verify_request_def verify_signature_def Let_def clock_ok_def
    by (simp only: res_simps net not_not) (auto simp: not_less)
qed

lemma require_scope_Ok:
  "require_scope lib check auth scope req clock now s = (Ok i, s') \<longleftrightarrow>
     (\<exists>k. verify_request lib auth scope req clock = Ok (si_key_id i, k) \<and>
        check s now k (ac_replay_window auth) = (Ok False, s'))"
  by (cases i) (auto simp: require_scope_def spend_nonce_def split: sum.splits prod.splits bool.splits)

lemma canonical_string_inject:
  assumes "\<forall>x \<in> set [m, p, d, t, n, sc, nw]. CHR 0x0A \<notin> set x"
    and "\<forall>x \<in> set [m', p', d', t', n', sc', nw']. CHR 0x0A \<notin> set x"
    and "canonical_string m p d t n sc nw = canonical_string m' p' d' t' n' sc' nw'"
  shows "m = m' \<and> p = p' \<and> d = d' \<and> t = t' \<and> n = n' \<and> sc = sc' \<and> nw = nw'"
  using join_with_inject [OF _ _ assms(1,2)] assms(3) by (simp add: canonical_string_def)

subsection \<open>The clock\<close>

lemma sint_diff_cases:
  fixes a b :: i64
  assumes "0 \<le> sint a" and "sint a < 2 ^ 62"
  shows "sint (a - b) = (if sint a - sint b < 2 ^ 63 then sint a - sint b else sint a - sint b - 2 ^ 64)"
proof -
  have b: "- (2 ^ 63) \<le> sint b" "sint b < 2 ^ 63" using sint_ge [of b] sint_less [of b] by simp_all
  have "sint (a - b) = signed_take_bit 63 (sint a - sint b)"
    by (simp add: sint_word_ariths)
  also have "\<dots> = (sint a - sint b + 2 ^ 63) mod 2 ^ 64 - 2 ^ 63"
    by (simp add: signed_take_bit_eq_take_bit_shift take_bit_eq_mod)
  also have "\<dots> = (if sint a - sint b < 2 ^ 63 then sint a - sint b else sint a - sint b - 2 ^ 64)"
  proof (cases "sint a - sint b < 2 ^ 63")
    case True
    then have "(sint a - sint b + 2 ^ 63) mod 2 ^ 64 = sint a - sint b + 2 ^ 63"
      using assms b by (intro mod_pos_pos_trivial) auto
    with True show ?thesis by simp
  next
    case False
    then have "(sint a - sint b + 2 ^ 63 - 2 ^ 64) mod 2 ^ 64 = sint a - sint b + 2 ^ 63 - 2 ^ 64"
      using assms b by (intro mod_pos_pos_trivial) auto
    then have "(sint a - sint b + 2 ^ 63) mod 2 ^ 64 = sint a - sint b + 2 ^ 63 - 2 ^ 64"
      by (simp only: minus_mod_self2)
    with False show ?thesis by simp
  qed
  finally show ?thesis .
qed

lemma sint_of_nat_small: "n < 2 ^ 62 \<Longrightarrow> sint (of_nat n :: i64) = int n"
  by (simp add: signed_of_nat signed_take_bit_int_eq_self)

lemma sint_wrapping_abs:
  "sint (wrapping_abs (w :: i64)) = (if sint w = - (2 ^ 63) then - (2 ^ 63) else \<bar>sint w\<bar>)"
proof (cases "sint w < 0")
  case True
  have w: "- (2 ^ 63) \<le> sint w" using sint_ge [of w] by simp
  have neg: "sint (- w) = signed_take_bit 63 (- sint w)" by (simp add: sint_word_ariths)
  show ?thesis
  proof (cases "sint w = - (2 ^ 63)")
    case True
    have "signed_take_bit 63 (2 ^ 63 :: int) = - (2 ^ 63)" by code_simp
    with True neg show ?thesis by (simp add: wrapping_abs_def)
  next
    case False
    with True w have "sint (- w) = - sint w"
      unfolding neg by (intro signed_take_bit_int_eq_self) linarith+
    with True False show ?thesis by (simp add: wrapping_abs_def)
  qed
next
  case False
  then show ?thesis by (simp add: wrapping_abs_def)
qed

lemma clock_ok_iff:
  assumes "skew < 2 ^ 62" and "clock < 2 ^ 62"
  shows "clock_ok skew (of_nat clock) timestamp \<longleftrightarrow>
    \<bar>int clock - sint timestamp\<bar> \<le> int skew \<or> int clock - sint timestamp = 2 ^ 63"
proof -
  have c: "sint (of_nat clock :: i64) = int clock" "0 \<le> int clock" "int clock < 2 ^ 62"
    using assms by (simp_all add: sint_of_nat_small flip: of_nat_power)
  have t: "- (2 ^ 63) \<le> sint timestamp" "sint timestamp < 2 ^ 63"
    using sint_ge [of timestamp] sint_less [of timestamp] by simp_all
  have s: "int skew < 2 ^ 62" using assms(1) by (simp flip: of_nat_power)
  show ?thesis
    using c t s
    by (auto simp: clock_ok_def sint_of_nat_small [OF assms(1)] sint_wrapping_abs sint_diff_cases not_less)
qed

lemma clock_ok_twice:
  assumes "skew < 2 ^ 62" and "clock' < 2 ^ 62" and "clock \<le> clock'"
    and "clock_ok skew (of_nat clock) ts" and "clock_ok skew (of_nat clock') ts"
  shows "clock' \<le> clock + 2 * skew"
proof -
  have "clock < 2 ^ 62" using assms(2,3) by linarith
  with assms show ?thesis
    by (auto simp: clock_ok_iff abs_if split: if_splits)
qed

subsection \<open>Sequences of requests\<close>

text \<open>
  Requests arrive at a time, with the wall clock read then, and the background task evicts. The
  verification does not look at the store, so a sequence of requests acts on it as the sequence
  of the nonces it spends.
\<close>

datatype auth_event = Incoming instant i64 scope request | Evict instant

fun auth_event_time :: "auth_event \<Rightarrow> instant" where
  "auth_event_time (Incoming t _ _ _) = t"
| "auth_event_time (Evict t) = t"

fun auth_step ::
  "auth_lib \<Rightarrow> ('s \<Rightarrow> instant \<Rightarrow> string \<Rightarrow> duration \<Rightarrow> (engine_error + bool) \<times> 's) \<Rightarrow>
     ('s \<Rightarrow> instant \<Rightarrow> duration \<Rightarrow> 's) \<Rightarrow> auth_config \<Rightarrow> auth_event \<Rightarrow> 's \<Rightarrow> 's" where
  "auth_step lib check maintain auth (Incoming t clock scope req) s =
     snd (require_scope lib check auth scope req clock t s)"
| "auth_step lib check maintain auth (Evict t) s = maintain s t (ac_replay_window auth)"

definition auth_run ::
  "auth_lib \<Rightarrow> ('s \<Rightarrow> instant \<Rightarrow> string \<Rightarrow> duration \<Rightarrow> (engine_error + bool) \<times> 's) \<Rightarrow>
     ('s \<Rightarrow> instant \<Rightarrow> duration \<Rightarrow> 's) \<Rightarrow> auth_config \<Rightarrow> auth_event list \<Rightarrow> 's \<Rightarrow> 's" where
  "auth_run lib check maintain auth es s = fold (auth_step lib check maintain auth) es s"

fun spent :: "auth_lib \<Rightarrow> auth_config \<Rightarrow> auth_event \<Rightarrow> nonce_event list" where
  "spent lib auth (Incoming t clock scope req) =
     (case verify_request lib auth scope req clock of Ok (_, k) \<Rightarrow> [Use t k] | Err _ \<Rightarrow> [])"
| "spent lib auth (Evict t) = [Maintain t]"

lemma auth_step_spent:
  "auth_step lib check maintain auth e s =
     nonce_run check maintain (ac_replay_window auth) (spent lib auth e) s"
  by (cases e)
     (auto simp: require_scope_def spend_nonce_def nonce_run_def split: sum.splits prod.splits bool.splits)

lemma auth_run_spent:
  "auth_run lib check maintain auth es s =
     nonce_run check maintain (ac_replay_window auth) (concat (map (spent lib auth) es)) s"
  unfolding auth_run_def
  by (induction es arbitrary: s) (simp_all add: auth_step_spent nonce_run_def)

lemma spent_times:
  assumes "\<forall>e \<in> set es. auth_event_time e \<le> t"
  shows "\<forall>e \<in> set (concat (map (spent lib auth) es)). event_time e \<le> t"
proof -
  have "event_time x = auth_event_time e" if "x \<in> set (spent lib auth e)" for x e
    using that by (cases e) (auto split: sum.splits)
  with assms show ?thesis by fastforce
qed

text \<open>Wall clock in seconds over a monotone clock in milliseconds.\<close>

definition wall :: "nat \<Rightarrow> instant \<Rightarrow> nat" where
  "wall epoch t = (epoch + t) div 1000"

lemma wall_bound:
  assumes "t \<le> t'" and "wall epoch t' \<le> wall epoch t + k"
  shows "elapsed t' t < from_secs (k + 1)"
proof -
  have "epoch + t' < 1000 * wall epoch t' + 1000" "1000 * wall epoch t \<le> epoch + t"
    by (simp_all add: wall_def)
  with assms show ?thesis by (simp add: elapsed_def from_secs_def)
qed

text \<open>The headers that identify a signed request.\<close>

definition same_signed :: "auth_lib \<Rightarrow> request \<Rightarrow> request \<Rightarrow> bool" where
  "same_signed lib r r' \<longleftrightarrow> (\<forall>name \<in> {''x-nodus-key-id'', ''x-nodus-timestamp'', ''x-nodus-nonce''}.
     header_str lib (rq_headers r) name = header_str lib (rq_headers r') name)"

definition window_covers_skew :: "auth_config \<Rightarrow> bool" where
  "window_covers_skew auth \<longleftrightarrow>
     from_secs (2 * (ac_clock_skew auth div 1000) + 1) \<le> ac_replay_window auth \<and>
     ac_clock_skew auth div 1000 < 2 ^ 62"

lemma same_signed_verified:
  assumes "same_signed lib r r'"
    and "verify_request lib auth scope r (of_nat (wall epoch t)) = Ok (key_id, k)"
    and "verify_request lib auth scope' r' (of_nat (wall epoch t')) = Ok (key_id', k')"
    and "t \<le> t'" and "wall epoch t' < 2 ^ 62" and "ac_clock_skew auth div 1000 < 2 ^ 62"
  shows "k' = k \<and> elapsed t' t < from_secs (2 * (ac_clock_skew auth div 1000) + 1)"
proof -
  obtain ts n raw where r: "header_str lib (rq_headers r) ''x-nodus-key-id'' = Some key_id"
    "header_str lib (rq_headers r) ''x-nodus-timestamp'' = Some raw"
    "header_str lib (rq_headers r) ''x-nodus-nonce'' = Some n" "k = key_id @ '':'' @ n"
    "parse_i64 raw = Some ts" "clock_ok (ac_clock_skew auth div 1000) (of_nat (wall epoch t)) ts"
    using assms(2) by (rule verify_request_Ok)
  obtain ts' n' raw' where r': "header_str lib (rq_headers r') ''x-nodus-key-id'' = Some key_id'"
    "header_str lib (rq_headers r') ''x-nodus-timestamp'' = Some raw'"
    "header_str lib (rq_headers r') ''x-nodus-nonce'' = Some n'" "k' = key_id' @ '':'' @ n'"
    "parse_i64 raw' = Some ts'" "clock_ok (ac_clock_skew auth div 1000) (of_nat (wall epoch t')) ts'"
    using assms(3) by (rule verify_request_Ok)
  have same: "key_id' = key_id" "raw' = raw" "n' = n"
    using assms(1) r(1-3) r'(1-3) by (simp_all add: same_signed_def)
  have "wall epoch t \<le> wall epoch t'" using assms(4) by (simp add: wall_def div_le_mono)
  then have "wall epoch t' \<le> wall epoch t + 2 * (ac_clock_skew auth div 1000)"
    using clock_ok_twice [OF assms(6,5) _ r(6)] r'(6) r(5) r'(5) same by simp
  from wall_bound [OF assms(4) this] show ?thesis using same r(4) r'(4) by simp
qed

context nonce_store
begin

text \<open>Over every store with the contract, a request is admitted at most once.\<close>

lemma second_use_refused:
  assumes "ac_replay_window auth = ttl" and "window_covers_skew auth"
    and first: "require_scope lib check_and_set auth scope r (of_nat (wall epoch t)) t s = (Ok i, s1)"
    and between: "\<forall>e \<in> set es. auth_event_time e \<le> t'" and "t \<le> t'" and "wall epoch t' < 2 ^ 62"
    and same: "same_signed lib r r'"
  shows "\<not> is_ok (fst (require_scope lib check_and_set auth scope' r' (of_nat (wall epoch t')) t'
    (auth_run lib check_and_set maintain auth es s1)))"
proof
  let ?s = "auth_run lib check_and_set maintain auth es s1"
  assume "is_ok (fst (require_scope lib check_and_set auth scope' r' (of_nat (wall epoch t')) t' ?s))"
  then obtain i' s' where second:
    "require_scope lib check_and_set auth scope' r' (of_nat (wall epoch t')) t' ?s = (Ok i', s')"
    by (metis is_ok_iff prod.collapse)
  from first obtain k where k: "verify_request lib auth scope r (of_nat (wall epoch t)) = Ok (si_key_id i, k)"
    "check_and_set s t k ttl = (Ok False, s1)"
    by (auto simp: require_scope_Ok assms(1))
  from second obtain k' where k':
    "verify_request lib auth scope' r' (of_nat (wall epoch t')) = Ok (si_key_id i', k')"
    "check_and_set ?s t' k' ttl = (Ok False, s')"
    by (auto simp: require_scope_Ok assms(1))
  have skew: "ac_clock_skew auth div 1000 < 2 ^ 62" using assms(2) by (simp add: window_covers_skew_def)
  from same_signed_verified [OF same k(1) k'(1) assms(5,6) skew]
  have "k' = k" and close: "elapsed t' t < from_secs (2 * (ac_clock_skew auth div 1000) + 1)" by simp_all
  then have "ttl \<le> elapsed t' t"
    using accepted_uses_apart [OF k(2) spent_times [OF between, of lib auth] assms(5)] k'(2)
    by (simp add: auth_run_spent assms(1))
  with close assms(1,2) show False by (simp add: window_covers_skew_def)
qed

end

subsection \<open>The format of the key registry\<close>

text \<open>How an operator writes a registry, given a hexadecimal encoder.\<close>

definition render_key :: "(bytes \<Rightarrow> string) \<Rightarrow> string \<times> service_key \<Rightarrow> string" where
  "render_key hex = (\<lambda>(key_id, key).
     key_id @ '':'' @ hex (sk_secret key) @ '':'' @
     join_with (CHR ''|'') (map scope_as_str (sk_scopes key)))"

definition render_service_keys :: "(bytes \<Rightarrow> string) \<Rightarrow> (string \<times> service_key) list \<Rightarrow> string" where
  "render_service_keys hex keys = join_with (CHR '';'') (map (render_key hex) keys)"

definition key_ok :: "string \<times> service_key \<Rightarrow> bool" where
  "key_ok = (\<lambda>(key_id, key).
     key_id \<noteq> [] \<and> CHR '':'' \<notin> set key_id \<and> CHR '';'' \<notin> set key_id \<and>
     \<not> is_ascii_whitespace (hd key_id) \<and> 16 \<le> length (sk_secret key) \<and> sk_scopes key \<noteq> [])"

text \<open>What is used of the encoder: decoding undoes it, and it writes no separators.\<close>

definition hex_codec :: "auth_lib \<Rightarrow> (bytes \<Rightarrow> string) \<Rightarrow> bool" where
  "hex_codec lib hex \<longleftrightarrow>
     (\<forall>b. al_hex_decode lib (hex b) = Ok b \<and> (b \<noteq> [] \<longrightarrow> hex b \<noteq> []) \<and>
        CHR '':'' \<notin> set (hex b) \<and> CHR '';'' \<notin> set (hex b))"

lemma scope_chars:
  "CHR ''|'' \<notin> set (scope_as_str s)" "CHR '';'' \<notin> set (scope_as_str s)" "scope_as_str s \<noteq> []"
  "\<not> is_ascii_whitespace (last (scope_as_str s))"
  by (cases s; simp add: is_ascii_whitespace_def)+

lemma join_with_set: "c \<in> set (join_with d xs) \<Longrightarrow> c = d \<or> (\<exists>x \<in> set xs. c \<in> set x)"
  by (induction d xs rule: join_with.induct) auto

lemma join_with_eq_Nil: "join_with c xs = [] \<longleftrightarrow> xs = [] \<or> xs = [[]]"
  by (cases "(c, xs)" rule: join_with.cases) auto

lemma join_with_last: "xs \<noteq> [] \<Longrightarrow> last xs \<noteq> [] \<Longrightarrow> last (join_with c xs) = last (last xs)"
  by (induction c xs rule: join_with.induct) (auto simp: join_with_eq_Nil split: if_splits)

lemma scopes_joined:
  assumes "scopes \<noteq> []"
  shows "join_with (CHR ''|'') (map scope_as_str scopes) \<noteq> []"
    and "CHR '';'' \<notin> set (join_with (CHR ''|'') (map scope_as_str scopes))"
    and "\<not> is_ascii_whitespace (last (join_with (CHR ''|'') (map scope_as_str scopes)))"
    and "split_on (CHR ''|'') (join_with (CHR ''|'') (map scope_as_str scopes)) = map scope_as_str scopes"
proof -
  show "join_with (CHR ''|'') (map scope_as_str scopes) \<noteq> []"
    using assms scope_chars(3) by (auto simp: join_with_eq_Nil)
  show "CHR '';'' \<notin> set (join_with (CHR ''|'') (map scope_as_str scopes))"
    using scope_chars(2) by (auto dest!: join_with_set)
  show "\<not> is_ascii_whitespace (last (join_with (CHR ''|'') (map scope_as_str scopes)))"
    using assms scope_chars(3,4) by (simp add: join_with_last last_map)
  show "split_on (CHR ''|'') (join_with (CHR ''|'') (map scope_as_str scopes)) = map scope_as_str scopes"
    using assms scope_chars(1) by (intro split_on_join) auto
qed

lemma parse_rendered_key:
  assumes "hex_codec lib hex" and "key_ok k"
  shows "parse_key_entry lib (render_key hex k) = Ok k" and "trim (render_key hex k) = render_key hex k"
    and "CHR '';'' \<notin> set (render_key hex k)" and "render_key hex k \<noteq> []"
proof -
  obtain key_id key where k: "k = (key_id, key)" by (cases k)
  let ?h = "hex (sk_secret key)" and ?sc = "join_with (CHR ''|'') (map scope_as_str (sk_scopes key))"
  have ok: "key_id \<noteq> []" "CHR '':'' \<notin> set key_id" "CHR '';'' \<notin> set key_id"
    "\<not> is_ascii_whitespace (hd key_id)" "16 \<le> length (sk_secret key)" "sk_scopes key \<noteq> []"
    using assms(2) by (simp_all add: key_ok_def k)
  have "sk_secret key \<noteq> []" using ok(5) by auto
  then have h: "al_hex_decode lib ?h = Ok (sk_secret key)" "?h \<noteq> []" "CHR '':'' \<notin> set ?h" "CHR '';'' \<notin> set ?h"
    using assms(1) by (simp_all add: hex_codec_def)
  have r: "render_key hex (key_id, key) = key_id @ CHR '':'' # ?h @ CHR '':'' # ?sc" by (simp add: render_key_def)
  note sc = scopes_joined [OF ok(6)]
  show "parse_key_entry lib (render_key hex k) = Ok k"
    using ok h sc by (simp add: parse_key_entry_def r splitn_3 key_part_def k not_less comp_def)
  show "trim (render_key hex k) = render_key hex k"
    using ok sc(1,3) by (intro trim_id) (simp_all add: k r)
  show "CHR '';'' \<notin> set (render_key hex k)" using ok h sc(2) by (simp add: k r)
  show "render_key hex k \<noteq> []" by (simp add: k r)
qed

lemma parse_rendered_keys:
  assumes "hex_codec lib hex" and "\<forall>k \<in> set keys. key_ok k" and "distinct (map fst keys)"
    and "dom m \<inter> fst ` set keys = {}"
  shows "parse_key_entries lib (map (render_key hex) keys) m = Ok (m ++ map_of keys)"
  using assms(2-)
proof (induction keys arbitrary: m)
  case (Cons k keys)
  obtain key_id key where k: "k = (key_id, key)" by (cases k)
  have "dom (m(key_id \<mapsto> key)) \<inter> fst ` set keys = {}" using Cons.prems(2,3) by (simp add: k)
  with Cons.IH [of "m(key_id \<mapsto> key)"] have "parse_key_entries lib (map (render_key hex) keys) (m(key_id \<mapsto> key)) =
      Ok (m(key_id \<mapsto> key) ++ map_of keys)"
    using Cons.prems(1,2) by (simp del: fun_upd_apply)
  moreover have "key_id \<notin> fst ` set keys" using Cons.prems(2) by (simp add: k)
  then have "m(key_id \<mapsto> key) ++ map_of keys = m ++ (map_of keys)(key_id \<mapsto> key)"
    by (auto simp: fun_eq_iff map_add_def dom_map_of_conv_image_fst split: option.split
        dest!: map_of_SomeD intro: rev_image_eqI)
  ultimately show ?case using parse_rendered_key(1) [OF assms(1), of k] Cons.prems(1)
    by (simp add: k del: fun_upd_apply)
qed simp

lemma parse_key_entry_Ok:
  assumes "parse_key_entry lib entry = Ok (key_id, key)"
  shows "key_id \<noteq> []" "CHR '':'' \<notin> set key_id" "16 \<le> length (sk_secret key)" "sk_scopes key \<noteq> []"
proof -
  let ?parts = "splitn 3 (CHR '':'') entry"
  from assms have part: "0 < length ?parts" "key_id = ?parts ! 0" "key_id \<noteq> []"
    and secret: "16 \<le> length (sk_secret key)" and scopes: "sk_scopes key \<noteq> []"
    by (auto simp: parse_key_entry_def key_part_def res_simps Let_def split: if_splits)
  then show "key_id \<noteq> []" "16 \<le> length (sk_secret key)" "sk_scopes key \<noteq> []" by simp_all
  from part show "CHR '':'' \<notin> set key_id"
    using splitn_head [of 3 "CHR '':''" entry] by (cases ?parts) auto
qed

lemma parse_key_entries_Ok:
  assumes "parse_key_entries lib entries m = Ok keys" and "keys key_id = Some key"
  shows "m key_id = Some key \<or> key_id \<noteq> [] \<and> CHR '':'' \<notin> set key_id \<and> 16 \<le> length (sk_secret key) \<and>
    sk_scopes key \<noteq> []"
  using assms
proof (induction entries arbitrary: m)
  case (Cons e es)
  then obtain i k where e: "parse_key_entry lib e = Ok (i, k)" "parse_key_entries lib es (m(i \<mapsto> k)) = Ok keys"
    by (auto simp: res_simps)
  from Cons.IH [OF e(2) Cons.prems(2)] parse_key_entry_Ok [OF e(1)] show ?case
    by (auto split: if_splits)
qed simp

subsection \<open>A library for concrete runs\<close>

definition demo_hex :: "bytes \<Rightarrow> string" where
  "demo_hex b = concat (map (\<lambda>x. [char_of (97 + unat x div 16), char_of (97 + unat x mod 16)]) b)"

fun demo_unhex :: "string \<Rightarrow> string + bytes" where
  "demo_unhex [] = Ok []"
| "demo_unhex [c] = Err ''odd length''"
| "demo_unhex (c # d # cs) =
     bind_res (demo_unhex cs) (\<lambda>b. Ok (of_nat (16 * (of_char c - 97) + (of_char d - 97)) # b))"

definition demo_lib :: auth_lib where
  "demo_lib = \<lparr>al_to_str = Some, al_hex_decode = demo_unhex, al_sha256_hex = (\<lambda>b. ''digest''),
     al_mac_new = (\<lambda>_. True), al_mac_verify = (\<lambda>secret text sig. sig = take 2 secret)\<rparr>"

lemma demo_hex_codec: "hex_codec demo_lib demo_hex"
proof -
  have byte: "unat x < 256" for x :: u8 using unat_lt2p [of x] by simp
  have nib: "of_char (char_of (97 + unat x div 16) :: char) = 97 + unat x div 16"
    "of_char (char_of (97 + unat x mod 16) :: char) = 97 + unat x mod 16" for x :: u8
    using byte [of x] by (simp_all add: of_char_of)
  have "of_nat (16 * (97 + unat x div 16 - 97) + (97 + unat x mod 16 - 97)) = x" for x :: u8
    by (simp only: diff_add_inverse mult_div_mod_eq) simp
  then have "demo_unhex (demo_hex b) = Ok b" for b
    by (induction b) (simp_all only: demo_hex_def nib list.map concat.simps append.simps demo_unhex.simps bind_res_simps)
  moreover have "97 \<le> (of_char c :: nat)" if "c \<in> set (demo_hex b)" for c b
  proof -
    from that obtain x where "c = char_of (97 + unat x div 16) \<or> c = char_of (97 + unat (x :: u8) mod 16)"
      by (auto simp: demo_hex_def)
    then show ?thesis using nib [of x] by (metis le_add1)
  qed
  then have "CHR '':'' \<notin> set (demo_hex b) \<and> CHR '';'' \<notin> set (demo_hex b)" for b
    by force
  moreover have "b \<noteq> [] \<Longrightarrow> demo_hex b \<noteq> []" for b by (cases b) (simp_all add: demo_hex_def)
  ultimately show ?thesis by (simp add: hex_codec_def demo_lib_def)
qed

definition demo_auth :: auth_config where
  "demo_auth = \<lparr>ac_keys = [''backend'' \<mapsto> \<lparr>sk_secret = replicate 16 97, sk_scopes = [Read, TxSubmit]\<rparr>],
     ac_network = Testnet, ac_clock_skew = from_secs 60, ac_replay_window = from_secs 300\<rparr>"

definition demo_request :: request where
  "demo_request = \<lparr>rq_method = ''GET'', rq_path = ''/api/v1/rates'', rq_query = None,
     rq_headers = [(''x-nodus-key-id'', ''backend''), (''x-nodus-timestamp'', ''1000''),
       (''x-nodus-nonce'', ''nonce-0001''), (''x-nodus-scope'', ''read''), (''x-nodus-network'', ''testnet''),
       (''x-nodus-signature'', ''gbgb'')],
     rq_body = Some []\<rparr>"

lemma demo_verified: "verify_request demo_lib demo_auth Read demo_request 1000 = Ok (''backend'', ''backend:nonce-0001'')"
proof -
  have "parse_i64 ''1000'' = Some 1000"
    by (simp add: parse_i64_def parse_digits_def is_digit_def nat_of_dec_def)
  then show ?thesis
    by (simp add: verify_request_def verify_signature_def demo_request_def demo_auth_def demo_lib_def require_header_def header_str_def
        from_secs_def wrapping_abs_def MAX_BODY_BYTES_def Let_def numeral_2_eq_2)
qed

lemma demo_admitted:
  "require_scope demo_lib memory_check_and_set demo_auth Read demo_request 1000 0 nonce_memory_new =
     (Ok \<lparr>si_key_id = ''backend''\<rparr>, nonce_memory_new(''backend:nonce-0001'' \<mapsto> 0))"
  by (simp add: require_scope_def spend_nonce_def demo_verified memory_check_and_set_def nonce_memory_new_def)

subsection \<open>Properties\<close>

text \<open>
  C8. An admitted request names a registered key that holds the scope of the route, is signed
  for exactly this scope and the network of the deployment, carries a valid signature over its
  method, path, body digest, timestamp, nonce, scope and network, and spends a nonce that the
  store did not know.\<close>

theorem accepted_request_is_authorised:
  assumes "require_scope lib check_and_set auth scope req clock now s = (Ok i, s')"
  shows "\<exists>key timestamp nonce signature sig body.
    ac_keys auth (si_key_id i) = Some key \<and> scope \<in> set (sk_scopes key) \<and>
    header_str lib (rq_headers req) ''x-nodus-key-id'' = Some (si_key_id i) \<and>
    header_str lib (rq_headers req) ''x-nodus-timestamp'' = Some timestamp \<and>
    header_str lib (rq_headers req) ''x-nodus-nonce'' = Some nonce \<and>
    header_str lib (rq_headers req) ''x-nodus-scope'' = Some (scope_as_str scope) \<and>
    header_str lib (rq_headers req) ''x-nodus-network'' = Some (network_name (ac_network auth)) \<and>
    header_str lib (rq_headers req) ''x-nodus-signature'' = Some signature \<and>
    al_hex_decode lib signature = Ok sig \<and> rq_body req = Some body \<and> length body \<le> MAX_BODY_BYTES \<and>
    al_mac_verify lib (sk_secret key) (canonical_string (rq_method req) (rq_path req)
      (al_sha256_hex lib body) timestamp nonce (scope_as_str scope) (network_name (ac_network auth))) sig \<and>
    check_and_set s now (si_key_id i @ '':'' @ nonce) (ac_replay_window auth) = (Ok False, s')"
proof -
  from assms obtain k where k: "verify_request lib auth scope req clock = Ok (si_key_id i, k)"
    "check_and_set s now k (ac_replay_window auth) = (Ok False, s')"
    by (auto simp: require_scope_Ok)
  from k(1) show ?thesis by (rule verify_request_Ok) (use k(2) in blast)
qed

theorem accepted_request_is_authorised_witness:
  "\<exists>key. ac_keys demo_auth ''backend'' = Some key \<and> Read \<in> set (sk_scopes key)"
  using accepted_request_is_authorised [OF demo_admitted] by auto

text \<open>
  A signature covers one request: whoever presents a text that was signed, presents the
  same method, path, body digest, timestamp, nonce, scope and network, since the fields cannot
  run into each other.\<close>

lemma signed_text_binds_request:
  assumes "\<forall>x \<in> set [m, p, d, t, n, scope_as_str sc, network_name nw]. CHR 0x0A \<notin> set x"
    and "\<forall>x \<in> set [m', p', d', t', n', scope_as_str sc', network_name nw']. CHR 0x0A \<notin> set x"
    and "canonical_string m p d t n (scope_as_str sc) (network_name nw) =
         canonical_string m' p' d' t' n' (scope_as_str sc') (network_name nw')"
  shows "m = m' \<and> p = p' \<and> d = d' \<and> t = t' \<and> n = n' \<and> sc = sc' \<and> nw = nw'"
  using canonical_string_inject [OF assms] by (simp add: scope_as_str_inject)




text \<open>
  C30. Every key of a registry that was read has a name without the separator of rate-limit and
  replay keys, a secret of at least sixteen bytes and at least one scope.\<close>

theorem service_keys_wellformed:
  assumes "parse_service_keys lib raw = Ok keys" and "keys key_id = Some key"
  shows "key_id \<noteq> [] \<and> CHR '':'' \<notin> set key_id \<and> 16 \<le> length (sk_secret key) \<and> sk_scopes key \<noteq> []"
  using assms parse_key_entries_Ok by (fastforce simp: parse_service_keys_def)


theorem service_keys_wellformed_witness:
  "16 \<le> length (sk_secret \<lparr>sk_secret = replicate 16 (1 :: u8), sk_scopes = [Read]\<rparr>)"
proof -
  let ?key = "\<lparr>sk_secret = replicate 16 (1 :: u8), sk_scopes = [Read]\<rparr>"
  have "parse_service_keys demo_lib (render_service_keys demo_hex [(''k'', ?key)]) = Ok [''k'' \<mapsto> ?key]"
    using parse_rendered_key [OF demo_hex_codec, of "(''k'', ?key)"]
    by (simp add: key_ok_def is_ascii_whitespace_def parse_service_keys_def render_service_keys_def split_on_single)
  from service_keys_wellformed [OF this, of "''k''" ?key] show ?thesis by simp
qed

subsection \<open>What the checks do not establish\<close>

text \<open>The query string is not signed: changing it changes nothing about the admission.\<close>

lemma query_string_unsigned:
  "require_scope lib check auth scope (req\<lparr>rq_query := q\<rparr>) clock now s =
   require_scope lib check auth scope req clock now s"
  by (cases req) (simp only: require_scope_def verify_request_def require_header_def request.simps)

text \<open>
  A replay window that does not exceed twice the skew forgets a nonce whose timestamp is still
  accepted: with a minute for both, the very same request is admitted again after a minute. The
  configuration does not refuse such a window.
\<close>

lemma short_window_replays:
  fixes auth :: auth_config
  defines "auth \<equiv> demo_auth\<lparr>ac_replay_window := from_secs 60\<rparr>"
  shows "\<exists>s1 s2. require_scope demo_lib memory_check_and_set auth Read demo_request 1000 0 nonce_memory_new =
       (Ok \<lparr>si_key_id = ''backend''\<rparr>, s1) \<and>
     require_scope demo_lib memory_check_and_set auth Read demo_request 1060 60000 s1 =
       (Ok \<lparr>si_key_id = ''backend''\<rparr>, s2)"
proof -
  have "parse_i64 ''1000'' = Some 1000"
    by (simp add: parse_i64_def parse_digits_def is_digit_def nat_of_dec_def)
  then have "verify_request demo_lib auth Read demo_request clock = Ok (''backend'', ''backend:nonce-0001'')"
    if "clock = 1000 \<or> clock = 1060" for clock
    using that by (auto simp: auth_def verify_request_def verify_signature_def demo_request_def demo_auth_def demo_lib_def
        require_header_def header_str_def from_secs_def wrapping_abs_def MAX_BODY_BYTES_def Let_def numeral_2_eq_2)
  then show ?thesis
    by (simp add: require_scope_def spend_nonce_def memory_check_and_set_def nonce_memory_new_def auth_def
        from_secs_def elapsed_def)
qed

text \<open>A timestamp \<open>2 ^ 63\<close> seconds in the past passes the clock check.\<close>

lemma clock_check_wraps: "clock_ok 60 1700000000 (of_int (1700000000 - 2 ^ 63))"
proof -
  have "sint (word_of_int (1700000000 - 2 ^ 63) :: i64) = 1700000000 - 2 ^ 63"
    by (simp add: signed_of_int signed_take_bit_int_eq_self)
  then have "int 1700000000 - sint (word_of_int (1700000000 - 2 ^ 63) :: i64) = 2 ^ 63" by simp
  then have "clock_ok 60 (of_nat 1700000000) (word_of_int (1700000000 - 2 ^ 63))"
    by (subst clock_ok_iff) simp_all
  then show ?thesis by simp
qed

end
