(* ===== verification/Validation.thy ===== *)
theory Validation
  imports Utils
begin

text \<open>
  Input validation, \<^verbatim>\<open>src/validation.rs\<close>: addresses, amounts, networks, symbols, the
  coherence rules of asset identities, and membership of an asset in a pool. The lemmas
  characterise the accepted inputs and show what the canonical routing key of a validated asset
  identifies.
\<close>

subsection \<open>Validators\<close>

definition quoted :: "string \<Rightarrow> string" where
  "quoted s = CHR 0x27 # s @ [CHR 0x27]"

definition starts_with :: "string \<Rightarrow> char \<Rightarrow> bool" where
  "starts_with s c = (s \<noteq> [] \<and> hd s = c)"

definition stellar_address :: "string \<Rightarrow> engine_error + unit" where
  "stellar_address addr =
     (if length addr = 56 \<and> starts_with addr (CHR ''G'') \<and> list_all is_ascii_alphanumeric addr then Ok ()
      else Err (InvalidRequest (''invalid Stellar address '' @ quoted addr
             @ '': must be 56 alphanumeric chars starting with G'')))"

definition contract_address :: "string \<Rightarrow> engine_error + unit" where
  "contract_address addr =
     (if length addr = 56 \<and> starts_with addr (CHR ''C'') \<and> list_all is_ascii_alphanumeric addr then Ok ()
      else Err (InvalidRequest (''invalid contract address '' @ quoted addr
             @ '': must be 56 alphanumeric chars starting with C'')))"

definition valid_amount :: "u64 \<Rightarrow> engine_error + unit" where
  "valid_amount a = (if a = 0 then Err (InvalidRequest ''amount must be greater than 0'') else Ok ())"

definition valid_network :: "string \<Rightarrow> engine_error + unit" where
  "valid_network net =
     (if net = ''mainnet'' \<or> net = ''testnet'' then Ok ()
      else Err (InvalidRequest (''network must be '' @ quoted ''mainnet'' @ '' or '' @ quoted ''testnet''
             @ '', got '' @ quoted net)))"

definition valid_symbol :: "string \<Rightarrow> engine_error + unit" where
  "valid_symbol symb =
     (if symb = [] \<or> 12 < length symb \<or> \<not> list_all is_ascii_alphanumeric symb then
        Err (InvalidRequest (''invalid token symbol '' @ quoted symb
             @ '': must be 1-12 ASCII alphanumeric chars''))
      else Ok ())"

text \<open>The deprecated validator of a bare symbol.\<close>

definition valid_token :: "string \<Rightarrow> engine_error + unit" where
  "valid_token t = valid_symbol t"

text \<open>An optional wrapper contract must be a contract address; the error names the kind of asset.\<close>

definition check_contract :: "string \<Rightarrow> string \<Rightarrow> string \<Rightarrow> engine_error + unit" where
  "check_contract kind symb c =
     map_err (contract_address c) (\<lambda>_.
       InvalidRequest (kind @ '' '' @ quoted symb @ '': invalid contract address '' @ quoted c))"

definition valid_asset_id :: "asset_id \<Rightarrow> engine_error + unit" where
  "valid_asset_id a =
     bind_res (valid_network (ast_network a)) (\<lambda>_.
     bind_res (valid_symbol (ast_symbol a)) (\<lambda>_.
     if 19 < ast_decimals a then
       Err (InvalidRequest (''asset '' @ quoted (ast_symbol a) @ '': decimals ''
              @ dec_of_nat (unat (ast_decimals a)) @ '' exceeds maximum of 19''))
     else
       (case ast_type a of
          Native \<Rightarrow>
            if ast_issuer a \<noteq> None then
              Err (InvalidRequest (''native asset '' @ quoted (ast_symbol a) @ '' must not carry an issuer''))
            else (case ast_contract a of
                    None \<Rightarrow> Ok ()
                  | Some c \<Rightarrow> check_contract ''native asset'' (ast_symbol a) c)
        | IssuedAsset \<Rightarrow>
            (case ast_issuer a of
               None \<Rightarrow> Err (InvalidRequest (''issued asset '' @ quoted (ast_symbol a)
                         @ '' requires an issuer address''))
             | Some iss \<Rightarrow>
                 bind_res (map_err (stellar_address iss) (\<lambda>_.
                    InvalidRequest (''issued asset '' @ quoted (ast_symbol a)
                      @ '': invalid issuer address '' @ quoted iss))) (\<lambda>_.
                 case ast_contract a of
                   None \<Rightarrow> Ok ()
                 | Some c \<Rightarrow> check_contract ''issued asset'' (ast_symbol a) c))
        | ContractToken \<Rightarrow>
            (case ast_contract a of
               None \<Rightarrow> Err (InvalidRequest (''contract token '' @ quoted (ast_symbol a)
                         @ '' requires a contract address''))
             | Some c \<Rightarrow>
                 bind_res (check_contract ''contract token'' (ast_symbol a) c) (\<lambda>_.
                 if ast_issuer a \<noteq> None then
                   Err (InvalidRequest (''contract token '' @ quoted (ast_symbol a)
                     @ '' must not carry an issuer (use asset_type '' @ quoted ''issued_asset''
                     @ '' with a contract field for SAC-wrapped tokens)''))
                 else Ok ())))))"

definition asset_network :: "asset_id \<Rightarrow> string \<Rightarrow> engine_error + unit" where
  "asset_network a engine_network =
     (if ast_network a \<noteq> engine_network then
        Err (InvalidRequest (''asset '' @ quoted (ast_symbol a) @ '' belongs to network ''
          @ quoted (ast_network a) @ '' but this engine is configured for '' @ quoted engine_network))
      else Ok ())"

definition token_in_pool :: "asset_id \<Rightarrow> string list \<Rightarrow> engine_error + string" where
  "token_in_pool a pool_tokens =
     (let key = canonical_key a in
      ok_or (find (\<lambda>t. t = key) pool_tokens)
        (InvalidRequest (''asset '' @ quoted (ast_symbol a) @ '' (key: '' @ quoted key
           @ '') is not in this pool'')))"

subsection \<open>Lemmas: accepted inputs\<close>

definition is_g_address :: "string \<Rightarrow> bool" where
  "is_g_address s \<longleftrightarrow> length s = 56 \<and> starts_with s (CHR ''G'') \<and> list_all is_ascii_alphanumeric s"

definition is_c_address :: "string \<Rightarrow> bool" where
  "is_c_address s \<longleftrightarrow> length s = 56 \<and> starts_with s (CHR ''C'') \<and> list_all is_ascii_alphanumeric s"

lemma stellar_address_Ok [simp]: "stellar_address s = Ok () \<longleftrightarrow> is_g_address s"
  by (simp add: stellar_address_def is_g_address_def)

lemma contract_address_Ok [simp]: "contract_address s = Ok () \<longleftrightarrow> is_c_address s"
  by (simp add: contract_address_def is_c_address_def)

lemma check_contract_Ok [simp]: "check_contract kind symb c = Ok () \<longleftrightarrow> is_c_address c"
  by (simp add: check_contract_def res_simps)

lemma valid_symbol_Ok:
  "valid_symbol s = Ok () \<longleftrightarrow> s \<noteq> [] \<and> length s \<le> 12 \<and> list_all is_ascii_alphanumeric s"
  by (auto simp: valid_symbol_def)

lemma valid_network_Ok: "valid_network s = Ok () \<longleftrightarrow> s = ''mainnet'' \<or> s = ''testnet''"
  by (simp add: valid_network_def)

lemma valid_amount_Ok: "valid_amount a = Ok () \<longleftrightarrow> a \<noteq> 0"
  by (simp add: valid_amount_def)

text \<open>The coherence rules, as one characterisation of the accepted identities.\<close>

definition asset_coherent :: "asset_id \<Rightarrow> bool" where
  "asset_coherent a \<longleftrightarrow>
     (case ast_type a of
        Native \<Rightarrow> ast_issuer a = None
      | IssuedAsset \<Rightarrow> (\<exists>i. ast_issuer a = Some i \<and> is_g_address i)
      | ContractToken \<Rightarrow> ast_issuer a = None \<and> ast_contract a \<noteq> None) \<and>
     (\<forall>c. ast_contract a = Some c \<longrightarrow> is_c_address c)"

lemma valid_asset_id_Ok:
  "valid_asset_id a = Ok () \<longleftrightarrow>
     ast_network a \<in> {''mainnet'', ''testnet''} \<and> valid_symbol (ast_symbol a) = Ok () \<and>
     ast_decimals a \<le> 19 \<and> asset_coherent a"
  by (cases "ast_type a")
    (auto simp: valid_asset_id_def asset_coherent_def valid_network_Ok not_less res_simps
      split: option.splits if_splits)

lemma colon_not_alphanumeric: "list_all is_ascii_alphanumeric s \<Longrightarrow> CHR '':'' \<notin> set s"
  by (auto simp: list_all_iff is_ascii_alphanumeric_def)

lemma canonical_key_cases:
  assumes "asset_coherent a"
  shows "(\<exists>c. ast_contract a = Some c \<and> is_c_address c \<and> canonical_key a = c) \<or>
     (ast_contract a = None \<and> ast_type a = Native \<and> ast_issuer a = None \<and> canonical_key a = ''native'') \<or>
     (\<exists>i. ast_contract a = None \<and> ast_type a = IssuedAsset \<and> ast_issuer a = Some i \<and> is_g_address i
        \<and> canonical_key a = i @ '':'' @ ast_symbol a)"
  using assms by (auto simp: asset_coherent_def canonical_key_def split: asset_type.splits option.splits)

lemma address_lengths:
  "is_c_address s \<Longrightarrow> length s = 56" "is_g_address s \<Longrightarrow> length s = 56"
  by (simp_all add: is_c_address_def is_g_address_def)

lemma issued_key_not_native: "is_g_address i \<Longrightarrow> i @ CHR '':'' # s \<noteq> ''native''"
  by (auto dest!: address_lengths(2) arg_cong [of _ _ length])

lemma issued_key_split:
  "is_g_address i \<Longrightarrow> is_g_address j \<Longrightarrow> i @ CHR '':'' # s = j @ CHR '':'' # t \<longleftrightarrow> i = j \<and> s = t"
  by (auto simp: is_g_address_def append_eq_append_conv)

subsection \<open>Properties\<close>

text \<open>
  C39. Validation accepts exactly the coherent identities: a known network, a well-formed symbol,
  at most nineteen decimals, an issuer exactly for issued assets and then a G address, a contract
  for every contract token, and every contract a C address.\<close>

theorem asset_validation_exact:
  "valid_asset_id a = Ok () \<longleftrightarrow>
     (ast_network a = ''mainnet'' \<or> ast_network a = ''testnet'') \<and>
     (ast_symbol a \<noteq> [] \<and> length (ast_symbol a) \<le> 12 \<and> list_all is_ascii_alphanumeric (ast_symbol a)) \<and>
     ast_decimals a \<le> 19 \<and>
     (case ast_type a of
        Native \<Rightarrow> ast_issuer a = None
      | IssuedAsset \<Rightarrow> (\<exists>i. ast_issuer a = Some i \<and> stellar_address i = Ok ())
      | ContractToken \<Rightarrow> ast_issuer a = None \<and> ast_contract a \<noteq> None) \<and>
     (case ast_contract a of None \<Rightarrow> True | Some c \<Rightarrow> contract_address c = Ok ())"
  by (auto simp: valid_asset_id_Ok valid_symbol_Ok asset_coherent_def split: option.splits asset_type.splits)

text \<open>
  The canonical key of validated assets identifies what is routed: equal keys mean the same
  contract or, without a contract, the same type and issuer and, for issued assets, the same
  symbol. No native asset, issued asset or contract token can pass for one of another kind.\<close>

lemma canonical_key_identifies:
  assumes "valid_asset_id a = Ok ()" and "valid_asset_id b = Ok ()"
    and "canonical_key a = canonical_key b"
  shows "ast_contract a = ast_contract b \<and>
     (ast_contract a = None \<longrightarrow> ast_type a = ast_type b \<and> ast_issuer a = ast_issuer b \<and>
        (ast_type a = IssuedAsset \<longrightarrow> ast_symbol a = ast_symbol b))"
proof -
  have ok: "asset_coherent a" "asset_coherent b" using assms(1,2) by (simp_all add: valid_asset_id_Ok)
  have colon: "CHR '':'' \<notin> set s" if "is_c_address s" for s
    using that by (simp add: is_c_address_def colon_not_alphanumeric)
  show ?thesis
    using canonical_key_cases [OF ok(1)] canonical_key_cases [OF ok(2)] assms(3)
    by (auto dest: address_lengths colon simp: issued_key_split issued_key_not_native
        issued_key_not_native [symmetric])
qed

definition usdc_asset :: "string \<Rightarrow> asset_id" where
  "usdc_asset symb =
     \<lparr>ast_network = ''mainnet'', ast_type = IssuedAsset, ast_symbol = symb, ast_decimals = 7,
      ast_issuer = Some ''GA5ZSEJYB37JRC5AVCIA5MOP4RHTM335X2KGX3IHOJAPP5RE34K4KZVN'',
      ast_contract = None\<rparr>"

text \<open>
  The key leaves out the network: the native assets of the two networks are both valid and
  share one routing key, so that the network has to be checked separately.\<close>

lemma canonical_key_forgets_network:
  "valid_asset_id (native_asset ''mainnet'') = Ok () \<and> valid_asset_id (native_asset ''testnet'') = Ok () \<and>
   canonical_key (native_asset ''mainnet'') = canonical_key (native_asset ''testnet'')"
  by code_simp

end
