(* ===== verification/Fingerprint.thy ===== *)
theory Fingerprint
  imports Utils "HOL-Library.List_Lexorder" "HOL-Library.Char_ord"
begin

text \<open>
  The request fingerprint of \<^verbatim>\<open>src/idempotency.rs\<close>: a JSON body is written canonically, object
  keys in byte order, and the bytes are hashed. The text of a scalar (\<open>Value::to_string\<close>) and
  the hash are library functions and appear as parameters. The lemmas show that the canonical
  text does not depend on the order of object keys, and that it determines the body up to that
  order, so that two requests share a canonical text exactly when they are the same request.
\<close>

subsection \<open>Values and their canonical text\<close>

datatype json =
    JNull
  | JBool bool
  | JNumber string
  | JString string
  | JArray "json list"
  | JObject "(string \<times> json) list"

text \<open>
  The \<open>Debug\<close> rendering of a string: quotes around it, with the quote, the backslash and the
  control characters escaped. The bytes of characters outside ASCII are kept, as they are for all
  printable ones; that the library also escapes the few unprintable ones is not modelled.
\<close>

definition hex_digit :: "nat \<Rightarrow> char" where
  "hex_digit d = (if d < 10 then char_of (48 + d) else char_of (87 + d))"

definition debug_char :: "char \<Rightarrow> string" where
  "debug_char c =
     (let n = (of_char c :: nat) in
      if n = 34 then [CHR 0x5C, CHR 0x22]
      else if n = 92 then [CHR 0x5C, CHR 0x5C]
      else if n = 0 then [CHR 0x5C, CHR ''0'']
      else if n = 9 then [CHR 0x5C, CHR ''t'']
      else if n = 10 then [CHR 0x5C, CHR ''n'']
      else if n = 13 then [CHR 0x5C, CHR ''r'']
      else if n < 32 \<or> n = 127 then
        [CHR 0x5C, CHR ''u'', CHR ''{''] @
          (if n < 16 then [hex_digit n] else [hex_digit (n div 16), hex_digit (n mod 16)]) @ ''}''
      else [c])"

definition debug_str :: "string \<Rightarrow> string" where
  "debug_str s = [CHR 0x22] @ concat (map debug_char s) @ [CHR 0x22]"

text \<open>The items of an array or object, separated by commas.\<close>

fun comma_sep :: "string list \<Rightarrow> string" where
  "comma_sep [] = []"
| "comma_sep [x] = x"
| "comma_sep (x # y # xs) = x @ '','' @ comma_sep (y # xs)"

text \<open>An object is written key by key in sorted order, each value looked up by its key.\<close>

fun write_canonical :: "(json \<Rightarrow> string) \<Rightarrow> json \<Rightarrow> string" where
  "write_canonical scalar (JObject m) =
     (let texts = map (\<lambda>(k, v). (k, write_canonical scalar v)) m in
      ''{'' @ comma_sep (map (\<lambda>k. debug_str k @ '':'' @ the (map_of texts k)) (sort (map fst m))) @ ''}'')"
| "write_canonical scalar (JArray items) =
     ''['' @ comma_sep (map (write_canonical scalar) items) @ '']''"
| "write_canonical scalar other = scalar other"

definition request_fingerprint :: "(json \<Rightarrow> string) \<Rightarrow> (string \<Rightarrow> string) \<Rightarrow> json \<Rightarrow> string" where
  "request_fingerprint scalar sha256_hex body = sha256_hex (write_canonical scalar body)"

subsection \<open>Equality of requests up to the order of keys\<close>

text \<open>Keys of an object are distinct: an object is a map in the source.\<close>

fun json_wf :: "json \<Rightarrow> bool" where
  "json_wf (JObject m) \<longleftrightarrow> distinct (map fst m) \<and> (\<forall>v \<in> set (map snd m). json_wf v)"
| "json_wf (JArray items) \<longleftrightarrow> (\<forall>v \<in> set items. json_wf v)"
| "json_wf _ \<longleftrightarrow> True"

inductive same_json :: "json \<Rightarrow> json \<Rightarrow> bool" where
  same_scalar: "(\<forall>m. a \<noteq> JObject m) \<Longrightarrow> (\<forall>xs. a \<noteq> JArray xs) \<Longrightarrow> same_json a a"
| same_array: "list_all2 same_json xs ys \<Longrightarrow> same_json (JArray xs) (JArray ys)"
| same_object: "set (map fst m) = set (map fst m') \<Longrightarrow>
     (\<forall>k v v'. map_of m k = Some v \<longrightarrow> map_of m' k = Some v' \<longrightarrow> same_json v v') \<Longrightarrow>
     same_json (JObject m) (JObject m')"

lemma map_of_map_snd: "map_of (map (\<lambda>(k, v). (k, f v)) m) k = map_option f (map_of m k)"
  by (induction m) auto

lemma write_canonical_object:
  "write_canonical scalar (JObject m) =
     ''{'' @ comma_sep (map (\<lambda>k. debug_str k @ '':'' @ write_canonical scalar (the (map_of m k)))
        (sort (map fst m))) @ ''}''"
proof -
  have "the (map_of (map (\<lambda>(k, v). (k, write_canonical scalar v)) m) k) =
      write_canonical scalar (the (map_of m k))" if "k \<in> set (sort (map fst m))" for k
  proof -
    from that obtain v where "map_of m k = Some v"
      by (metis map_of_eq_None_iff not_None_eq set_map set_sort)
    then show ?thesis by (simp add: map_of_map_snd)
  qed
  then have "map (\<lambda>k. debug_str k @ '':'' @ the (map_of (map (\<lambda>(k, v). (k, write_canonical scalar v)) m) k))
        (sort (map fst m)) =
      map (\<lambda>k. debug_str k @ '':'' @ write_canonical scalar (the (map_of m k))) (sort (map fst m))"
    by simp
  then show ?thesis by (simp only: write_canonical.simps Let_def)
qed

lemma same_keys_sorted:
  assumes "distinct (map fst m)" and "distinct (map fst m')" and "set (map fst m) = set (map fst m')"
  shows "sort (map fst m) = sort (map fst m')"
  using assms by (simp add: sorted_distinct_set_unique)

lemma same_json_text:
  "same_json a b \<Longrightarrow> json_wf a \<Longrightarrow> json_wf b \<Longrightarrow> write_canonical scalar a = write_canonical scalar b"
proof (induction a b rule: same_json.induct)
  case (same_scalar a)
  then show ?case by simp
next
  case (same_array xs ys)
  have "map (write_canonical scalar) xs = map (write_canonical scalar) ys"
    using same_array.IH same_array.prems by (induction rule: list_all2_induct) auto
  then show ?case by simp
next
  case (same_object m m')
  have keys: "sort (map fst m) = sort (map fst m')"
    using same_object by (intro same_keys_sorted) auto
  have "write_canonical scalar (the (map_of m k)) = write_canonical scalar (the (map_of m' k))"
    if "k \<in> set (sort (map fst m))" for k
  proof -
    from that same_object.hyps obtain v v' where "map_of m k = Some v" "map_of m' k = Some v'"
      by (metis map_of_eq_None_iff not_None_eq set_map set_sort)
    moreover from this have "json_wf v" "json_wf v'"
      using same_object.prems by (force dest: map_of_SomeD)+
    ultimately show ?thesis using same_object.IH by auto
  qed
  then show ?case by (simp only: write_canonical_object keys [symmetric] cong: map_cong)
qed

subsection \<open>The canonical text determines the request\<close>

text \<open>What may follow a value inside a canonical text.\<close>

definition value_ends :: "string \<Rightarrow> bool" where
  "value_ends x \<longleftrightarrow> x = [] \<or> hd x \<in> {CHR '','', CHR '']'', CHR ''}''}"

definition is_scalar :: "json \<Rightarrow> bool" where
  "is_scalar v \<longleftrightarrow> (case v of JArray _ \<Rightarrow> False | JObject _ \<Rightarrow> False | _ \<Rightarrow> True)"

text \<open>
  What is used of JSON's scalar tokens: a token is not empty, does not start like an array or an
  object or like the end of a value, and can be told from what follows it.
\<close>

definition scalar_tokens :: "(json \<Rightarrow> string) \<Rightarrow> bool" where
  "scalar_tokens scalar \<longleftrightarrow>
     (\<forall>v. is_scalar v \<longrightarrow> scalar v \<noteq> [] \<and>
        hd (scalar v) \<notin> {CHR ''{'', CHR ''['', CHR '','', CHR '']'', CHR ''}''}) \<and>
     (\<forall>v w x y. is_scalar v \<longrightarrow> is_scalar w \<longrightarrow> value_ends x \<longrightarrow> value_ends y \<longrightarrow>
        scalar v @ x = scalar w @ y \<longrightarrow> v = w \<and> x = y)"

lemma hex_digit_inj: "d < 16 \<Longrightarrow> e < 16 \<Longrightarrow> hex_digit d = hex_digit e \<Longrightarrow> d = e"
proof -
  have "\<forall>d \<in> set [0..<16]. \<forall>e \<in> set [0..<16]. hex_digit d = hex_digit e \<longrightarrow> d = e" by code_simp
  then show "d < 16 \<Longrightarrow> e < 16 \<Longrightarrow> hex_digit d = hex_digit e \<Longrightarrow> d = e"
    unfolding set_upt by (meson atLeastLessThan_iff le0)
qed

lemma hex_digit_brace: "d < 16 \<Longrightarrow> hex_digit d \<noteq> CHR 0x7D"
proof -
  have "\<forall>d \<in> set [0..<16]. hex_digit d \<noteq> CHR 0x7D" by code_simp
  then show "d < 16 \<Longrightarrow> hex_digit d \<noteq> CHR 0x7D"
    unfolding set_upt by (meson atLeastLessThan_iff le0)
qed

text \<open>The part of an escape after its backslash.\<close>

definition escape_of :: "nat \<Rightarrow> string option" where
  "escape_of n =
     (if n = 34 then Some [CHR 0x22] else if n = 92 then Some [CHR 0x5C]
      else if n = 0 then Some ''0'' else if n = 9 then Some ''t'' else if n = 10 then Some ''n''
      else if n = 13 then Some ''r''
      else if n < 32 \<or> n = 127 then
        Some (''u{'' @ (if n < 16 then [hex_digit n] else [hex_digit (n div 16), hex_digit (n mod 16)]) @ ''}'')
      else None)"

lemma debug_char_escape:
  "debug_char c = (case escape_of (of_char c) of None \<Rightarrow> [c] | Some e \<Rightarrow> CHR 0x5C # e)"
  by (simp add: debug_char_def escape_of_def Let_def)

lemma escape_of_prefix_free:
  assumes "escape_of n = Some e" and "escape_of m = Some f" and "e @ x = f @ y"
  shows "n = m \<and> x = y"
proof (cases "n \<in> {34, 92, 0, 9, 10, 13} \<or> m \<in> {34, 92, 0, 9, 10, 13}")
  case True
  with assms show ?thesis by (auto simp: escape_of_def split: if_splits)
next
  case False
  have digits: "n div 16 < 16" "n mod 16 < 16" "m div 16 < 16" "m mod 16 < 16"
    using assms by (auto simp: escape_of_def split: if_splits)
  have split: "n = 16 * (n div 16) + n mod 16" "m = 16 * (m div 16) + m mod 16" by simp_all
  let ?digits = "\<lambda>n. if n < 16 then [hex_digit n] else [hex_digit (n div 16), hex_digit (n mod 16)]"
  have "e = ''u{'' @ ?digits n @ ''}''"
    using False assms(1) by (simp only: escape_of_def if_False simp_thms insert_iff empty_iff split: if_split_asm) simp_all
  moreover have "f = ''u{'' @ ?digits m @ ''}''"
    using False assms(2) by (simp only: escape_of_def if_False simp_thms insert_iff empty_iff split: if_split_asm) simp_all
  ultimately have tail: "?digits n @ CHR 0x7D # x = ?digits m @ CHR 0x7D # y" using assms(3) by simp
  show ?thesis
  proof (cases "n < 16")
    case n: True
    show ?thesis
    proof (cases "m < 16")
      case True
      with n tail have "hex_digit n = hex_digit m" "x = y" by simp_all
      with n True hex_digit_inj show ?thesis by blast
    next
      case False
      with n tail have "hex_digit (m mod 16) = CHR 0x7D" by simp
      with hex_digit_brace [OF digits(4)] show ?thesis by blast
    qed
  next
    case n: False
    show ?thesis
    proof (cases "m < 16")
      case True
      with n tail have "hex_digit (n mod 16) = CHR 0x7D" by simp
      with hex_digit_brace [OF digits(2)] show ?thesis by blast
    next
      case False
      with n tail have "hex_digit (n div 16) = hex_digit (m div 16)"
        "hex_digit (n mod 16) = hex_digit (m mod 16)" "x = y" by simp_all
      with hex_digit_inj digits have "n div 16 = m div 16" "n mod 16 = m mod 16" "x = y" by blast+
      with split show ?thesis by metis
    qed
  qed
qed

lemma debug_char_prefix_free:
  assumes "debug_char c @ x = debug_char d @ y"
  shows "c = d \<and> x = y"
proof -
  have plain: "b \<noteq> CHR 0x5C" if "escape_of (of_char b) = None" for b
    using that by (auto simp: escape_of_def)
  show ?thesis
  proof (cases "escape_of (of_char c)")
    case None
    with assms plain [of c] plain [of d] show ?thesis
      by (auto simp: debug_char_escape split: option.splits)
  next
    case c: (Some e)
    show ?thesis
    proof (cases "escape_of (of_char d)")
      case None
      with c assms plain [of d] show ?thesis by (auto simp: debug_char_escape)
    next
      case (Some f)
      with c assms escape_of_prefix_free [OF c Some] show ?thesis by (simp add: debug_char_escape)
    qed
  qed
qed

lemma debug_char_quote: "debug_char c @ x \<noteq> CHR 0x22 # y"
  by (auto simp: debug_char_escape escape_of_def split: option.splits)

lemma debug_char_nonempty [simp]: "debug_char c \<noteq> []"
  by (simp add: debug_char_escape split: option.split)

lemma debug_str_unique:
  assumes "debug_str s @ x = debug_str t @ y"
  shows "s = t \<and> x = y"
proof -
  have "concat (map debug_char s) @ CHR 0x22 # x = concat (map debug_char t) @ CHR 0x22 # y \<Longrightarrow> s = t \<and> x = y"
  proof (induction s arbitrary: t)
    case Nil
    show ?case
    proof (cases t)
      case (Cons d t')
      with Nil have "debug_char d @ concat (map debug_char t') @ CHR 0x22 # y = CHR 0x22 # x" by simp
      then show ?thesis using debug_char_quote by blast
    qed (use Nil in simp)
  next
    case (Cons c s)
    show ?case
    proof (cases t)
      case Nil
      with Cons.prems have "debug_char c @ concat (map debug_char s) @ CHR 0x22 # x = CHR 0x22 # y" by simp
      then show ?thesis using debug_char_quote by blast
    next
      case (Cons d t')
      with Cons.prems debug_char_prefix_free [of c _ d] Cons.IH [of t'] show ?thesis by auto
    qed
  qed
  with assms show ?thesis by (simp add: debug_str_def)
qed

text \<open>Two comma-separated lists with the same text have the same items.\<close>

lemma comma_sep_Cons: "comma_sep (x # xs) = x @ (if xs = [] then [] else CHR '','' # comma_sep xs)"
  by (cases xs) auto

lemma comma_sep_unique:
  assumes "comma_sep (map f es) @ c # x = comma_sep (map f es') @ c # y"
    and "c \<in> {CHR '']'', CHR ''}''}"
    and unique: "\<And>e e' x y. e \<in> set es \<Longrightarrow> e' \<in> set es' \<Longrightarrow> value_ends x \<Longrightarrow> value_ends y \<Longrightarrow>
       f e @ x = f e' @ y \<Longrightarrow> R e e' \<and> x = y"
    and start: "\<And>e. e \<in> set es \<union> set es' \<Longrightarrow> f e \<noteq> [] \<and> hd (f e) \<noteq> c"
  shows "list_all2 R es es' \<and> x = y"
  using assms
proof (induction es arbitrary: es')
  case Nil
  show ?case
  proof (cases es')
    case (Cons e' es'')
    define rest where "rest = (if map f es'' = [] then [] else CHR '','' # comma_sep (map f es'')) @ c # y"
    have "f e' @ rest = c # x" using Nil.prems(1) Cons by (simp add: comma_sep_Cons rest_def)
    then have "hd (f e' @ rest) = c" by simp
    with Nil.prems(4) [of e'] Cons show ?thesis by (simp add: hd_append)
  qed (use Nil in simp)
next
  case (Cons e es)
  show ?case
  proof (cases es')
    case Nil
    define rest where "rest = (if map f es = [] then [] else CHR '','' # comma_sep (map f es)) @ c # x"
    have "f e @ rest = c # y" using Cons.prems(1) Nil by (simp add: comma_sep_Cons rest_def)
    then have "hd (f e @ rest) = c" by simp
    with Cons.prems(4) [of e] show ?thesis by (simp add: hd_append)
  next
    case es': (Cons e' es'')
    let ?rest = "\<lambda>l z. (if l = [] then [] else CHR '','' # comma_sep (map f l)) @ c # z"
    have "f e @ ?rest es x = f e' @ ?rest es'' y" using Cons.prems(1) es' by (simp add: comma_sep_Cons)
    moreover have "value_ends (?rest l z)" for l z using Cons.prems(2) by (auto simp: value_ends_def)
    ultimately have both: "R e e'" "?rest es x = ?rest es'' y"
      using Cons.prems(3) [of e e' "?rest es x" "?rest es'' y"] es' by simp_all
    show ?thesis
    proof (cases "es = [] \<or> es'' = []")
      case True
      with both Cons.prems(2) es' show ?thesis by (auto split: if_splits)
    next
      case False
      with both have "comma_sep (map f es) @ c # x = comma_sep (map f es'') @ c # y" by simp
      from Cons.IH [OF this Cons.prems(2)] Cons.prems(3,4) both(1) es' show ?thesis by auto
    qed
  qed
qed

lemma write_canonical_start:
  assumes "scalar_tokens scalar"
  shows "write_canonical scalar a \<noteq> [] \<and> hd (write_canonical scalar a) \<notin> {CHR '','', CHR '']'', CHR ''}''}
     \<and> (hd (write_canonical scalar a) = CHR ''{'' \<longleftrightarrow> (\<exists>m. a = JObject m))
     \<and> (hd (write_canonical scalar a) = CHR ''['' \<longleftrightarrow> (\<exists>xs. a = JArray xs))"
proof (cases "is_scalar a")
  case True
  then have "write_canonical scalar a = scalar a" "\<forall>m. a \<noteq> JObject m" "\<forall>xs. a \<noteq> JArray xs"
    by (cases a; simp add: is_scalar_def)+
  with True assms show ?thesis by (auto simp: scalar_tokens_def)
next
  case False
  then show ?thesis by (cases a) (auto simp: is_scalar_def Let_def)
qed

definition object_items :: "(string \<times> json) list \<Rightarrow> (string \<times> json) list" where
  "object_items m = map (\<lambda>k. (k, the (map_of m k))) (sort (map fst m))"

definition item_text :: "(json \<Rightarrow> string) \<Rightarrow> string \<times> json \<Rightarrow> string" where
  "item_text scalar = (\<lambda>(k, v). debug_str k @ '':'' @ write_canonical scalar v)"

lemma write_canonical_items:
  "write_canonical scalar (JObject m) = ''{'' @ comma_sep (map (item_text scalar) (object_items m)) @ ''}''"
  by (simp add: write_canonical_object object_items_def item_text_def comp_def del: write_canonical.simps)

lemma object_items_same:
  assumes "distinct (map fst m)" and "distinct (map fst m')"
    and "list_all2 (\<lambda>(k, v) (k', v'). k = k' \<and> same_json v v') (object_items m) (object_items m')"
  shows "same_json (JObject m) (JObject m')"
proof (rule same_object)
  have keys: "sort (map fst m) = sort (map fst m')"
    using assms(3) by (auto simp: object_items_def list_all2_conv_all_nth intro!: nth_equalityI)
  then show "set (map fst m) = set (map fst m')" by (metis set_sort)
  show "\<forall>k v v'. map_of m k = Some v \<longrightarrow> map_of m' k = Some v' \<longrightarrow> same_json v v'"
  proof (intro allI impI)
    fix k v v' assume v: "map_of m k = Some v" "map_of m' k = Some v'"
    then have "k \<in> set (sort (map fst m))" by (force dest: map_of_SomeD)
    then obtain i where "i < length (sort (map fst m))" "sort (map fst m) ! i = k" by (metis in_set_conv_nth)
    with assms(3) v keys show "same_json v v'"
      by (auto simp: object_items_def list_all2_conv_all_nth)
  qed
qed

lemma object_items_wf: "json_wf (JObject m) \<Longrightarrow> (k, v) \<in> set (object_items m) \<Longrightarrow> (k, v) \<in> set m \<and> json_wf v"
  by (auto simp: object_items_def)

lemma scalar_unique:
  assumes tok: "scalar_tokens scalar" and a: "is_scalar a"
    and ends_xy: "value_ends x" "value_ends y"
    and eq: "write_canonical scalar a @ x = write_canonical scalar b @ y"
  shows "same_json a b \<and> x = y"
proof -
  have a': "\<forall>m. a \<noteq> JObject m" "\<forall>xs. a \<noteq> JArray xs" using a by (auto simp: is_scalar_def)
  have "hd (write_canonical scalar a) = hd (write_canonical scalar b)"
    using arg_cong [OF eq, of hd] write_canonical_start [OF tok, of a] write_canonical_start [OF tok, of b]
    by (simp add: hd_append)
  with write_canonical_start [OF tok, of a] write_canonical_start [OF tok, of b] a'
  have "is_scalar b" by (cases b) (auto simp: is_scalar_def)
  moreover have "is_scalar v \<Longrightarrow> write_canonical scalar v = scalar v" for v
    by (cases v) (auto simp: is_scalar_def)
  ultimately have "a = b \<and> x = y" using tok a ends_xy eq by (auto simp: scalar_tokens_def)
  with a' show ?thesis by (simp add: same_scalar)
qed

lemma write_canonical_unique:
  assumes tok: "scalar_tokens scalar"
  shows "json_wf a \<Longrightarrow> json_wf b \<Longrightarrow> value_ends x \<Longrightarrow> value_ends y \<Longrightarrow>
     write_canonical scalar a @ x = write_canonical scalar b @ y \<Longrightarrow> same_json a b \<and> x = y"
proof (induction a arbitrary: b x y rule: json_wf.induct)
  case (1 m)
  have "hd (write_canonical scalar b @ y) = CHR ''{''" using 1(6) [symmetric] by (simp add: Let_def)
  with write_canonical_start [OF tok, of b] obtain m' where b: "b = JObject m'" by (auto simp: hd_append)
  have eq: "comma_sep (map (item_text scalar) (object_items m)) @ CHR ''}'' # x =
      comma_sep (map (item_text scalar) (object_items m')) @ CHR ''}'' # y"
    using 1(6) by (simp add: b write_canonical_items del: write_canonical.simps)
  have "list_all2 (\<lambda>(k, v) (k', v'). k = k' \<and> same_json v v') (object_items m) (object_items m') \<and> x = y"
  proof (rule comma_sep_unique [OF eq])
    fix e e' x y
    assume e: "e \<in> set (object_items m)" "e' \<in> set (object_items m')" "value_ends x" "value_ends y"
      "item_text scalar e @ x = item_text scalar e' @ y"
    obtain k v k' v' where kv: "e = (k, v)" "e' = (k', v')" by (cases e, cases e') auto
    have "k = k' \<and> CHR '':'' # write_canonical scalar v @ x = CHR '':'' # write_canonical scalar v' @ y"
      using e(5) by (intro debug_str_unique) (simp add: kv item_text_def)
    moreover have "v \<in> set (map snd m)" "json_wf v" "json_wf v'"
      using e(1,2) object_items_wf [OF 1(2)] object_items_wf [OF 1(3) [unfolded b]] kv by force+
    ultimately show "(case e of (k, v) \<Rightarrow> \<lambda>(k', v'). k = k' \<and> same_json v v') e' \<and> x = y"
      using 1(1) [of v v' x y] e(3,4) by (simp add: kv)
  qed (auto simp: item_text_def debug_str_def)
  with object_items_same [of m m'] 1(2,3) show ?case by (simp add: b)
next
  case (2 xs)
  have "hd (write_canonical scalar b @ y) = CHR ''[''" using 2(6) [symmetric] by simp
  with write_canonical_start [OF tok, of b] obtain ys where b: "b = JArray ys" by (auto simp: hd_append)
  have eq: "comma_sep (map (write_canonical scalar) xs) @ CHR '']'' # x =
      comma_sep (map (write_canonical scalar) ys) @ CHR '']'' # y"
    using 2(6) by (simp add: b)
  have "list_all2 same_json xs ys \<and> x = y"
    by (rule comma_sep_unique [OF eq]) (use 2(1) 2(2,3) b write_canonical_start [OF tok] in auto)
  then show ?case by (simp add: b same_array)
qed (rule scalar_unique [OF tok]; simp add: is_scalar_def)+

subsection \<open>Properties\<close>

text \<open>
  C12. Two requests have the same canonical text exactly when they are the same request up to the
  order of object keys, at every depth. Reordering keys never turns a retry into a conflict, and
  no two different requests are hashed from the same bytes.\<close>

theorem canonical_text_iff_same_request:
  assumes "scalar_tokens scalar" and "json_wf a" and "json_wf b"
  shows "write_canonical scalar a = write_canonical scalar b \<longleftrightarrow> same_json a b"
  using write_canonical_unique [OF assms, of "[]" "[]"] same_json_text [OF _ assms(2,3)]
  by (auto simp: value_ends_def)

text \<open>A scalar renderer for the witness: strings quoted as above, integers as they are.\<close>

fun simple_scalar :: "json \<Rightarrow> string" where
  "simple_scalar JNull = ''null''"
| "simple_scalar (JBool b) = (if b then ''true'' else ''false'')"
| "simple_scalar (JNumber n) = ''#'' @ debug_str n"
| "simple_scalar (JString s) = debug_str s"
| "simple_scalar _ = ''?''"

lemma simple_scalar_unique:
  assumes "is_scalar v" and "is_scalar w" and eq: "simple_scalar v @ x = simple_scalar w @ y"
  shows "v = w \<and> x = y"
proof (cases v)
  case (JNumber n)
  with eq assms(2) show ?thesis
    by (cases w) (auto simp: is_scalar_def dest!: debug_str_unique split: if_splits,
        (simp add: debug_str_def)+)
next
  case (JString s)
  with eq assms(2) show ?thesis
    by (cases w) (auto simp: is_scalar_def dest!: debug_str_unique split: if_splits,
        (simp add: debug_str_def)+)
qed (use assms in \<open>cases w; simp add: is_scalar_def debug_str_def split: if_splits\<close>)+

lemma simple_scalar_tokens: "scalar_tokens simple_scalar"
proof -
  have "simple_scalar v \<noteq> [] \<and> hd (simple_scalar v) \<notin> {CHR ''{'', CHR ''['', CHR '','', CHR '']'', CHR ''}''}"
    if "is_scalar v" for v
    using that by (cases v) (auto simp: is_scalar_def debug_str_def)
  with simple_scalar_unique show ?thesis unfolding scalar_tokens_def by blast
qed

theorem canonical_text_iff_same_request_witness:
  "same_json (JObject [(''a'', JNumber ''1''), (''b'', JArray [JNull])])
             (JObject [(''b'', JArray [JNull]), (''a'', JNumber ''1'')])
   \<and> \<not> same_json (JObject [(''amount'', JNumber ''100'')]) (JObject [(''amount'', JNumber ''101'')])"
proof
  show "same_json (JObject [(''a'', JNumber ''1''), (''b'', JArray [JNull])])
             (JObject [(''b'', JArray [JNull]), (''a'', JNumber ''1'')])"
    by (rule canonical_text_iff_same_request [OF simple_scalar_tokens, THEN iffD1]) code_simp+
  have "write_canonical simple_scalar (JObject [(''amount'', JNumber ''100'')])
      \<noteq> write_canonical simple_scalar (JObject [(''amount'', JNumber ''101'')])" by code_simp
  then show "\<not> same_json (JObject [(''amount'', JNumber ''100'')]) (JObject [(''amount'', JNumber ''101'')])"
    using canonical_text_iff_same_request [OF simple_scalar_tokens, of
        "JObject [(''amount'', JNumber ''100'')]" "JObject [(''amount'', JNumber ''101'')]"] by simp
qed

end
