(* ===== verification/Config.thy ===== *)
theory Config
  imports Auth Validation Fingerprint
begin

text \<open>
  The configuration, \<^verbatim>\<open>src/config.rs\<close>: how it is read from the environment, which start-ups it
  refuses, and the static part of readiness. The environment is a map from variables to values;
  reading an asset from JSON is library code and a parameter. Logging is left out. The lemmas
  say exactly which configurations start and what a clean readiness report means.
\<close>

subsection \<open>The records\<close>

record pool_config =
  pc_soroban_rpc_url :: string
  pc_contract_id :: string
  pc_token_0 :: asset_id
  pc_token_1 :: asset_id
  pc_base_fee_stroops :: u32
  pc_fee_ceiling_stroops :: u32

record config =
  cf_port :: "16 word"
  cf_network :: network
  cf_horizon_url :: string
  cf_max_retry_attempts :: u32
  cf_retry_initial_delay_ms :: u64
  cf_webhook_timeout_secs :: u64
  cf_pool :: "pool_config option"
  cf_redis_url :: "string option"
  cf_idempotency_ttl_secs :: u64
  cf_release :: string
  cf_manifest :: string
  cf_expected_manifest :: string
  cf_contract_spec :: string
  cf_supported_contract_spec :: string
  cf_expected_network :: network
  cf_reconciliation_lag_seconds :: u64
  cf_reconciliation_lag_max_seconds :: u64
  cf_auth_keys :: "string \<rightharpoonup> service_key"
  cf_auth_disabled :: bool
  cf_auth_clock_skew_secs :: u64
  cf_auth_replay_window_secs :: u64
  cf_cors_allowed_origins :: "string list"
  cf_tls_terminated_upstream :: bool
  cf_allow_insecure_transport :: bool

subsection \<open>The debug rendering\<close>

text \<open>Texts with a separator between them, and the one-line form of \<open>debug_struct\<close> and \<open>debug_list\<close>.\<close>

fun separated :: "string \<Rightarrow> string list \<Rightarrow> string" where
  "separated sep [] = []"
| "separated sep [x] = x"
| "separated sep (x # y # xs) = x @ sep @ separated sep (y # xs)"

definition debug_struct :: "string \<Rightarrow> (string \<times> string) list \<Rightarrow> string" where
  "debug_struct name entries =
     name @ '' { '' @ separated '', '' (map (\<lambda>(field, value). field @ '': '' @ value) entries) @ '' }''"

definition debug_list :: "string list \<Rightarrow> string" where
  "debug_list items = ''['' @ separated '', '' items @ '']''"

definition debug_bool :: "bool \<Rightarrow> string" where
  "debug_bool b = (if b then ''true'' else ''false'')"

fun network_debug :: "network \<Rightarrow> string" where
  "network_debug Mainnet = ''Mainnet''"
| "network_debug Testnet = ''Testnet''"

text \<open>Of the pool, the Redis address and the keys it tells only whether and how many there are.\<close>

definition config_debug :: "config \<Rightarrow> string" where
  "config_debug cfg = debug_struct ''Config''
     [(''port'', dec_of_nat (unat (cf_port cfg))),
      (''network'', network_debug (cf_network cfg)),
      (''pool_configured'', debug_bool (cf_pool cfg \<noteq> None)),
      (''redis_configured'', debug_bool (cf_redis_url cfg \<noteq> None)),
      (''release'', debug_str (cf_release cfg)),
      (''expected_network'', network_debug (cf_expected_network cfg)),
      (''reconciliation_lag_seconds'', dec_of_nat (unat (cf_reconciliation_lag_seconds cfg))),
      (''auth_keys_configured'', dec_of_nat (card (dom (cf_auth_keys cfg)))),
      (''auth_disabled'', debug_bool (cf_auth_disabled cfg)),
      (''cors_allowed_origins'', debug_list (map debug_str (cf_cors_allowed_origins cfg)))]"

text \<open>The rendering is the same whatever the secrets are: it is a function of the rest.\<close>

lemma debug_hides_secrets:
  assumes "dom keys = dom (cf_auth_keys cfg)" and "redis = None \<longleftrightarrow> cf_redis_url cfg = None"
    and "pool = None \<longleftrightarrow> cf_pool cfg = None"
  shows "config_debug (cfg\<lparr>cf_auth_keys := keys, cf_redis_url := redis, cf_pool := pool\<rparr>) = config_debug cfg"
  using assms by (simp add: config_debug_def)

subsection \<open>Reading the environment\<close>

type_synonym environment = "string \<rightharpoonup> string"

text \<open>A number from a variable, or its default when the variable is missing or malformed.\<close>

definition env_num :: "environment \<Rightarrow> string \<Rightarrow> 'w::len word \<Rightarrow> 'w word" where
  "env_num env name fallback = (case Option.bind (env name) parse_uint of Some v \<Rightarrow> v | None \<Rightarrow> fallback)"

definition env_text :: "environment \<Rightarrow> string \<Rightarrow> string \<Rightarrow> string" where
  "env_text env name fallback = (case env name of Some v \<Rightarrow> v | None \<Rightarrow> fallback)"

definition env_flag :: "environment \<Rightarrow> string \<Rightarrow> bool" where
  "env_flag env name = (env name = Some ''true'')"

definition env_network :: "environment \<Rightarrow> string \<Rightarrow> network" where
  "env_network env name = (if env_text env name [] = ''mainnet'' then Mainnet else Testnet)"

text \<open>
  An asset: full JSON, which must parse, or a bare symbol as a shorthand. The given reader stands
  for \<open>serde_json::from_str\<close>.
\<close>

definition parse_asset_id ::
  "(string \<Rightarrow> string + asset_id) \<Rightarrow> environment \<Rightarrow> string \<Rightarrow> network \<Rightarrow> asset_id option outcome" where
  "parse_asset_id from_json env env_var net =
     (case env env_var of
        None \<Rightarrow> Returns None
      | Some raw \<Rightarrow>
          let trimmed = trim raw in
          if trimmed = [] then Returns None
          else if hd trimmed = CHR ''{'' then
            (case from_json trimmed of Ok asset \<Rightarrow> Returns (Some asset) | Err e \<Rightarrow> Panic)
          else if trimmed = ''XLM'' \<or> trimmed = ''xlm'' then Returns (Some (native_asset (network_name net)))
          else Returns (Some
            \<lparr>ast_network = network_name net, ast_type = IssuedAsset, ast_symbol = trimmed, ast_decimals = 7,
             ast_issuer = None, ast_contract = None\<rparr>))"

text \<open>The JSON variable first, then the legacy one.\<close>

definition pool_token ::
  "(string \<Rightarrow> string + asset_id) \<Rightarrow> environment \<Rightarrow> network \<Rightarrow> string \<Rightarrow> string \<Rightarrow> asset_id option outcome" where
  "pool_token from_json env net json_var legacy_var =
     bind_out (parse_asset_id from_json env json_var net) (\<lambda>t.
     case t of Some asset \<Rightarrow> Returns (Some asset) | None \<Rightarrow> parse_asset_id from_json env legacy_var net)"

definition read_pool :: "(string \<Rightarrow> string + asset_id) \<Rightarrow> environment \<Rightarrow> network \<Rightarrow> pool_config option outcome" where
  "read_pool from_json env net =
     bind_out (pool_token from_json env net ''POOL_TOKEN_0_JSON'' ''POOL_TOKEN_0'') (\<lambda>t0.
     bind_out (pool_token from_json env net ''POOL_TOKEN_1_JSON'' ''POOL_TOKEN_1'') (\<lambda>t1.
     Returns (case (env ''SOROBAN_RPC_URL'', env ''POOL_CONTRACT_ID'', t0, t1) of
       (Some rpc, Some contract, Some t0, Some t1) \<Rightarrow>
         Some \<lparr>pc_soroban_rpc_url = rpc, pc_contract_id = contract, pc_token_0 = t0, pc_token_1 = t1,
               pc_base_fee_stroops = env_num env ''POOL_BASE_FEE_STROOPS'' 100,
               pc_fee_ceiling_stroops = env_num env ''POOL_FEE_CEILING_STROOPS'' 10000000\<rparr>
     | _ \<Rightarrow> None)))"

definition read_auth_keys :: "auth_lib \<Rightarrow> environment \<Rightarrow> (string \<rightharpoonup> service_key) outcome" where
  "read_auth_keys lib env =
     (case env ''ENGINE_AUTH_KEYS'' of
        Some raw \<Rightarrow>
          if trim raw = [] then Returns Map.empty
          else (case parse_service_keys lib raw of Ok keys \<Rightarrow> Returns keys | Err e \<Rightarrow> Panic)
      | None \<Rightarrow> Returns Map.empty)"

definition read_origins :: "environment \<Rightarrow> string list" where
  "read_origins env =
     (case env ''CORS_ALLOWED_ORIGINS'' of
        Some v \<Rightarrow> filter (\<lambda>s. s \<noteq> []) (map trim (split_on (CHR '','') v))
      | None \<Rightarrow> [])"

definition default_horizon :: "network \<Rightarrow> string" where
  "default_horizon net =
     (case net of Mainnet \<Rightarrow> ''https://horizon.stellar.org''
      | Testnet \<Rightarrow> ''https://horizon-testnet.stellar.org'')"

definition from_env :: "(string \<Rightarrow> string + asset_id) \<Rightarrow> auth_lib \<Rightarrow> environment \<Rightarrow> config outcome" where
  "from_env from_json lib env =
     (let network = env_network env ''NETWORK'' in
      bind_out (read_pool from_json env network) (\<lambda>pool.
      bind_out (read_auth_keys lib env) (\<lambda>auth_keys.
      Returns
        \<lparr>cf_port = env_num env ''PORT'' 8080,
         cf_network = network,
         cf_horizon_url = env_text env ''HORIZON_URL'' (default_horizon network),
         cf_max_retry_attempts = env_num env ''MAX_RETRY_ATTEMPTS'' 3,
         cf_retry_initial_delay_ms = env_num env ''RETRY_INITIAL_DELAY_MS'' 500,
         cf_webhook_timeout_secs = env_num env ''WEBHOOK_TIMEOUT_SECS'' 5,
         cf_pool = pool,
         cf_redis_url = env ''REDIS_URL'',
         cf_idempotency_ttl_secs = env_num env ''IDEMPOTENCY_TTL_SECS'' 86400,
         cf_release = env_text env ''RELEASE_VERSION'' ''unknown'',
         cf_manifest = env_text env ''RELEASE_MANIFEST_SHA'' [],
         cf_expected_manifest = env_text env ''EXPECTED_MANIFEST_SHA'' [],
         cf_contract_spec = env_text env ''CONTRACT_SPEC_VERSION'' [],
         cf_supported_contract_spec = env_text env ''SUPPORTED_CONTRACT_SPEC_VERSION'' [],
         cf_expected_network = env_network env ''EXPECTED_NETWORK'',
         cf_reconciliation_lag_seconds = env_num env ''RECONCILIATION_LAG_SECONDS'' (- 1),
         cf_reconciliation_lag_max_seconds = env_num env ''RECONCILIATION_LAG_MAX_SECONDS'' 30,
         cf_auth_keys = auth_keys,
         cf_auth_disabled = env_flag env ''ENGINE_AUTH_DISABLED'',
         cf_auth_clock_skew_secs = env_num env ''ENGINE_AUTH_CLOCK_SKEW_SECS'' 60,
         cf_auth_replay_window_secs = env_num env ''ENGINE_AUTH_REPLAY_WINDOW_SECS'' 300,
         cf_cors_allowed_origins = read_origins env,
         cf_tls_terminated_upstream = env_flag env ''TLS_TERMINATED_UPSTREAM'',
         cf_allow_insecure_transport = env_flag env ''ENGINE_ALLOW_INSECURE_TRANSPORT''\<rparr>)))"

subsection \<open>Start-up and readiness\<close>

definition validate_config :: "config \<Rightarrow> unit outcome" where
  "validate_config c =
     bind_out
       (if cf_network c = Mainnet then
          if cf_auth_disabled c then Panic
          else if cf_auth_keys c = Map.empty then Panic
          else if cf_redis_url c = None then Panic
          else Returns ()
        else Returns ()) (\<lambda>_.
     if \<not> cf_tls_terminated_upstream c \<and> \<not> cf_allow_insecure_transport c \<and> cf_network c = Mainnet
     then Panic else Returns ())"

definition static_readiness :: "config \<Rightarrow> string list" where
  "static_readiness c =
     (if cf_network c \<noteq> cf_expected_network c then [''wrong_network''] else []) @
     (if cf_manifest c = [] \<or> cf_manifest c \<noteq> cf_expected_manifest c then [''wrong_manifest''] else []) @
     (if cf_contract_spec c = [] \<or> cf_contract_spec c \<noteq> cf_supported_contract_spec c
      then [''unsupported_contract_spec''] else []) @
     (if cf_pool c = None then [''contract_not_configured''] else []) @
     (if cf_reconciliation_lag_max_seconds c < cf_reconciliation_lag_seconds c
      then [''reconciliation_backlog''] else [])"

subsection \<open>Lemmas\<close>

lemma validate_config_Returns:
  "validate_config c = Returns () \<longleftrightarrow>
     cf_network c = Testnet \<or>
     \<not> cf_auth_disabled c \<and> cf_auth_keys c \<noteq> Map.empty \<and> cf_redis_url c \<noteq> None \<and>
     (cf_tls_terminated_upstream c \<or> cf_allow_insecure_transport c)"
  by (cases "cf_network c") (auto simp: validate_config_def)

lemma static_readiness_Nil:
  "static_readiness c = [] \<longleftrightarrow>
     cf_network c = cf_expected_network c \<and> cf_manifest c \<noteq> [] \<and> cf_manifest c = cf_expected_manifest c \<and>
     cf_contract_spec c \<noteq> [] \<and> cf_contract_spec c = cf_supported_contract_spec c \<and>
     cf_pool c \<noteq> None \<and> cf_reconciliation_lag_seconds c \<le> cf_reconciliation_lag_max_seconds c"
  by (auto simp: static_readiness_def not_less)

lemma read_auth_keys_wellformed:
  assumes "read_auth_keys lib env = Returns keys" and "keys key_id = Some key"
  shows "16 \<le> length (sk_secret key) \<and> sk_scopes key \<noteq> []"
  using assms parse_key_entries_Ok
  by (fastforce simp: read_auth_keys_def parse_service_keys_def split: option.splits if_splits sum.splits)

lemma from_env_fields:
  assumes "from_env from_json lib env = Returns c"
  shows "cf_network c = env_network env ''NETWORK''" "read_auth_keys lib env = Returns (cf_auth_keys c)"
    "cf_redis_url c = env ''REDIS_URL''" "cf_auth_disabled c = env_flag env ''ENGINE_AUTH_DISABLED''"
    "cf_tls_terminated_upstream c = env_flag env ''TLS_TERMINATED_UPSTREAM''"
    "cf_allow_insecure_transport c = env_flag env ''ENGINE_ALLOW_INSECURE_TRANSPORT''"
  using assms by (auto simp: from_env_def Let_def res_simps)

text \<open>A bare symbol other than the native one never names an asset that validation accepts.\<close>

lemma legacy_asset_invalid:
  assumes "parse_asset_id from_json env v net = Returns (Some a)" and "env v = Some raw"
    and "hd (trim raw) \<noteq> CHR ''{''" and "trim raw \<noteq> ''XLM''" and "trim raw \<noteq> ''xlm''"
  shows "valid_asset_id a \<noteq> Ok ()"
  using assms by (auto simp: parse_asset_id_def Let_def valid_asset_id_Ok asset_coherent_def split: if_splits)

text \<open>
  An engine that starts from an environment naming mainnet has authentication on, at least
  one service key, each with a secret of sixteen bytes or more and with scopes, a Redis address
  for the durable claims, and either upstream TLS or the explicit acceptance of plain transport.\<close>

lemma mainnet_config_guarded:
  assumes "from_env from_json lib env = Returns c" and "validate_config c = Returns ()"
    and "env ''NETWORK'' = Some ''mainnet''"
  shows "\<not> env_flag env ''ENGINE_AUTH_DISABLED'' \<and> env ''REDIS_URL'' \<noteq> None \<and>
    (env_flag env ''TLS_TERMINATED_UPSTREAM'' \<or> env_flag env ''ENGINE_ALLOW_INSECURE_TRANSPORT'') \<and>
    (\<exists>key_id key. cf_auth_keys c key_id = Some key) \<and>
    (\<forall>key_id key. cf_auth_keys c key_id = Some key \<longrightarrow> 16 \<le> length (sk_secret key) \<and> sk_scopes key \<noteq> [])"
proof -
  note fields = from_env_fields [OF assms(1)]
  have net: "cf_network c = Mainnet" using fields(1) assms(3) by (simp add: env_network_def env_text_def)
  have guard: "\<not> cf_auth_disabled c" "cf_auth_keys c \<noteq> Map.empty" "cf_redis_url c \<noteq> None"
    "cf_tls_terminated_upstream c \<or> cf_allow_insecure_transport c"
    using assms(2) net by (simp_all add: validate_config_Returns)
  from guard(2) have "\<exists>key_id key. cf_auth_keys c key_id = Some key" by (auto simp: fun_eq_iff)
  with guard fields read_auth_keys_wellformed [OF fields(2)] show ?thesis by simp
qed

subsection \<open>A start on mainnet\<close>

definition demo_env :: environment where
  "demo_env = [''NETWORK'' \<mapsto> ''mainnet'', ''REDIS_URL'' \<mapsto> ''redis://r'', ''TLS_TERMINATED_UPSTREAM'' \<mapsto> ''true'',
     ''ENGINE_AUTH_KEYS'' \<mapsto> render_key demo_hex (''k'', \<lparr>sk_secret = replicate 16 1, sk_scopes = [Read]\<rparr>)]"

lemma demo_auth_keys:
  "read_auth_keys demo_lib demo_env = Returns [''k'' \<mapsto> \<lparr>sk_secret = replicate 16 1, sk_scopes = [Read]\<rparr>]"
proof -
  let ?k = "(''k'', \<lparr>sk_secret = replicate 16 (1 :: u8), sk_scopes = [Read]\<rparr>)"
  have "key_ok ?k" by (simp add: key_ok_def is_ascii_whitespace_def)
  from parse_rendered_key [OF demo_hex_codec this] show ?thesis
    by (simp add: read_auth_keys_def demo_env_def parse_service_keys_def split_on_single)
qed

lemma demo_starts:
  "\<exists>c. from_env (\<lambda>_. Err ''no json'') demo_lib demo_env = Returns c \<and> validate_config c = Returns ()"
proof -
  let ?read = "\<lambda>_. Err ''no json'' :: string + asset_id"
  have "read_pool ?read demo_env net = Returns None" for net
    by (simp add: read_pool_def pool_token_def parse_asset_id_def demo_env_def)
  then obtain c where c: "from_env ?read demo_lib demo_env = Returns c"
    by (simp add: from_env_def demo_auth_keys Let_def)
  note fields = from_env_fields [OF c]
  have "validate_config c = Returns ()"
    using fields demo_auth_keys by (simp add: validate_config_Returns env_flag_def demo_env_def)
  with c show ?thesis by blast
qed

end
