(* ===== verification/Adapters.thy ===== *)
theory Adapters
  imports Validation
begin

text \<open>
  Chain adapters: the trait \<open>ChainAdapter\<close> of \<^verbatim>\<open>src/adapters/mod.rs\<close> as a record of operations
  on a world \<open>'w\<close> (everything an adapter can read or change), with the default readiness, the
  mock adapter of \<^verbatim>\<open>src/adapters/mock.rs\<close> and the Stellar adapter of
  \<^verbatim>\<open>src/adapters/stellar.rs\<close> over a Horizon server that is a parameter.
\<close>

subsection \<open>The trait\<close>

record 'w adapter =
  ad_name :: string
  ad_submit :: "payment \<Rightarrow> 'w \<Rightarrow> (engine_error + string) \<times> 'w"
  ad_fee_estimate :: "'w \<Rightarrow> (engine_error + fee_estimate) \<times> 'w"
  ad_is_confirmed :: "string \<Rightarrow> 'w \<Rightarrow> (engine_error + bool) \<times> 'w"
  ad_is_ready :: "'w \<Rightarrow> bool \<times> 'w"

text \<open>The provided \<open>is_ready\<close>: ready when a fee estimate can be had.\<close>

definition default_is_ready :: "('w \<Rightarrow> (engine_error + fee_estimate) \<times> 'w) \<Rightarrow> 'w \<Rightarrow> bool \<times> 'w" where
  "default_is_ready fee w = (case fee w of (r, w') \<Rightarrow> (is_ok r, w'))"

subsection \<open>The mock adapter\<close>

text \<open>Its world is its submission counter. \<open>&id[..8]\<close> panics on a shorter id, here \<open>None\<close>.\<close>

record mock_adapter =
  mock_name :: string
  mock_should_fail :: bool

definition mock_new :: "string \<Rightarrow> mock_adapter" where
  "mock_new name = \<lparr>mock_name = name, mock_should_fail = False\<rparr>"

definition mock_failing :: "string \<Rightarrow> mock_adapter" where
  "mock_failing name = (mock_new name)\<lparr>mock_should_fail := True\<rparr>"

definition mock_submit :: "mock_adapter \<Rightarrow> payment \<Rightarrow> u32 \<Rightarrow> (engine_error + string) outcome \<times> u32" where
  "mock_submit m p count =
     (if mock_should_fail m then Returns (Err (AdapterError ''mock failure''))
      else if length (pm_id p) < 8 then Panic
      else Returns (Ok (''mock_tx_'' @ take 8 (pm_id p))), count + 1)"

definition mock_fee_estimate :: "mock_adapter \<Rightarrow> engine_error + fee_estimate" where
  "mock_fee_estimate m =
     (if mock_should_fail m then Err (AdapterError ''mock fee failure'') else Ok default_fee_estimate)"

definition mock_is_confirmed :: "mock_adapter \<Rightarrow> string \<Rightarrow> engine_error + bool" where
  "mock_is_confirmed m tx_hash = Ok (\<not> mock_should_fail m)"

text \<open>As a trait object, on payments whose id has at least eight characters (ids are UUIDs).\<close>

definition mock_object :: "mock_adapter \<Rightarrow> u32 adapter" where
  "mock_object m =
     \<lparr>ad_name = mock_name m,
      ad_submit = (\<lambda>p c. case mock_submit m p c of
         (Returns r, c') \<Rightarrow> (r, c') | (Panic, c') \<Rightarrow> (Err (Internal ''panic''), c')),
      ad_fee_estimate = (\<lambda>c. (mock_fee_estimate m, c)),
      ad_is_confirmed = (\<lambda>h c. (mock_is_confirmed m h, c)),
      ad_is_ready = default_is_ready (\<lambda>c. (mock_fee_estimate m, c))\<rparr>"

subsection \<open>The Stellar adapter\<close>

text \<open>
  Horizon answers a request with a status and a body, or the request fails; a body may be no
  JSON. \<open>fee_text\<close> and \<open>close_time\<close> read the fields the adapter uses from a body: the string at
  \<open>fee_charged.<sub>\<close>, and the close time of the latest ledger in seconds, when present;
  \<open>status_text\<close> prints a status.
\<close>

record 'j http_response =
  resp_status :: nat
  resp_json :: "string + 'j"

record ('w, 'j) horizon =
  hz_get :: "string \<Rightarrow> 'w \<Rightarrow> (string + 'j http_response) \<times> 'w"
  hz_fee_text :: "'j \<Rightarrow> string \<Rightarrow> string option"
  hz_close_time :: "'j \<Rightarrow> int option"
  hz_now :: "'w \<Rightarrow> int"
  hz_status_text :: "nat \<Rightarrow> string"

definition is_success :: "nat \<Rightarrow> bool" where
  "is_success status = (200 \<le> status \<and> status < 300)"

definition trim_end_slashes :: "string \<Rightarrow> string" where
  "trim_end_slashes s = rev (dropWhile (\<lambda>c. c = CHR ''/'') (rev s))"

definition stellar_new :: "string \<Rightarrow> string" where
  "stellar_new horizon_url = trim_end_slashes horizon_url"

text \<open>A fee percentile, or the fallback of its name when it is missing or malformed.\<close>

definition fee_percentile :: "('j \<Rightarrow> string \<Rightarrow> string option) \<Rightarrow> 'j \<Rightarrow> string \<Rightarrow> u64" where
  "fee_percentile fee_text stats sub =
     (case Option.bind (fee_text stats sub) parse_u64 of
        Some v \<Rightarrow> v
      | None \<Rightarrow> if sub = ''p75'' then 250 else if sub = ''p90'' then 500 else 100)"

definition stellar_submit :: "payment \<Rightarrow> engine_error + string" where
  "stellar_submit p =
     bind_res (stellar_address (pm_sender p)) (\<lambda>_.
     bind_res (stellar_address (pm_recipient p)) (\<lambda>_.
     bind_res (valid_amount (pm_amount p)) (\<lambda>_.
     let s = filter is_ascii_alphanumeric (pm_id p) in
     Ok (replicate (64 - length s) (CHR ''0'') @ s))))"

definition stellar_fee_estimate ::
    "('w, 'j) horizon \<Rightarrow> string \<Rightarrow> 'w \<Rightarrow> (engine_error + fee_estimate) \<times> 'w" where
  "stellar_fee_estimate hz url w =
     (case hz_get hz (url @ ''/fee_stats'') w of
        (Err e, w') \<Rightarrow> (Err (NetworkError e), w')
      | (Ok resp, w') \<Rightarrow>
          if is_success (resp_status resp) then
            (case resp_json resp of
               Err e \<Rightarrow> (Err (NetworkError e), w')
             | Ok stats \<Rightarrow>
                 (Ok \<lparr>standard_stroops = fee_percentile (hz_fee_text hz) stats ''p50'',
                      fast_stroops = fee_percentile (hz_fee_text hz) stats ''p75'',
                      urgent_stroops = fee_percentile (hz_fee_text hz) stats ''p90'',
                      standard_seconds = 5, fast_seconds = 3, urgent_seconds = 1\<rparr>, w'))
          else (Err (NetworkError (''horizon returned '' @ hz_status_text hz (resp_status resp))), w'))"

definition stellar_is_confirmed ::
    "('w, 'j) horizon \<Rightarrow> string \<Rightarrow> string \<Rightarrow> 'w \<Rightarrow> (engine_error + bool) \<times> 'w" where
  "stellar_is_confirmed hz url tx_hash w =
     (case hz_get hz (url @ ''/transactions/'' @ tx_hash) w of
        (Err e, w') \<Rightarrow> (Err (NetworkError e), w')
      | (Ok resp, w') \<Rightarrow> (Ok (is_success (resp_status resp)), w'))"

text \<open>Ready only when the latest ledger closed at most thirty seconds ago.\<close>

definition stellar_is_ready :: "('w, 'j) horizon \<Rightarrow> string \<Rightarrow> 'w \<Rightarrow> bool \<times> 'w" where
  "stellar_is_ready hz url w =
     (case hz_get hz url w of
        (Err e, w') \<Rightarrow> (False, w')
      | (Ok resp, w') \<Rightarrow>
          if is_success (resp_status resp) then
            (case resp_json resp of
               Err e \<Rightarrow> (False, w')
             | Ok body \<Rightarrow>
                 (case hz_close_time hz body of
                    None \<Rightarrow> (False, w')
                  | Some t \<Rightarrow> (let age = hz_now hz w' - t in (0 \<le> age \<and> age \<le> 30, w'))))
          else (False, w'))"

definition stellar_object :: "('w, 'j) horizon \<Rightarrow> string \<Rightarrow> 'w adapter" where
  "stellar_object hz url =
     \<lparr>ad_name = ''stellar'',
      ad_submit = (\<lambda>p w. (stellar_submit p, w)),
      ad_fee_estimate = stellar_fee_estimate hz url,
      ad_is_confirmed = stellar_is_confirmed hz url,
      ad_is_ready = stellar_is_ready hz url\<rparr>"

end
