(* ===== verification/Soroban.thy ===== *)
theory Soroban
  imports Adapters Fingerprint
begin

text \<open>
  The Soroban RPC client, \<^verbatim>\<open>src/pool/soroban.rs\<close>: the HTTP transport with its request counter,
  and the typed calls over an arbitrary transport. Transports and the HTTP client act on a world
  that is passed along. The HTTP client, the text of JSON values and the derived deserialisers
  are library code and appear as parameters. The lemmas show that request numbers are never
  reused and that every transport failure reaches the caller unchanged.
\<close>

subsection \<open>JSON access\<close>

fun json_get :: "json \<Rightarrow> string \<Rightarrow> json option" where
  "json_get (JObject m) k = map_of m k"
| "json_get _ k = None"

text \<open>Indexing with a missing key or into no object gives null.\<close>

definition json_index :: "json \<Rightarrow> string \<Rightarrow> json" where
  "json_index v k = (case json_get v k of Some w \<Rightarrow> w | None \<Rightarrow> JNull)"

fun as_array :: "json \<Rightarrow> json list option" where
  "as_array (JArray xs) = Some xs"
| "as_array _ = None"

fun as_u64 :: "json \<Rightarrow> u64 option" where
  "as_u64 (JNumber s) = parse_u64 s"
| "as_u64 _ = None"

subsection \<open>The HTTP transport\<close>

type_synonym 'w transport = "string \<Rightarrow> json \<Rightarrow> 'w \<Rightarrow> (engine_error + json) \<times> 'w"

record http_transport =
  ht_endpoint :: string
  ht_id :: u64

definition http_transport_new :: "string \<Rightarrow> http_transport" where
  "http_transport_new endpoint = \<lparr>ht_endpoint = trim_end_slashes endpoint, ht_id = 1\<rparr>"

record 'w http_client =
  hc_post :: "string \<Rightarrow> json \<Rightarrow> 'w \<Rightarrow> (string + json http_response) \<times> 'w"
  hc_status_text :: "nat \<Rightarrow> string"
  hc_json_text :: "json \<Rightarrow> string"

definition rpc_body :: "u64 \<Rightarrow> string \<Rightarrow> json \<Rightarrow> json" where
  "rpc_body i method ps =
     JObject [(''jsonrpc'', JString ''2.0''), (''id'', JNumber (dec_of_nat (unat i))),
              (''method'', JString method), (''params'', ps)]"

definition interpret_response :: "'w http_client \<Rightarrow> string \<Rightarrow> string + json http_response \<Rightarrow> engine_error + json" where
  "interpret_response client method response =
     bind_res (map_err response NetworkError) (\<lambda>resp.
     if \<not> is_success (resp_status resp) then
       Err (NetworkError (''soroban rpc returned '' @ hc_status_text client (resp_status resp)))
     else
       bind_res (map_err (resp_json resp) (\<lambda>e. Internal (''parse rpc response: '' @ e))) (\<lambda>val.
       case json_get val ''error'' of
         Some err \<Rightarrow> Err (AdapterError (''soroban rpc '' @ method @ '' error: '' @ hc_json_text client err))
       | None \<Rightarrow> Ok (json_index val ''result'')))"

definition http_call :: "'w http_client \<Rightarrow> (http_transport \<times> 'w) transport" where
  "http_call client method ps = (\<lambda>(transport, w).
     let body = rpc_body (ht_id transport) method ps;
         (response, w') = hc_post client (ht_endpoint transport) body w in
     (interpret_response client method response, (transport\<lparr>ht_id := ht_id transport + 1\<rparr>, w')))"

subsection \<open>Typed calls\<close>

record ledger_entry =
  le_key :: string
  le_xdr :: string
  le_last_modified :: "u32 option"

record simulate_result_item =
  sr_xdr :: string
  sr_auth :: "string list"

record restore_preamble =
  rp_transaction_data :: string
  rp_min_resource_fee :: string

record simulate_transaction_response =
  st_error :: "string option"
  st_latest_ledger :: "u32 option"
  st_transaction_data :: "string option"
  st_min_resource_fee :: "string option"
  st_results :: "simulate_result_item list"
  st_restore_preamble :: "restore_preamble option"

record send_transaction_response =
  sn_status :: string
  sn_hash :: string
  sn_latest_ledger :: "u32 option"
  sn_error_result_xdr :: "string option"

record get_transaction_response =
  gt_status :: string
  gt_latest_ledger :: "u32 option"
  gt_result_xdr :: "string option"
  gt_envelope_xdr :: "string option"

text \<open>The derived deserialisers of the response types.\<close>

record rpc_codec =
  de_ledger_entry :: "json \<Rightarrow> string + ledger_entry"
  de_simulate :: "json \<Rightarrow> string + simulate_transaction_response"
  de_send :: "json \<Rightarrow> string + send_transaction_response"
  de_get :: "json \<Rightarrow> string + get_transaction_response"

definition typed_call :: "'w transport \<Rightarrow> string \<Rightarrow> json \<Rightarrow> (json \<Rightarrow> engine_error + 'a) \<Rightarrow> 'w \<Rightarrow> (engine_error + 'a) \<times> 'w" where
  "typed_call call method ps read w =
     (case call method ps w of (result, w') \<Rightarrow> (bind_res result read, w'))"

definition get_ledger_entries ::
  "rpc_codec \<Rightarrow> 'w transport \<Rightarrow> string list \<Rightarrow> 'w \<Rightarrow> (engine_error + ledger_entry list) \<times> 'w" where
  "get_ledger_entries codec call keys =
     typed_call call ''getLedgerEntries'' (JObject [(''keys'', JArray (map JString keys))]) (\<lambda>result.
       Ok (List.map_filter (\<lambda>e. ok_value (de_ledger_entry codec e))
             (case as_array (json_index result ''entries'') of Some es \<Rightarrow> es | None \<Rightarrow> [])))"

definition simulate_transaction ::
  "rpc_codec \<Rightarrow> 'w transport \<Rightarrow> string \<Rightarrow> 'w \<Rightarrow> (engine_error + simulate_transaction_response) \<times> 'w" where
  "simulate_transaction codec call xdr =
     typed_call call ''simulateTransaction'' (JObject [(''transaction'', JString xdr)]) (\<lambda>result.
       map_err (de_simulate codec result) (\<lambda>e. Internal (''parse simulate result: '' @ e)))"

definition send_transaction ::
  "rpc_codec \<Rightarrow> 'w transport \<Rightarrow> string \<Rightarrow> 'w \<Rightarrow> (engine_error + send_transaction_response) \<times> 'w" where
  "send_transaction codec call xdr =
     typed_call call ''sendTransaction'' (JObject [(''transaction'', JString xdr)]) (\<lambda>result.
       map_err (de_send codec result) (\<lambda>e. Internal (''parse sendTransaction result: '' @ e)))"

definition get_transaction ::
  "rpc_codec \<Rightarrow> 'w transport \<Rightarrow> string \<Rightarrow> 'w \<Rightarrow> (engine_error + get_transaction_response) \<times> 'w" where
  "get_transaction codec call hash =
     typed_call call ''getTransaction'' (JObject [(''hash'', JString hash)]) (\<lambda>result.
       map_err (de_get codec result) (\<lambda>e. Internal (''parse getTransaction result: '' @ e)))"

text \<open>The ledger number is truncated to 32 bits.\<close>

definition get_latest_ledger :: "'w transport \<Rightarrow> 'w \<Rightarrow> (engine_error + u32) \<times> 'w" where
  "get_latest_ledger call =
     typed_call call ''getLatestLedger'' (JObject []) (\<lambda>result.
       ok_or (map_option ucast (as_u64 (json_index result ''sequence''))) (Internal ''missing ledger sequence''))"

subsection \<open>Lemmas\<close>

lemma typed_call_eq:
  "call method ps w = (r, w') \<Longrightarrow> typed_call call method ps read w = (bind_res r read, w')"
  by (simp add: typed_call_def)

lemma typed_call_Ok:
  "typed_call call method ps read w = (Ok x, w') \<longleftrightarrow>
     (\<exists>v. call method ps w = (Ok v, w') \<and> read v = Ok x)"
  by (auto simp: typed_call_def res_simps split: prod.splits)

lemma typed_call_world: "snd (typed_call call method ps read w) = snd (call method ps w)"
  by (simp add: typed_call_def split: prod.split)

lemma typed_call_transport_error:
  "fst (call method ps w) = Err e \<Longrightarrow> typed_call call method ps read w = (Err e, snd (call method ps w))"
  by (cases "call method ps w") (simp add: typed_call_def)

text \<open>Every HTTP call takes the next request number.\<close>

lemma http_call_id: "ht_id (fst (snd (http_call client method ps (t, w)))) = ht_id t + 1"
  by (simp add: http_call_def Let_def split: prod.split)

lemma http_call_Ok:
  "http_call client method ps (t, w) = (Ok v, (t', w')) \<longleftrightarrow>
     (\<exists>resp val. hc_post client (ht_endpoint t) (rpc_body (ht_id t) method ps) w = (Ok resp, w') \<and>
        is_success (resp_status resp) \<and> resp_json resp = Ok val \<and> json_get val ''error'' = None \<and>
        v = json_index val ''result'' \<and> t' = t\<lparr>ht_id := ht_id t + 1\<rparr>)"
  by (auto simp: http_call_def interpret_response_def Let_def res_simps
      split: prod.splits if_splits option.splits)

end
