(* ===== verification/Pool_Abi.thy ===== *)
theory Pool_Abi
  imports Utils
begin

text \<open>
  The embedded interface of the pool contract, \<^verbatim>\<open>src/pool/abi.rs\<close>: the manifest of the three
  contract functions with their typed parameters, the lookups over it, its canonical text, which
  is what the reported specification hash covers, and the gate that admits a call by name and
  number of arguments. The lemmas show that names and functions correspond one to one, that the
  gate admits exactly the calls of the manifest, and that every function ends in its deadline.
\<close>

subsection \<open>The manifest\<close>

datatype abi_type = Address | I128 | U64

fun abi_type_as_str :: "abi_type \<Rightarrow> string" where
  "abi_type_as_str Address = ''address''"
| "abi_type_as_str I128 = ''i128''"
| "abi_type_as_str U64 = ''u64''"

datatype pool_function = Swap | AddLiquidity | RemoveLiquidity

fun wire_name :: "pool_function \<Rightarrow> string" where
  "wire_name Swap = ''swap''"
| "wire_name AddLiquidity = ''add_liquidity''"
| "wire_name RemoveLiquidity = ''remove_liquidity''"

record abi_param =
  ap_name :: string
  ap_ty :: abi_type

definition param :: "string \<Rightarrow> abi_type \<Rightarrow> abi_param" where
  "param name ty = \<lparr>ap_name = name, ap_ty = ty\<rparr>"

record manifest_entry =
  me_function :: pool_function
  me_name :: string
  me_params :: "abi_param list"

definition SWAP_PARAMS :: "abi_param list" where
  "SWAP_PARAMS =
     [param ''to'' Address,
      param ''amount_0_out'' I128,
      param ''amount_1_out'' I128,
      param ''deadline'' U64]"

definition ADD_LIQUIDITY_PARAMS :: "abi_param list" where
  "ADD_LIQUIDITY_PARAMS =
     [param ''from'' Address,
      param ''to'' Address,
      param ''amount_0_desired'' I128,
      param ''amount_1_desired'' I128,
      param ''amount_0_min'' I128,
      param ''amount_1_min'' I128,
      param ''deadline'' U64]"

definition REMOVE_LIQUIDITY_PARAMS :: "abi_param list" where
  "REMOVE_LIQUIDITY_PARAMS =
     [param ''from'' Address,
      param ''to'' Address,
      param ''liquidity'' I128,
      param ''amount_0_min'' I128,
      param ''amount_1_min'' I128,
      param ''deadline'' U64]"

definition MANIFEST :: "manifest_entry list" where
  "MANIFEST =
     [\<lparr>me_function = Swap, me_name = ''swap'', me_params = SWAP_PARAMS\<rparr>,
      \<lparr>me_function = AddLiquidity, me_name = ''add_liquidity'', me_params = ADD_LIQUIDITY_PARAMS\<rparr>,
      \<lparr>me_function = RemoveLiquidity, me_name = ''remove_liquidity'', me_params = REMOVE_LIQUIDITY_PARAMS\<rparr>]"

definition function_lookup :: "string \<Rightarrow> pool_function option" where
  "function_lookup name = map_option me_function (find (\<lambda>f. me_name f = name) MANIFEST)"

definition params :: "pool_function \<Rightarrow> abi_param list" where
  "params f = (case find (\<lambda>e. me_function e = f) MANIFEST of Some e \<Rightarrow> me_params e | None \<Rightarrow> [])"

definition MANIFEST_VERSION :: string where
  "MANIFEST_VERSION = ''pool-abi-v1''"

definition canonical_manifest :: string where
  "canonical_manifest =
     MANIFEST_VERSION @
     concat (map (\<lambda>entry. ''|'' @ me_name entry @
       concat (map (\<lambda>p. '','' @ ap_name p @ '':'' @ abi_type_as_str (ap_ty p)) (me_params entry))) MANIFEST)"

text \<open>The SHA-256 of the manifest in hexadecimal; the hash is a library function.\<close>

definition spec_hash :: "(string \<Rightarrow> string) \<Rightarrow> string" where
  "spec_hash sha256_hex = sha256_hex canonical_manifest"

definition require_known_function :: "string \<Rightarrow> nat \<Rightarrow> engine_error + pool_function" where
  "require_known_function name arg_count =
     bind_res (ok_or (function_lookup name)
                 (InvalidRequest (''unknown contract function: '' @ name))) (\<lambda>func.
     let expected = length (params func) in
     if arg_count \<noteq> expected then
       Err (InvalidRequest (name @ '' expects '' @ dec_of_nat expected @
              '' argument(s), got '' @ dec_of_nat arg_count))
     else Ok func)"

subsection \<open>The manifest is coherent\<close>

lemma params_simps [simp]:
  "params Swap = SWAP_PARAMS"
  "params AddLiquidity = ADD_LIQUIDITY_PARAMS"
  "params RemoveLiquidity = REMOVE_LIQUIDITY_PARAMS"
  by (simp_all add: params_def MANIFEST_def)

lemma function_lookup_eq_Some: "function_lookup name = Some f \<longleftrightarrow> name = wire_name f"
  by (cases f) (auto simp: function_lookup_def MANIFEST_def)

lemma wire_name_inject [simp]: "wire_name f = wire_name g \<longleftrightarrow> f = g"
  by (cases f; cases g) simp_all

lemma wire_name_short: "length (wire_name f) \<le> 32"
  by (cases f) simp_all

lemma wire_name_ascii: "\<forall>c \<in> set (wire_name f). of_char c < (128 :: nat)"
  by (cases f) simp_all

lemma require_known_function_Ok [res_simps]:
  "require_known_function name n = Ok f \<longleftrightarrow> name = wire_name f \<and> n = length (params f)"
  by (auto simp: require_known_function_def res_simps function_lookup_eq_Some Let_def)

lemmas param_list_defs = SWAP_PARAMS_def ADD_LIQUIDITY_PARAMS_def REMOVE_LIQUIDITY_PARAMS_def param_def

lemma params_deadline:
  "\<exists>ps. params f = ps @ [param ''deadline'' U64] \<and> ''deadline'' \<notin> set (map ap_name ps)"
  by (cases f) (simp_all add: param_list_defs)

lemma params_distinct: "distinct (map ap_name (params f))"
  by (cases f) (simp_all add: param_list_defs)

end
