(* ===== verification/Pool_Xdr.thy ===== *)
theory Pool_Xdr
  imports Pool_Abi
begin

unbundle bit_operations_syntax

text \<open>
  Typed Soroban values and transactions, \<^verbatim>\<open>src/pool/xdr.rs\<close>. The generated types of the
  \<^verbatim>\<open>stellar-xdr\<close> crate appear with the constructors the source builds or matches; all their
  other variants and the parts the source only passes on are values of a type parameter. The
  codecs of that crate and of \<^verbatim>\<open>stellar-strkey\<close> are the fields of \<open>stellar_lib\<close>, a parameter of
  every operation that uses them. The lemmas show the round trips of 128-bit integers, what an
  accepted amount is, what a lookup in contract storage returns, which envelope is built and
  what applying a simulation changes in it.
\<close>

subsection \<open>Values\<close>

datatype 'x sc_address =
    AccountAddr bytes
  | ContractAddr bytes
  | OtherAddr 'x

datatype 'x sc_val =
    SvAddress "'x sc_address"
  | SvI128 i64 u64
  | SvU64 u64
  | SvSymbol string
  | SvVec "'x sc_val list option"
  | SvLedgerKeyContractInstance
  | SvContractInstance 'x "('x sc_val \<times> 'x sc_val) list option"
  | SvOther 'x

type_synonym 'x sc_map = "('x sc_val \<times> 'x sc_val) list"

subsection \<open>Ledger keys and entries\<close>

datatype durability = Persistent | Temporary

datatype 'x ledger_key =
    LkAccount bytes
  | LkContractData "'x sc_address" "'x sc_val" durability

datatype 'x ledger_entry_data =
    LeAccount i64 'x
  | LeContractData "'x sc_val" 'x
  | LeOther 'x

subsection \<open>Transactions\<close>

datatype muxed_account =
    Ed25519 bytes
  | MuxedEd25519 u64 bytes

record 'x invoke_contract_args =
  ic_contract_address :: "'x sc_address"
  ic_function_name :: string
  ic_args :: "'x sc_val list"

datatype 'x host_function =
    InvokeContract "'x invoke_contract_args"
  | OtherHostFunction 'x

datatype 'x credentials =
    SourceAccount
  | AddressCredentials "'x sc_address" 'x

record 'x auth_entry =
  ae_credentials :: "'x credentials"
  ae_root_invocation :: 'x

datatype 'x operation_body =
    InvokeHostFunction "'x host_function" "'x auth_entry list"
  | OtherBody 'x

record 'x operation =
  op_source_account :: "muxed_account option"
  op_body :: "'x operation_body"

datatype 'x preconditions =
    PrecondTime u64 u64
  | OtherPrecond 'x

datatype 'x memo =
    MemoNone
  | OtherMemo 'x

record 'x soroban_data =
  sd_resource_fee :: i64
  sd_resources :: 'x

datatype 'x transaction_ext =
    ExtV0
  | ExtV1 "'x soroban_data"

record 'x transaction =
  tx_source_account :: muxed_account
  tx_fee :: u32
  tx_seq_num :: i64
  tx_cond :: "'x preconditions"
  tx_memo :: "'x memo"
  tx_operations :: "'x operation list"
  tx_ext :: "'x transaction_ext"

datatype 'x envelope =
    EnvTx "'x transaction" "'x list"
  | OtherEnvelope 'x

subsection \<open>The libraries\<close>

text \<open>
  Addresses are read and printed by \<^verbatim>\<open>stellar-strkey\<close>; values are encoded to and decoded from
  base64 text by \<^verbatim>\<open>stellar-xdr\<close>, whose errors appear only as text. \<open>debug_\<dots>\<close> are the derived
  \<open>Debug\<close> renderings.
\<close>

record 'x stellar_lib =
  contract_from_string :: "string \<Rightarrow> bytes option"
  contract_to_string :: "bytes \<Rightarrow> string"
  public_key_from_string :: "string \<Rightarrow> bytes option"
  public_key_to_string :: "bytes \<Rightarrow> string"
  debug_val :: "'x sc_val \<Rightarrow> string"
  debug_address :: "'x sc_address \<Rightarrow> string"
  debug_entry :: "'x ledger_entry_data \<Rightarrow> string"
  length_error :: string
  ledger_key_to_xdr :: "'x ledger_key \<Rightarrow> string + string"
  ledger_entry_from_xdr :: "string \<Rightarrow> string + 'x ledger_entry_data"
  envelope_to_base64 :: "'x envelope \<Rightarrow> string + string"
  envelope_from_base64 :: "string \<Rightarrow> string + 'x envelope"
  soroban_data_from_xdr :: "string \<Rightarrow> string + 'x soroban_data"
  auth_entry_from_xdr :: "string \<Rightarrow> string + 'x auth_entry"

definition xdr_err :: "string \<Rightarrow> string \<Rightarrow> engine_error" where
  "xdr_err context e = Internal (''xdr: '' @ context @ '': '' @ e)"

text \<open>\<open>VecM::try_from\<close> and \<open>StringM::try_from\<close>: a bounded sequence.\<close>

definition bounded :: "'x stellar_lib \<Rightarrow> nat \<Rightarrow> 'a list \<Rightarrow> string + 'a list" where
  "bounded lib limit xs = (if length xs \<le> limit then Ok xs else Err (length_error lib))"

subsection \<open>Addresses\<close>

definition parse_address :: "'x stellar_lib \<Rightarrow> string \<Rightarrow> engine_error + 'x sc_address" where
  "parse_address lib strkey =
     (case contract_from_string lib strkey of Some contract \<Rightarrow> Ok (ContractAddr contract)
      | None \<Rightarrow>
      (case public_key_from_string lib strkey of Some account \<Rightarrow> Ok (AccountAddr account)
       | None \<Rightarrow>
         Err (InvalidRequest ([CHR 0x27] @ strkey @ [CHR 0x27] @
           '' is not a valid Stellar account (G...) or contract (C...) address''))))"

definition parse_account :: "'x stellar_lib \<Rightarrow> string \<Rightarrow> engine_error + bytes" where
  "parse_account lib strkey =
     ok_or (public_key_from_string lib strkey)
       (InvalidRequest ([CHR 0x27] @ strkey @ [CHR 0x27] @ '' is not a valid account (G...) address''))"

fun address_to_string :: "'x stellar_lib \<Rightarrow> 'x sc_address \<Rightarrow> string" where
  "address_to_string lib (ContractAddr bytes) = contract_to_string lib bytes"
| "address_to_string lib (AccountAddr bytes) = public_key_to_string lib bytes"
| "address_to_string lib other = debug_address lib other"

definition account_id_to_string :: "'x stellar_lib \<Rightarrow> bytes \<Rightarrow> string" where
  "account_id_to_string lib i = address_to_string lib (AccountAddr i)"

subsection \<open>Scalars\<close>

text \<open>The casts between \<open>i128\<close> and \<open>u128\<close> keep the bits; a narrowing cast keeps the low ones.\<close>

definition i128_to_scval :: "i128 \<Rightarrow> 'x sc_val" where
  "i128_to_scval v = SvI128 (ucast (drop_bit 64 v)) (ucast v)"

definition scval_to_i128 :: "'x stellar_lib \<Rightarrow> 'x sc_val \<Rightarrow> engine_error + i128" where
  "scval_to_i128 lib v =
     (case v of
        SvI128 hi lo \<Rightarrow> Ok (push_bit 64 (ucast hi) OR ucast lo)
      | other \<Rightarrow> Err (Internal (''expected ScVal::I128, got '' @ debug_val lib other)))"

definition scval_to_u64 :: "'x stellar_lib \<Rightarrow> 'x sc_val \<Rightarrow> engine_error + u64" where
  "scval_to_u64 lib v =
     (case v of
        SvU64 n \<Rightarrow> Ok n
      | other \<Rightarrow> Err (Internal (''expected ScVal::U64, got '' @ debug_val lib other)))"

definition scval_to_address :: "'x stellar_lib \<Rightarrow> 'x sc_val \<Rightarrow> engine_error + 'x sc_address" where
  "scval_to_address lib v =
     (case v of
        SvAddress addr \<Rightarrow> Ok addr
      | other \<Rightarrow> Err (Internal (''expected ScVal::Address, got '' @ debug_val lib other)))"

definition symbol :: "'x stellar_lib \<Rightarrow> string \<Rightarrow> engine_error + string" where
  "symbol lib name = map_err (bounded lib 32 name) (xdr_err ''symbol'')"

definition u128_to_positive_i128 :: "u128 \<Rightarrow> string \<Rightarrow> engine_error + i128" where
  "u128_to_positive_i128 amount field =
     (if unat amount < 2 ^ 127 then Ok amount
      else Err (InvalidRequest (field @ '' ('' @ dec_of_nat (unat amount) @ '') exceeds i128::MAX'')))"

subsection \<open>Ledger keys\<close>

definition account_ledger_key :: "'x stellar_lib \<Rightarrow> string \<Rightarrow> engine_error + string" where
  "account_ledger_key lib account =
     bind_res (parse_account lib account) (\<lambda>account_id.
     map_err (ledger_key_to_xdr lib (LkAccount account_id)) (xdr_err ''account ledger key''))"

definition contract_instance_ledger_key :: "'x stellar_lib \<Rightarrow> string \<Rightarrow> engine_error + string" where
  "contract_instance_ledger_key lib contract =
     bind_res (parse_address lib contract) (\<lambda>address.
     map_err (ledger_key_to_xdr lib (LkContractData address SvLedgerKeyContractInstance Persistent))
       (xdr_err ''contract instance ledger key''))"

definition contract_persistent_ledger_key ::
  "'x stellar_lib \<Rightarrow> string \<Rightarrow> 'x sc_val \<Rightarrow> engine_error + string" where
  "contract_persistent_ledger_key lib contract key =
     bind_res (parse_address lib contract) (\<lambda>address.
     map_err (ledger_key_to_xdr lib (LkContractData address key Persistent))
       (xdr_err ''contract persistent ledger key''))"

definition sepal41_balance_key :: "'x stellar_lib \<Rightarrow> string \<Rightarrow> engine_error + 'x sc_val" where
  "sepal41_balance_key lib holder =
     bind_res (parse_address lib holder) (\<lambda>holder_addr.
     bind_res (symbol lib ''Balance'') (\<lambda>tag.
     bind_res (map_err (bounded lib (2 ^ 32 - 1) [SvSymbol tag, SvAddress holder_addr])
                 (xdr_err ''sepal41 balance key'')) (\<lambda>entries.
     Ok (SvVec (Some entries)))))"

subsection \<open>Contract storage\<close>

definition decode_contract_data_val :: "'x stellar_lib \<Rightarrow> string \<Rightarrow> engine_error + 'x sc_val" where
  "decode_contract_data_val lib entry_xdr =
     bind_res (map_err (ledger_entry_from_xdr lib entry_xdr) (xdr_err ''decode contract data entry'')) (\<lambda>data.
     case data of
       LeContractData val _ \<Rightarrow> Ok val
     | other \<Rightarrow> Err (Internal (''expected ContractData ledger entry, got '' @ debug_entry lib other)))"

definition decode_instance_storage :: "'x stellar_lib \<Rightarrow> string \<Rightarrow> engine_error + 'x sc_map" where
  "decode_instance_storage lib entry_xdr =
     bind_res (map_err (ledger_entry_from_xdr lib entry_xdr) (xdr_err ''decode contract instance entry'')) (\<lambda>data.
     case data of
       LeContractData val _ \<Rightarrow>
         (case val of
            SvContractInstance _ (Some storage) \<Rightarrow> Ok storage
          | _ \<Rightarrow> Err (Internal ''contract instance value has no typed storage map''))
     | other \<Rightarrow> Err (Internal
         (''expected a ContractData ledger entry to read contract instance storage, got '' @ debug_entry lib other)))"

fun instance_lookup :: "'x sc_map \<Rightarrow> string \<Rightarrow> engine_error + 'x sc_val" where
  "instance_lookup [] name =
     Err (Internal (''instance storage is missing required key '' @ [CHR 0x27] @ name @ [CHR 0x27]))"
| "instance_lookup ((key, val) # rest) name =
     (case key of
        SvSymbol s \<Rightarrow> if s = name then Ok val else instance_lookup rest name
      | _ \<Rightarrow> instance_lookup rest name)"

definition instance_i128 :: "'x stellar_lib \<Rightarrow> 'x sc_map \<Rightarrow> string \<Rightarrow> engine_error + i128" where
  "instance_i128 lib m name = bind_res (instance_lookup m name) (scval_to_i128 lib)"

definition instance_u64 :: "'x stellar_lib \<Rightarrow> 'x sc_map \<Rightarrow> string \<Rightarrow> engine_error + u64" where
  "instance_u64 lib m name = bind_res (instance_lookup m name) (scval_to_u64 lib)"

definition instance_address :: "'x stellar_lib \<Rightarrow> 'x sc_map \<Rightarrow> string \<Rightarrow> engine_error + 'x sc_address" where
  "instance_address lib m name =
     bind_res (instance_lookup m name) (\<lambda>val.
     case val of
       SvAddress addr \<Rightarrow> Ok addr
     | other \<Rightarrow> Err (Internal (''instance key '' @ [CHR 0x27] @ name @ [CHR 0x27] @
         '': expected ScVal::Address, got '' @ debug_val lib other)))"

subsection \<open>Envelopes\<close>

text \<open>One operation, one contract call, the next sequence number, the deadline as time bound.\<close>

definition build_invoke_envelope ::
  "'x stellar_lib \<Rightarrow> string \<Rightarrow> pool_function \<Rightarrow> 'x sc_val list \<Rightarrow> string \<Rightarrow> i64 \<Rightarrow> u32 \<Rightarrow> u64 \<Rightarrow>
     engine_error + 'x envelope" where
  "build_invoke_envelope lib contract func args source_account sequence base_fee deadline =
     bind_res (parse_address lib contract) (\<lambda>contract_address.
     bind_res (parse_account lib source_account) (\<lambda>source_key.
     bind_res (symbol lib (wire_name func)) (\<lambda>function_name.
     bind_res (map_err (bounded lib (2 ^ 32 - 1) args) (xdr_err ''args'')) (\<lambda>call_args.
     let invoke_args = \<lparr>ic_contract_address = contract_address, ic_function_name = function_name,
                        ic_args = call_args\<rparr>;
         op = \<lparr>op_source_account = None, op_body = InvokeHostFunction (InvokeContract invoke_args) []\<rparr> in
     bind_res (ok_or (checked_add_signed sequence 1) (Internal ''sequence number overflow'')) (\<lambda>seq_num.
     bind_res (map_err (bounded lib 100 [op]) (xdr_err ''operations'')) (\<lambda>operations.
     Ok (EnvTx
       \<lparr>tx_source_account = Ed25519 source_key,
        tx_fee = base_fee,
        tx_seq_num = seq_num,
        tx_cond = PrecondTime 0 deadline,
        tx_memo = MemoNone,
        tx_operations = operations,
        tx_ext = ExtV0\<rparr> [])))))))"

definition apply_simulation ::
  "'x stellar_lib \<Rightarrow> 'x envelope \<Rightarrow> 'x soroban_data \<Rightarrow> 'x auth_entry list \<Rightarrow> i64 \<Rightarrow> u32 \<Rightarrow> u32 \<Rightarrow>
     engine_error + 'x envelope" where
  "apply_simulation lib envelope soroban_data auth resource_fee base_fee fee_ceiling =
     (case envelope of
        EnvTx tx signatures \<Rightarrow>
          (case tx_operations tx of
             [op] \<Rightarrow>
               (case op_body op of
                  InvokeHostFunction host_function _ \<Rightarrow>
                    bind_res (map_err (bounded lib (2 ^ 32 - 1) auth) (xdr_err ''auth entries'')) (\<lambda>auth.
                    bind_res (ok_or (checked_add_signed (ucast base_fee) resource_fee) (Internal ''fee overflow''))
                      (\<lambda>total_fee :: i64.
                    if sint total_fee < 0 \<or> sint total_fee > int (unat fee_ceiling) then
                      Err (PreconditionFailed (''prepared fee '' @ dec_of_int (sint total_fee) @
                        '' stroops exceeds configured ceiling of '' @ dec_of_nat (unat fee_ceiling) @ '' stroops''))
                    else
                      bind_res (map_err (bounded lib 100
                                  [op\<lparr>op_body := InvokeHostFunction host_function auth\<rparr>])
                                (xdr_err ''operations'')) (\<lambda>operations.
                      Ok (EnvTx (tx\<lparr>tx_fee := ucast total_fee, tx_ext := ExtV1 soroban_data,
                                    tx_operations := operations\<rparr>) signatures))))
                | OtherBody _ \<Rightarrow> Err (Internal ''apply_simulation: operation is not InvokeHostFunction''))
           | _ \<Rightarrow> Err (Internal ''apply_simulation: expected exactly one operation''))
      | OtherEnvelope _ \<Rightarrow> Err (Internal ''apply_simulation: expected a TransactionEnvelope::Tx''))"

definition envelope_to_xdr :: "'x stellar_lib \<Rightarrow> 'x envelope \<Rightarrow> engine_error + string" where
  "envelope_to_xdr lib envelope = map_err (envelope_to_base64 lib envelope) (xdr_err ''encode envelope'')"

definition envelope_from_xdr :: "'x stellar_lib \<Rightarrow> string \<Rightarrow> engine_error + 'x envelope" where
  "envelope_from_xdr lib xdr =
     map_err (envelope_from_base64 lib xdr) (\<lambda>e. InvalidRequest (''malformed transaction XDR: '' @ e))"

definition decode_soroban_transaction_data :: "'x stellar_lib \<Rightarrow> string \<Rightarrow> engine_error + 'x soroban_data" where
  "decode_soroban_transaction_data lib xdr =
     map_err (soroban_data_from_xdr lib xdr) (\<lambda>e. AdapterError (''malformed sorobanData from RPC: '' @ e))"

definition decode_auth_entry :: "'x stellar_lib \<Rightarrow> string \<Rightarrow> engine_error + 'x auth_entry" where
  "decode_auth_entry lib xdr =
     map_err (auth_entry_from_xdr lib xdr) (\<lambda>e. AdapterError (''malformed auth entry from RPC: '' @ e))"

subsection \<open>Integers\<close>

lemma word_halves: "push_bit 64 (ucast (ucast (drop_bit 64 v) :: u64)) OR ucast (ucast v :: u64) = (v :: u128)"
  by (rule bit_word_eqI) (auto simp: bit_or_iff bit_push_bit_iff bit_ucast_iff bit_drop_bit_eq)

lemma scval_i128_roundtrip [simp]: "scval_to_i128 lib (i128_to_scval v) = Ok v"
  by (simp add: scval_to_i128_def i128_to_scval_def word_halves)

lemma i128_to_scval_inject [simp]: "(i128_to_scval v :: 'x sc_val) = i128_to_scval w \<longleftrightarrow> v = w"
proof
  assume "(i128_to_scval v :: 'x sc_val) = i128_to_scval w"
  then have "scval_to_i128 undefined (i128_to_scval v :: 'x sc_val) =
    scval_to_i128 undefined (i128_to_scval w :: 'x sc_val)" by simp
  then show "v = w" by simp
qed simp

lemma scval_to_i128_eq_Ok [res_simps]: "scval_to_i128 lib v = Ok n \<longleftrightarrow> v = i128_to_scval n"
proof
  assume ok: "scval_to_i128 lib v = Ok n"
  then obtain hi lo where v: "v = SvI128 hi lo" and n: "n = push_bit 64 (ucast hi) OR ucast lo"
    by (cases v) (auto simp: scval_to_i128_def)
  have "ucast (drop_bit 64 n) = hi"
    by (rule bit_word_eqI)
       (auto simp: n bit_or_iff bit_push_bit_iff bit_ucast_iff bit_drop_bit_eq dest: bit_imp_le_length)
  moreover have "ucast n = lo"
    by (rule bit_word_eqI) (simp add: n bit_or_iff bit_push_bit_iff bit_ucast_iff)
  ultimately show "v = i128_to_scval n" by (simp add: v i128_to_scval_def)
qed simp

lemma scval_to_u64_eq_Ok [res_simps]: "scval_to_u64 lib v = Ok n \<longleftrightarrow> v = SvU64 n"
  by (cases v) (auto simp: scval_to_u64_def)

lemma u128_to_positive_i128_Ok [res_simps]:
  "u128_to_positive_i128 a f = Ok v \<longleftrightarrow> v = a \<and> sint v = int (unat a)"
proof -
  have "sint a = signed_take_bit 127 (uint a)" by (simp add: sint_uint)
  then have "sint a = uint a \<longleftrightarrow> uint a < 2 ^ 127"
    using uint_ge_0 [of a] by (simp only: signed_take_bit_int_eq_self_iff) linarith
  then have "sint a = int (unat a) \<longleftrightarrow> int (unat a) < int (2 ^ 127)" by simp
  then have "sint a = int (unat a) \<longleftrightarrow> unat a < 2 ^ 127" by (simp only: of_nat_less_iff)
  then show ?thesis by (auto simp: u128_to_positive_i128_def)
qed

subsection \<open>Storage and envelopes\<close>

lemma parse_account_eq_Ok [res_simps]:
  "parse_account lib s = Ok k \<longleftrightarrow> public_key_from_string lib s = Some k"
  by (simp add: parse_account_def res_simps)

lemma bounded_eq_Ok [res_simps]: "bounded lib n xs = Ok ys \<longleftrightarrow> length xs \<le> n \<and> ys = xs"
  by (auto simp: bounded_def)

lemma symbol_wire_name [simp]: "symbol lib (wire_name f) = Ok (wire_name f)"
  using wire_name_short [of f] by (simp add: symbol_def bounded_def)

text \<open>A lookup returns the value of the first entry whose key is the symbol.\<close>

lemma instance_lookup_eq:
  "instance_lookup m name =
     ok_or (map_of m (SvSymbol name))
       (Internal (''instance storage is missing required key '' @ [CHR 0x27] @ name @ [CHR 0x27]))"
  by (induction m name rule: instance_lookup.induct) (auto split: sc_val.split)

lemma instance_i128_eq_Ok [res_simps]:
  "instance_i128 lib m name = Ok n \<longleftrightarrow> map_of m (SvSymbol name) = Some (i128_to_scval n)"
  by (auto simp: instance_i128_def instance_lookup_eq res_simps)

lemma instance_u64_eq_Ok [res_simps]:
  "instance_u64 lib m name = Ok n \<longleftrightarrow> map_of m (SvSymbol name) = Some (SvU64 n)"
  by (auto simp: instance_u64_def instance_lookup_eq res_simps)

lemma instance_address_eq_Ok [res_simps]:
  "instance_address lib m name = Ok a \<longleftrightarrow> map_of m (SvSymbol name) = Some (SvAddress a)"
  by (cases "map_of m (SvSymbol name)")
     (auto simp: instance_address_def instance_lookup_eq res_simps split: sc_val.split)

lemma build_invoke_envelope_Ok:
  "build_invoke_envelope lib contract f args source sequence base_fee deadline = Ok env \<longleftrightarrow>
     (\<exists>address key. parse_address lib contract = Ok address \<and> public_key_from_string lib source = Some key \<and>
        length args \<le> 2 ^ 32 - 1 \<and> sint (sequence + 1) = sint sequence + 1 \<and>
        env = EnvTx
          \<lparr>tx_source_account = Ed25519 key, tx_fee = base_fee, tx_seq_num = sequence + 1,
           tx_cond = PrecondTime 0 deadline, tx_memo = MemoNone,
           tx_operations = [\<lparr>op_source_account = None, op_body = InvokeHostFunction
             (InvokeContract \<lparr>ic_contract_address = address, ic_function_name = wire_name f, ic_args = args\<rparr>) []\<rparr>],
           tx_ext = ExtV0\<rparr> [])"
  by (auto simp: build_invoke_envelope_def res_simps Let_def checked_add_signed_def)

lemma total_fee_word:
  assumes "sint (ucast base + fee) = sint (ucast base :: i64) + sint fee"
  shows "sint (ucast (base :: u32) + (fee :: i64)) = int (unat base) + sint fee"
proof -
  have "uint base < 2 ^ 32" using uint_lt2p [of base] by simp
  then have "sint (ucast base :: i64) = int (unat base)"
    using order_trans [OF _ uint_ge_0, of "- (2 ^ 63)" base]
    by (simp add: signed_ucast_eq signed_take_bit_int_eq_self_iff)
  with assms show ?thesis by simp
qed

lemma apply_simulation_Ok:
  assumes "apply_simulation lib (EnvTx tx sigs) data auth resource_fee base_fee ceiling = Ok env"
  obtains op hf old total where "tx_operations tx = [op]" "op_body op = InvokeHostFunction hf old"
    "int (unat (total :: u32)) = int (unat base_fee) + sint resource_fee" "total \<le> ceiling"
    "env = EnvTx (tx\<lparr>tx_fee := total, tx_ext := ExtV1 data,
             tx_operations := [op\<lparr>op_body := InvokeHostFunction hf auth\<rparr>]\<rparr>) sigs"
proof -
  from assms obtain op hf old and t :: i64 where op: "tx_operations tx = [op]" "op_body op = InvokeHostFunction hf old"
    and t: "t = ucast base_fee + resource_fee" "sint t = sint (ucast base_fee :: i64) + sint resource_fee"
    and le: "0 \<le> sint t" "sint t \<le> int (unat ceiling)"
    and env: "env = EnvTx (tx\<lparr>tx_fee := ucast t, tx_ext := ExtV1 data,
             tx_operations := [op\<lparr>op_body := InvokeHostFunction hf auth\<rparr>]\<rparr>) sigs"
    by (auto simp: apply_simulation_def res_simps checked_add_signed_def not_less split: list.splits operation_body.splits if_splits)
  have sint_t: "sint t = int (unat base_fee) + sint resource_fee"
    using t(2) total_fee_word unfolding t(1) by blast
  have "sint t < 2 ^ 32" using le(2) uint_lt2p [of ceiling] by simp
  with le(1) have "int (unat (ucast t :: u32)) = sint t"
    by (simp add: unsigned_ucast_eq take_bit_of_nat [symmetric] uint_sint [of t] take_bit_int_eq_self
          del: take_bit_of_nat)
  with sint_t le(2) that [OF op] env show thesis
    by (metis of_nat_le_iff word_le_nat_alt)
qed

end
