(* ===== verification/Pool_Prepare.thy ===== *)
theory Pool_Prepare
  imports Config Soroban Pool_Xdr
begin

text \<open>
  Construct, simulate, validate: the preparation pipeline of \<^verbatim>\<open>src/pool/prepare.rs\<close>. \<open>prepare\<close>
  reads the account's sequence number, builds the call, has it simulated, attaches what the
  simulation found and returns the transaction only after its encoding has been decoded and
  checked by \<open>validate\<close>; \<open>validate\<close> also stands alone and checks any transaction handed in. The
  clock reading is an argument. The properties say what a transaction that is handed back, or
  accepted, does.
\<close>

subsection \<open>Requests and summaries\<close>

record prepare_params =
  pp_network :: network
  pp_source_account :: string
  pp_deadline :: u64

record auth_summary =
  as_kind :: string
  as_address :: "string option"

text \<open>A JSON object of the library is a map sorted by key.\<close>

fun btree_insert :: "string \<Rightarrow> json \<Rightarrow> (string \<times> json) list \<Rightarrow> (string \<times> json) list" where
  "btree_insert k v [] = [(k, v)]"
| "btree_insert k v ((k', v') # m) =
     (if k = k' then (k, v) # m
      else if k < k' then (k, v) # (k', v') # m
      else (k', v') # btree_insert k v m)"

record review_summary =
  rs_spec_hash :: string
  rs_contract :: string
  rs_function :: string
  rs_args :: json
  rs_source_account :: string
  rs_sequence :: i64
  rs_fee_stroops :: u32
  rs_resource_fee_stroops :: "i64 option"
  rs_deadline :: u64
  rs_operation_count :: nat
  rs_auth_entry_count :: nat
  rs_auth :: "auth_summary list"

record prepared_transaction =
  pt_xdr :: string
  pt_review :: review_summary

record validate_context =
  vc_network :: network
  vc_declared_network :: network
  vc_contract_id :: string
  vc_fee_ceiling_stroops :: u32
  vc_now :: u64
  vc_expected_sequence :: "i64 option"

subsection \<open>Arguments as JSON\<close>

definition scval_to_json :: "'x stellar_lib \<Rightarrow> 'x sc_val \<Rightarrow> abi_type option \<Rightarrow> json" where
  "scval_to_json lib val expected =
     (case expected of
        Some Address \<Rightarrow>
          (case val of SvAddress addr \<Rightarrow> JString (address_to_string lib addr) | other \<Rightarrow> JString (debug_val lib other))
      | Some I128 \<Rightarrow>
          (case scval_to_i128 lib val of Ok v \<Rightarrow> JString (dec_of_int (sint v)) | Err _ \<Rightarrow> JString (debug_val lib val))
      | Some U64 \<Rightarrow>
          (case scval_to_u64 lib val of Ok v \<Rightarrow> JNumber (dec_of_nat (unat v)) | Err _ \<Rightarrow> JString (debug_val lib val))
      | None \<Rightarrow> JString (debug_val lib val))"

text \<open>One argument at a time, under the name of its parameter.\<close>

fun args_to_map :: "'x stellar_lib \<Rightarrow> abi_param list \<Rightarrow> nat \<Rightarrow> 'x sc_val list \<Rightarrow> (string \<times> json) list \<Rightarrow> (string \<times> json) list" where
  "args_to_map lib ps i [] m = m"
| "args_to_map lib ps i (val # vals) m =
     (let key = (if i < length ps then ap_name (ps ! i) else ''arg_'' @ dec_of_nat i);
          ty = (if i < length ps then Some (ap_ty (ps ! i)) else None) in
      args_to_map lib ps (Suc i) vals (btree_insert key (scval_to_json lib val ty) m))"

definition args_to_json :: "'x stellar_lib \<Rightarrow> pool_function \<Rightarrow> 'x sc_val list \<Rightarrow> json" where
  "args_to_json lib f args = JObject (args_to_map lib (params f) 0 args [])"

definition decode_account_sequence :: "'x stellar_lib \<Rightarrow> string \<Rightarrow> engine_error + i64" where
  "decode_account_sequence lib entry_data_xdr =
     bind_res (map_err (ledger_entry_from_xdr lib entry_data_xdr)
                 (\<lambda>e. AdapterError (''malformed account ledger entry: '' @ e))) (\<lambda>data.
     case data of
       LeAccount seq_num _ \<Rightarrow> Ok seq_num
     | other \<Rightarrow> Err (Internal (''expected Account ledger entry, got '' @ debug_entry lib other)))"

text \<open>The position of the deadline among the parameters, by name.\<close>

fun position :: "('a \<Rightarrow> bool) \<Rightarrow> 'a list \<Rightarrow> nat option" where
  "position P [] = None"
| "position P (x # xs) = (if P x then Some 0 else map_option Suc (position P xs))"

definition deadline_argument :: "'x stellar_lib \<Rightarrow> pool_function \<Rightarrow> 'x sc_val list \<Rightarrow> engine_error + u64" where
  "deadline_argument lib func args =
     bind_res (ok_or (position (\<lambda>p. ap_name p = ''deadline'') (params func))
                 (Internal (wire_name func @ '' has no '' @ [CHR 0x27] @ ''deadline'' @ [CHR 0x27] @
                    '' parameter in the manifest''))) (\<lambda>i.
     bind_res (ok_or (if i < length args then Some (args ! i) else None)
                 (Internal ''argument count did not match the manifest'')) (\<lambda>v.
     scval_to_u64 lib v))"

definition source_of :: "'x stellar_lib \<Rightarrow> muxed_account \<Rightarrow> string" where
  "source_of lib account =
     account_id_to_string lib (case account of Ed25519 key \<Rightarrow> key | MuxedEd25519 _ key \<Rightarrow> key)"

definition auth_summary_of :: "'x stellar_lib \<Rightarrow> 'x auth_entry \<Rightarrow> auth_summary" where
  "auth_summary_of lib entry =
     (case ae_credentials entry of
        SourceAccount \<Rightarrow> \<lparr>as_kind = ''source_account'', as_address = None\<rparr>
      | AddressCredentials address _ \<Rightarrow>
          \<lparr>as_kind = ''address'', as_address = Some (address_to_string lib address)\<rparr>)"

subsection \<open>Validate\<close>

definition validate_call ::
  "'x stellar_lib \<Rightarrow> (string \<Rightarrow> string) \<Rightarrow> validate_context \<Rightarrow> 'x transaction \<Rightarrow> 'x invoke_contract_args \<Rightarrow>
     'x auth_entry list \<Rightarrow> engine_error + review_summary" where
  "validate_call lib sha256_hex ctx tx call auth =
     (let contract_str = address_to_string lib (ic_contract_address call) in
      if contract_str \<noteq> vc_contract_id ctx then
        Err (InvalidRequest (''transaction targets contract '' @ contract_str @ '', expected '' @ vc_contract_id ctx))
      else
      bind_res (require_known_function (utf8_lossy (ic_function_name call)) (length (ic_args call))) (\<lambda>func.
      bind_res (deadline_argument lib func (ic_args call)) (\<lambda>deadline.
      if deadline \<le> vc_now ctx then
        Err (PreconditionFailed (''deadline '' @ dec_of_nat (unat deadline) @ '' has expired (as of '' @
               dec_of_nat (unat (vc_now ctx)) @ '')''))
      else if vc_fee_ceiling_stroops ctx < tx_fee tx then
        Err (PreconditionFailed (''fee '' @ dec_of_nat (unat (tx_fee tx)) @
               '' stroops exceeds configured ceiling of '' @ dec_of_nat (unat (vc_fee_ceiling_stroops ctx)) @ '' stroops''))
      else
      bind_res (case vc_expected_sequence ctx of
          None \<Rightarrow> Ok ()
        | Some expected_seq \<Rightarrow>
            if tx_seq_num tx \<noteq> expected_seq + 1 then
              Err (PreconditionFailed (''transaction sequence '' @ dec_of_int (sint (tx_seq_num tx)) @
                '' does not follow the current account sequence '' @ dec_of_int (sint expected_seq) @ '' '' @ em_dash @
                '' stale or replayed transaction''))
            else Ok ()) (\<lambda>_.
      Ok \<lparr>rs_spec_hash = spec_hash sha256_hex,
          rs_contract = contract_str,
          rs_function = wire_name func,
          rs_args = args_to_json lib func (ic_args call),
          rs_source_account = source_of lib (tx_source_account tx),
          rs_sequence = tx_seq_num tx,
          rs_fee_stroops = tx_fee tx,
          rs_resource_fee_stroops = (case tx_ext tx of ExtV1 data \<Rightarrow> Some (sd_resource_fee data) | ExtV0 \<Rightarrow> None),
          rs_deadline = deadline,
          rs_operation_count = length (tx_operations tx),
          rs_auth_entry_count = length auth,
          rs_auth = map (auth_summary_of lib) auth\<rparr>))))"

definition validate_tx ::
  "'x stellar_lib \<Rightarrow> (string \<Rightarrow> string) \<Rightarrow> string \<Rightarrow> validate_context \<Rightarrow> engine_error + review_summary" where
  "validate_tx lib sha256_hex xdr ctx =
     (if vc_declared_network ctx \<noteq> vc_network ctx then
        Err (InvalidRequest (''declared network '' @ network_debug (vc_declared_network ctx) @
               '' does not match this engine'' @ [CHR 0x27] @ ''s configured network '' @ network_debug (vc_network ctx)))
      else
      bind_res (envelope_from_xdr lib xdr) (\<lambda>envelope.
      case envelope of
        OtherEnvelope _ \<Rightarrow> Err (InvalidRequest ''only TransactionV1Envelope (Tx) is accepted'')
      | EnvTx tx _ \<Rightarrow>
          (case tx_operations tx of
             [op] \<Rightarrow>
               (case op_body op of
                  OtherBody _ \<Rightarrow> Err (InvalidRequest ''the operation is not an InvokeHostFunction call'')
                | InvokeHostFunction host_function auth \<Rightarrow>
                    (case host_function of
                       OtherHostFunction _ \<Rightarrow> Err (InvalidRequest
                         ''only direct contract invocation is accepted (no contract/wasm creation)'')
                     | InvokeContract call \<Rightarrow> validate_call lib sha256_hex ctx tx call auth))
           | ops \<Rightarrow> Err (InvalidRequest (''expected exactly 1 operation, found '' @ dec_of_nat (length ops) @
               '' '' @ em_dash @ '' extra operations are rejected'')))))"

subsection \<open>Prepare\<close>

text \<open>What is taken from the simulation.\<close>

definition simulated ::
  "'x stellar_lib \<Rightarrow> simulate_transaction_response \<Rightarrow> engine_error + 'x soroban_data \<times> 'x auth_entry list \<times> i64" where
  "simulated lib sim =
     (case st_error sim of
        Some err \<Rightarrow> Err (PreconditionFailed (''simulation failed: '' @ err))
      | None \<Rightarrow>
        if st_restore_preamble sim \<noteq> None then
          Err (PreconditionFailed (''one or more ledger entries this call touches have expired and must be restored '' @
            ''(RestoreFootprint) before this transaction can be simulated''))
        else
        bind_res (ok_or (st_transaction_data sim)
                    (AdapterError ''simulateTransaction returned no transactionData'')) (\<lambda>transaction_data_xdr.
        bind_res (ok_or (st_min_resource_fee sim)
                    (AdapterError ''simulateTransaction returned no minResourceFee'')) (\<lambda>fee_text.
        bind_res (ok_or (parse_i64 fee_text)
                    (AdapterError ''minResourceFee is not a valid integer'')) (\<lambda>min_resource_fee.
        let auth_xdrs = (case st_results sim of r # _ \<Rightarrow> sr_auth r | [] \<Rightarrow> []) in
        bind_res (decode_soroban_transaction_data lib transaction_data_xdr) (\<lambda>soroban_data.
        bind_res (collect_res (map (decode_auth_entry lib) auth_xdrs)) (\<lambda>auth_entries.
        Ok (soroban_data, auth_entries, min_resource_fee)))))))"

definition account_sequence ::
  "'x stellar_lib \<Rightarrow> rpc_codec \<Rightarrow> 'w transport \<Rightarrow> string \<Rightarrow> 'w \<Rightarrow> (engine_error + i64) \<times> 'w" where
  "account_sequence lib codec call source =
     bind_st (lift_res (account_ledger_key lib source)) (\<lambda>account_key.
     bind_st (get_ledger_entries codec call [account_key]) (\<lambda>entries.
     lift_res (
       bind_res (ok_or (case entries of e # _ \<Rightarrow> Some e | [] \<Rightarrow> None)
                   (PreconditionFailed (''source account '' @ source @ '' not found on this network''))) (\<lambda>entry.
       decode_account_sequence lib (le_xdr entry)))))"

definition prepare ::
  "'x stellar_lib \<Rightarrow> (string \<Rightarrow> string) \<Rightarrow> rpc_codec \<Rightarrow> 'w transport \<Rightarrow> pool_config \<Rightarrow> network \<Rightarrow> pool_function \<Rightarrow>
     'x sc_val list \<Rightarrow> prepare_params \<Rightarrow> u64 \<Rightarrow> 'w \<Rightarrow> (engine_error + prepared_transaction) \<times> 'w" where
  "prepare lib sha256_hex codec call pool engine_network func args req now =
     (if pp_network req \<noteq> engine_network then
        lift_res (Err (InvalidRequest (''request declared network '' @ network_debug (pp_network req) @
          '' but this engine is configured for '' @ network_debug engine_network)))
      else if pp_deadline req \<le> now then
        lift_res (Err (PreconditionFailed (''deadline '' @ dec_of_nat (unat (pp_deadline req)) @
          '' is not in the future (engine clock: '' @ dec_of_nat (unat now) @ '')'')))
      else
      bind_st (account_sequence lib codec call (pp_source_account req)) (\<lambda>sequence.
      bind_st (lift_res (build_invoke_envelope lib (pc_contract_id pool) func args (pp_source_account req) sequence
                 (pc_base_fee_stroops pool) (pp_deadline req))) (\<lambda>unsimulated.
      bind_st (lift_res (envelope_to_xdr lib unsimulated)) (\<lambda>unsimulated_xdr.
      bind_st (simulate_transaction codec call unsimulated_xdr) (\<lambda>sim.
      bind_st (lift_res (simulated lib sim)) (\<lambda>(soroban_data, auth_entries, min_resource_fee).
      bind_st (lift_res (apply_simulation lib unsimulated soroban_data auth_entries min_resource_fee
                 (pc_base_fee_stroops pool) (pc_fee_ceiling_stroops pool))) (\<lambda>prepared.
      bind_st (lift_res (envelope_to_xdr lib prepared)) (\<lambda>prepared_xdr.
      bind_st (lift_res (validate_tx lib sha256_hex prepared_xdr
                 \<lparr>vc_network = engine_network, vc_declared_network = pp_network req,
                  vc_contract_id = pc_contract_id pool, vc_fee_ceiling_stroops = pc_fee_ceiling_stroops pool,
                  vc_now = now, vc_expected_sequence = Some sequence\<rparr>)) (\<lambda>review.
      lift_res (
        if rs_args review \<noteq> args_to_json lib func args then
          Err (PreconditionFailed (''simulation altered the transaction'' @ [CHR 0x27] @ ''s invocation arguments '' @
            em_dash @ '' refusing to return a transaction whose effect differs from what was requested''))
        else Ok \<lparr>pt_xdr = prepared_xdr, pt_review = review\<rparr>))))))))))"

subsection \<open>Encoding the arguments\<close>

definition amount_arg :: "u128 \<Rightarrow> string \<Rightarrow> engine_error + 'x sc_val" where
  "amount_arg amount field = bind_res (u128_to_positive_i128 amount field) (\<lambda>v. Ok (i128_to_scval v))"

definition address_arg :: "'x stellar_lib \<Rightarrow> string \<Rightarrow> engine_error + 'x sc_val" where
  "address_arg lib a = bind_res (parse_address lib a) (\<lambda>addr. Ok (SvAddress addr))"

definition encode_swap_args ::
  "'x stellar_lib \<Rightarrow> string \<Rightarrow> u128 \<Rightarrow> u128 \<Rightarrow> u64 \<Rightarrow> engine_error + 'x sc_val list" where
  "encode_swap_args lib to_addr amount_0_out amount_1_out deadline =
     collect_res [address_arg lib to_addr, amount_arg amount_0_out ''amount_0_out'',
                  amount_arg amount_1_out ''amount_1_out'', Ok (SvU64 deadline)]"

definition encode_add_liquidity_args ::
  "'x stellar_lib \<Rightarrow> string \<Rightarrow> string \<Rightarrow> u128 \<Rightarrow> u128 \<Rightarrow> u128 \<Rightarrow> u128 \<Rightarrow> u64 \<Rightarrow> engine_error + 'x sc_val list" where
  "encode_add_liquidity_args lib from_addr to_addr amount_0_desired amount_1_desired amount_0_min amount_1_min deadline =
     collect_res [address_arg lib from_addr, address_arg lib to_addr,
                  amount_arg amount_0_desired ''amount_0_desired'', amount_arg amount_1_desired ''amount_1_desired'',
                  amount_arg amount_0_min ''amount_0_min'', amount_arg amount_1_min ''amount_1_min'',
                  Ok (SvU64 deadline)]"

definition encode_remove_liquidity_args ::
  "'x stellar_lib \<Rightarrow> string \<Rightarrow> string \<Rightarrow> u128 \<Rightarrow> u128 \<Rightarrow> u128 \<Rightarrow> u64 \<Rightarrow> engine_error + 'x sc_val list" where
  "encode_remove_liquidity_args lib from_addr to_addr liquidity amount_0_min amount_1_min deadline =
     collect_res [address_arg lib from_addr, address_arg lib to_addr, amount_arg liquidity ''liquidity'',
                  amount_arg amount_0_min ''amount_0_min'', amount_arg amount_1_min ''amount_1_min'',
                  Ok (SvU64 deadline)]"

subsection \<open>What validation accepts\<close>

lemma position_last:
  "\<forall>x \<in> set xs. \<not> P x \<Longrightarrow> P y \<Longrightarrow> position P (xs @ [y]) = Some (length xs)"
  by (induction xs) simp_all

lemma deadline_position:
  "position (\<lambda>p. ap_name p = ''deadline'') (params f) = Some (length (params f) - 1)" "params f \<noteq> []"
proof -
  obtain ps where ps: "params f = ps @ [param ''deadline'' U64]" "''deadline'' \<notin> set (map ap_name ps)"
    using params_deadline by blast
  have "position (\<lambda>p. ap_name p = ''deadline'') (ps @ [param ''deadline'' U64]) = Some (length ps)"
    using ps(2) by (intro position_last) (force simp: param_def)+
  then show "position (\<lambda>p. ap_name p = ''deadline'') (params f) = Some (length (params f) - 1)" "params f \<noteq> []"
    by (simp_all add: ps(1))
qed

lemma deadline_argument_Ok:
  assumes "length args = length (params f)"
  shows "deadline_argument lib f args = Ok d \<longleftrightarrow> last args = SvU64 d"
proof -
  have "args \<noteq> []" using assms deadline_position(2) [of f] by auto
  then have "length args - 1 < length args" "args ! (length args - 1) = last args"
    by (simp_all add: last_conv_nth)
  with assms deadline_position(1) [of f] show ?thesis
    by (simp add: deadline_argument_def res_simps)
qed

text \<open>The call that a transaction makes, when it is a single contract call.\<close>

fun single_call :: "'x envelope \<Rightarrow> ('x transaction \<times> 'x invoke_contract_args \<times> 'x auth_entry list) option" where
  "single_call (EnvTx tx _) =
     (case tx_operations tx of
        [op] \<Rightarrow> (case op_body op of
          InvokeHostFunction (InvokeContract call) auth \<Rightarrow> Some (tx, call, auth)
        | _ \<Rightarrow> None)
      | _ \<Rightarrow> None)"
| "single_call (OtherEnvelope _) = None"

definition review_of ::
  "'x stellar_lib \<Rightarrow> (string \<Rightarrow> string) \<Rightarrow> pool_function \<Rightarrow> u64 \<Rightarrow> 'x transaction \<Rightarrow> 'x invoke_contract_args \<Rightarrow>
     'x auth_entry list \<Rightarrow> review_summary" where
  "review_of lib sha256_hex f deadline tx call auth =
     \<lparr>rs_spec_hash = spec_hash sha256_hex,
      rs_contract = address_to_string lib (ic_contract_address call),
      rs_function = wire_name f,
      rs_args = args_to_json lib f (ic_args call),
      rs_source_account = source_of lib (tx_source_account tx),
      rs_sequence = tx_seq_num tx,
      rs_fee_stroops = tx_fee tx,
      rs_resource_fee_stroops = (case tx_ext tx of ExtV1 data \<Rightarrow> Some (sd_resource_fee data) | ExtV0 \<Rightarrow> None),
      rs_deadline = deadline,
      rs_operation_count = length (tx_operations tx),
      rs_auth_entry_count = length auth,
      rs_auth = map (auth_summary_of lib) auth\<rparr>"

text \<open>The policy on such a call.\<close>

definition call_allowed ::
  "'x stellar_lib \<Rightarrow> validate_context \<Rightarrow> pool_function \<Rightarrow> u64 \<Rightarrow> 'x transaction \<Rightarrow> 'x invoke_contract_args \<Rightarrow> bool" where
  "call_allowed lib ctx f deadline tx call \<longleftrightarrow>
     address_to_string lib (ic_contract_address call) = vc_contract_id ctx \<and>
     ic_function_name call = wire_name f \<and>
     length (ic_args call) = length (params f) \<and> last (ic_args call) = SvU64 deadline \<and>
     vc_now ctx < deadline \<and> tx_fee tx \<le> vc_fee_ceiling_stroops ctx \<and>
     (\<forall>n. vc_expected_sequence ctx = Some n \<longrightarrow> tx_seq_num tx = n + 1)"

lemma utf8_lossy_wire_name: "utf8_lossy s = wire_name f \<longleftrightarrow> s = wire_name f"
  by (rule utf8_lossy_eq_ascii [OF wire_name_ascii])

lemma sequence_check_Ok:
  "(case opt of None \<Rightarrow> Ok () | Some n \<Rightarrow> if s \<noteq> n + 1 then Err (e n) else Ok ()) = Ok u \<longleftrightarrow>
     (\<forall>n. opt = Some n \<longrightarrow> s = n + (1 :: i64))"
  by (auto split: option.split)

lemma validate_call_Ok:
  "validate_call lib sha256_hex ctx tx call auth = Ok review \<longleftrightarrow>
     (\<exists>f deadline. call_allowed lib ctx f deadline tx call \<and>
        review = review_of lib sha256_hex f deadline tx call auth)"
  unfolding validate_call_def call_allowed_def review_of_def Let_def
  by (simp only: res_simps utf8_lossy_wire_name sequence_check_Ok sum.inject not_not not_le not_less)
     (auto simp: deadline_argument_Ok)

lemma single_call_case:
  "(case env of
        OtherEnvelope _ \<Rightarrow> Err e0
      | EnvTx tx _ \<Rightarrow>
          (case tx_operations tx of
             [] \<Rightarrow> Err e1
           | op # ops \<Rightarrow>
               (case ops of
                  [] \<Rightarrow>
                    (case op_body op of
                       OtherBody _ \<Rightarrow> Err e2
                     | InvokeHostFunction host_function auth \<Rightarrow>
                         (case host_function of
                            OtherHostFunction _ \<Rightarrow> Err e3
                          | InvokeContract call \<Rightarrow> h tx call auth))
                | op' # ops' \<Rightarrow> Err (e4 op op' ops')))) = Ok r \<longleftrightarrow>
      (\<exists>tx call auth. single_call env = Some (tx, call, auth) \<and> h tx call auth = Ok r)"
  by (cases env) (auto split: list.split operation_body.split host_function.split)

lemma validate_tx_Ok:
  "validate_tx lib sha256_hex xdr ctx = Ok review \<longleftrightarrow>
     vc_declared_network ctx = vc_network ctx \<and>
     (\<exists>env tx call auth f deadline. envelope_from_base64 lib xdr = Ok env \<and>
        single_call env = Some (tx, call, auth) \<and> call_allowed lib ctx f deadline tx call \<and>
        review = review_of lib sha256_hex f deadline tx call auth)"
  unfolding validate_tx_def envelope_from_xdr_def
  by (simp only: res_simps single_call_case validate_call_Ok not_not) blast

subsection \<open>What preparation returns\<close>

text \<open>What is used of the codec: decoding an encoded envelope gives it back.\<close>

definition envelope_codec :: "'x stellar_lib \<Rightarrow> bool" where
  "envelope_codec lib \<longleftrightarrow>
     (\<forall>env text. envelope_to_base64 lib env = Ok text \<longrightarrow> envelope_from_base64 lib text = Ok env)"

text \<open>The transaction of one call, before and after simulation.\<close>

definition call_transaction ::
  "bytes \<Rightarrow> 'x sc_address \<Rightarrow> pool_function \<Rightarrow> 'x sc_val list \<Rightarrow> i64 \<Rightarrow> u64 \<Rightarrow> u32 \<Rightarrow> 'x soroban_data \<Rightarrow>
     'x auth_entry list \<Rightarrow> 'x transaction" where
  "call_transaction key address f args sequence deadline fee data auth =
     \<lparr>tx_source_account = Ed25519 key, tx_fee = fee, tx_seq_num = sequence + 1,
      tx_cond = PrecondTime 0 deadline, tx_memo = MemoNone,
      tx_operations = [\<lparr>op_source_account = None, op_body = InvokeHostFunction
        (InvokeContract \<lparr>ic_contract_address = address, ic_function_name = wire_name f, ic_args = args\<rparr>) auth\<rparr>],
      tx_ext = ExtV1 data\<rparr>"

lemma single_call_transaction [simp]:
  "single_call (EnvTx (call_transaction key address f args sequence deadline fee data auth) sigs) =
     Some (call_transaction key address f args sequence deadline fee data auth,
       \<lparr>ic_contract_address = address, ic_function_name = wire_name f, ic_args = args\<rparr>, auth)"
  by (simp add: call_transaction_def)

lemma simulated_envelope:
  assumes "build_invoke_envelope lib contract f args source sequence base_fee deadline = Ok env"
    and "apply_simulation lib env data auth resource_fee base_fee ceiling = Ok env'"
  obtains address key fee where "parse_address lib contract = Ok address"
    "public_key_from_string lib source = Some key" "int (unat fee) = int (unat base_fee) + sint resource_fee"
    "fee \<le> ceiling"
    "env' = EnvTx (call_transaction key address f args sequence deadline fee data auth) []"
    "sint (sequence + 1) = sint sequence + 1"
proof -
  from assms(1) obtain address key where b: "parse_address lib contract = Ok address"
      "public_key_from_string lib source = Some key" "sint (sequence + 1) = sint sequence + 1"
      "env = EnvTx
        \<lparr>tx_source_account = Ed25519 key, tx_fee = base_fee, tx_seq_num = sequence + 1,
         tx_cond = PrecondTime 0 deadline, tx_memo = MemoNone,
         tx_operations = [\<lparr>op_source_account = None, op_body = InvokeHostFunction
           (InvokeContract \<lparr>ic_contract_address = address, ic_function_name = wire_name f, ic_args = args\<rparr>) []\<rparr>],
         tx_ext = ExtV0\<rparr> []"
    unfolding build_invoke_envelope_Ok by blast
  show thesis
    using assms(2) unfolding b(4)
    by (rule apply_simulation_Ok) (use b(1-3) that in \<open>auto simp: call_transaction_def\<close>)
qed

lemma prepare_Ok:
  assumes "prepare lib sha256_hex codec call pool net f args req now w = (Ok p, w')"
    and "envelope_codec lib"
  obtains sequence w1 address key fee data auth resource_fee
  where "pp_network req = net" "now < pp_deadline req"
    "account_sequence lib codec call (pp_source_account req) w = (Ok sequence, w1)"
    "parse_address lib (pc_contract_id pool) = Ok address"
    "public_key_from_string lib (pp_source_account req) = Some key"
    "int (unat fee) = int (unat (pc_base_fee_stroops pool)) + sint (resource_fee :: i64)"
    "fee \<le> pc_fee_ceiling_stroops pool" "sint (sequence + 1) = sint sequence + 1"
    "envelope_from_base64 lib (pt_xdr p) =
       Ok (EnvTx (call_transaction key address f args sequence (pp_deadline req) fee data auth) [])"
    "validate_tx lib sha256_hex (pt_xdr p)
       \<lparr>vc_network = net, vc_declared_network = net, vc_contract_id = pc_contract_id pool,
        vc_fee_ceiling_stroops = pc_fee_ceiling_stroops pool, vc_now = now,
        vc_expected_sequence = Some sequence\<rparr> = Ok (pt_review p)"
    "rs_args (pt_review p) = args_to_json lib f args"
proof -
  have net: "pp_network req = net" and now: "now < pp_deadline req"
    using assms(1) by (auto simp: prepare_def res_simps not_le split: if_splits)
  from assms(1) obtain sequence w1 env utext sim data auth rfee env' where
    seq: "account_sequence lib codec call (pp_source_account req) w = (Ok sequence, w1)"
    and build: "build_invoke_envelope lib (pc_contract_id pool) f args (pp_source_account req) sequence
         (pc_base_fee_stroops pool) (pp_deadline req) = Ok env"
    and sim: "simulated lib sim = Ok (data, auth, rfee)"
    and app: "apply_simulation lib env data auth rfee (pc_base_fee_stroops pool) (pc_fee_ceiling_stroops pool) = Ok env'"
    and enc: "envelope_to_xdr lib env' = Ok (pt_xdr p)"
    and val: "validate_tx lib sha256_hex (pt_xdr p)
       \<lparr>vc_network = net, vc_declared_network = net, vc_contract_id = pc_contract_id pool,
        vc_fee_ceiling_stroops = pc_fee_ceiling_stroops pool, vc_now = now,
        vc_expected_sequence = Some sequence\<rparr> = Ok (pt_review p)"
    and args: "rs_args (pt_review p) = args_to_json lib f args"
    using net now unfolding prepare_def
    by (auto simp: res_simps not_le[symmetric] split: if_splits prod.splits)
  have dec: "envelope_from_base64 lib (pt_xdr p) = Ok env'"
    using enc assms(2) by (auto simp: envelope_to_xdr_def envelope_codec_def res_simps)
  obtain address key fee where tx: "parse_address lib (pc_contract_id pool) = Ok address"
    "public_key_from_string lib (pp_source_account req) = Some key"
    "int (unat fee) = int (unat (pc_base_fee_stroops pool)) + sint rfee" "fee \<le> pc_fee_ceiling_stroops pool"
    "env' = EnvTx (call_transaction key address f args sequence (pp_deadline req) fee data auth) []"
    "sint (sequence + 1) = sint sequence + 1"
    using build app by (rule simulated_envelope)
  show thesis using that [OF net now seq tx(1-4,6) _ val args] dec tx(5) by simp
qed

subsection \<open>The arguments survive the encoding\<close>

lemma amount_arg_Ok [res_simps]:
  "amount_arg amount field = Ok v \<longleftrightarrow> unat amount < 2 ^ 127 \<and> v = i128_to_scval amount"
  by (auto simp: amount_arg_def u128_to_positive_i128_def)

lemma address_arg_Ok [res_simps]:
  "address_arg lib a = Ok v \<longleftrightarrow> (\<exists>addr. parse_address lib a = Ok addr \<and> v = SvAddress addr)"
  by (auto simp: address_arg_def res_simps)

lemma sint_positive: "unat (a :: u128) < 2 ^ 127 \<Longrightarrow> sint a = int (unat a)"
  using u128_to_positive_i128_Ok [of a "[]" a] by (simp add: u128_to_positive_i128_def)

lemma amount_json:
  "unat amount < 2 ^ 127 \<Longrightarrow> scval_to_json lib (i128_to_scval amount) (Some I128) = JString (dec_of_nat (unat amount))"
  by (simp add: scval_to_json_def sint_positive dec_of_int_def)

lemma address_json: "scval_to_json lib (SvAddress a) (Some Address) = JString (address_to_string lib a)"
  by (simp add: scval_to_json_def)

lemma deadline_json: "scval_to_json lib (SvU64 d) (Some U64) = JNumber (dec_of_nat (unat d))"
  by (simp add: scval_to_json_def scval_to_u64_def)

lemmas arg_json = amount_json address_json deadline_json
lemmas args_json_defs = args_to_json_def Let_def param_list_defs less_char_def

lemma encode_swap_args_Ok:
  assumes "encode_swap_args lib to_addr a0 a1 deadline = Ok args"
  obtains addr where "parse_address lib to_addr = Ok addr" "unat a0 < 2 ^ 127" "unat a1 < 2 ^ 127"
    "args = [SvAddress addr, i128_to_scval a0, i128_to_scval a1, SvU64 deadline]"
  using assms by (auto simp: encode_swap_args_def res_simps)

lemma encode_add_liquidity_args_Ok:
  assumes "encode_add_liquidity_args lib from_addr to_addr d0 d1 m0 m1 deadline = Ok args"
  obtains f t where "parse_address lib from_addr = Ok f" "parse_address lib to_addr = Ok t"
    "unat d0 < 2 ^ 127" "unat d1 < 2 ^ 127" "unat m0 < 2 ^ 127" "unat m1 < 2 ^ 127"
    "args = [SvAddress f, SvAddress t, i128_to_scval d0, i128_to_scval d1, i128_to_scval m0, i128_to_scval m1,
       SvU64 deadline]"
  using assms by (auto simp: encode_add_liquidity_args_def res_simps)

lemma encode_remove_liquidity_args_Ok:
  assumes "encode_remove_liquidity_args lib from_addr to_addr l m0 m1 deadline = Ok args"
  obtains f t where "parse_address lib from_addr = Ok f" "parse_address lib to_addr = Ok t"
    "unat l < 2 ^ 127" "unat m0 < 2 ^ 127" "unat m1 < 2 ^ 127"
    "args = [SvAddress f, SvAddress t, i128_to_scval l, i128_to_scval m0, i128_to_scval m1, SvU64 deadline]"
  using assms by (auto simp: encode_remove_liquidity_args_def res_simps)

lemma swap_json:
  assumes "unat a0 < 2 ^ 127" and "unat a1 < 2 ^ 127"
  shows "args_to_json lib Swap [SvAddress a, i128_to_scval a0, i128_to_scval a1, SvU64 d] =
    JObject [(''amount_0_out'', JString (dec_of_nat (unat a0))), (''amount_1_out'', JString (dec_of_nat (unat a1))),
      (''deadline'', JNumber (dec_of_nat (unat d))), (''to'', JString (address_to_string lib a))]"
  using assms by (simp add: args_json_defs arg_json)

lemma add_liquidity_json:
  assumes "unat d0 < 2 ^ 127" "unat d1 < 2 ^ 127" "unat m0 < 2 ^ 127" "unat m1 < 2 ^ 127"
  shows "args_to_json lib AddLiquidity [SvAddress f, SvAddress t, i128_to_scval d0, i128_to_scval d1,
      i128_to_scval m0, i128_to_scval m1, SvU64 d] =
    JObject [(''amount_0_desired'', JString (dec_of_nat (unat d0))), (''amount_0_min'', JString (dec_of_nat (unat m0))),
      (''amount_1_desired'', JString (dec_of_nat (unat d1))), (''amount_1_min'', JString (dec_of_nat (unat m1))),
      (''deadline'', JNumber (dec_of_nat (unat d))), (''from'', JString (address_to_string lib f)),
      (''to'', JString (address_to_string lib t))]"
  using assms by (simp add: args_json_defs arg_json)

lemma remove_liquidity_json:
  assumes "unat l < 2 ^ 127" "unat m0 < 2 ^ 127" "unat m1 < 2 ^ 127"
  shows "args_to_json lib RemoveLiquidity [SvAddress f, SvAddress t, i128_to_scval l, i128_to_scval m0,
      i128_to_scval m1, SvU64 d] =
    JObject [(''amount_0_min'', JString (dec_of_nat (unat m0))), (''amount_1_min'', JString (dec_of_nat (unat m1))),
      (''deadline'', JNumber (dec_of_nat (unat d))), (''from'', JString (address_to_string lib f)),
      (''liquidity'', JString (dec_of_nat (unat l))), (''to'', JString (address_to_string lib t))]"
  using assms by (simp add: args_json_defs arg_json)

subsection \<open>A network for concrete runs\<close>

text \<open>One account, one contract, a codec for the two envelopes of one swap.\<close>

definition demo_args :: "unit sc_val list" where
  "demo_args = [SvAddress (AccountAddr [9]), i128_to_scval 0, i128_to_scval 5, SvU64 2000]"

definition demo_data :: "unit soroban_data" where
  "demo_data = \<lparr>sd_resource_fee = 50, sd_resources = ()\<rparr>"

definition demo_prepared :: "unit envelope" where
  "demo_prepared = EnvTx (call_transaction [9] (ContractAddr [7]) Swap demo_args 41 2000 150 demo_data []) []"

definition demo_unsimulated :: "unit envelope" where
  "demo_unsimulated = EnvTx ((call_transaction [9] (ContractAddr [7]) Swap demo_args 41 2000 100 demo_data [])
     \<lparr>tx_ext := ExtV0\<rparr>) []"

definition demo_stellar :: "unit stellar_lib" where
  "demo_stellar =
     \<lparr>contract_from_string = (\<lambda>s. if s = ''CPOOL'' then Some [7] else None),
      contract_to_string = (\<lambda>b. if b = [7] then ''CPOOL'' else ''C''),
      public_key_from_string = (\<lambda>s. if s = ''GSRC'' then Some [9] else if s = ''GOTHER'' then Some [8] else None),
      public_key_to_string = (\<lambda>b. if b = [9] then ''GSRC'' else ''G''),
      debug_val = (\<lambda>_. ''val''), debug_address = (\<lambda>_. ''address''), debug_entry = (\<lambda>_. ''entry''),
      length_error = ''xdr value max length exceeded'',
      ledger_key_to_xdr = (\<lambda>_. Ok ''key''),
      ledger_entry_from_xdr = (\<lambda>s. if s = ''acc'' then Ok (LeAccount 41 ()) else Err ''bad entry''),
      envelope_to_base64 = (\<lambda>env. if env = demo_prepared then Ok ''prepared''
        else if env = demo_unsimulated then Ok ''unsimulated'' else Err ''no text''),
      envelope_from_base64 = (\<lambda>s. if s = ''prepared'' then Ok demo_prepared
        else if s = ''unsimulated'' then Ok demo_unsimulated else Err ''bad text''),
      soroban_data_from_xdr = (\<lambda>s. if s = ''data'' then Ok demo_data else Err ''bad data''),
      auth_entry_from_xdr = (\<lambda>_. Err ''bad auth'')\<rparr>"

definition demo_codec :: rpc_codec where
  "demo_codec =
     \<lparr>de_ledger_entry = (\<lambda>_. Ok \<lparr>le_key = ''key'', le_xdr = ''acc'', le_last_modified = None\<rparr>),
      de_simulate = (\<lambda>_. Ok \<lparr>st_error = None, st_latest_ledger = None, st_transaction_data = Some ''data'',
        st_min_resource_fee = Some ''50'', st_results = [], st_restore_preamble = None\<rparr>),
      de_send = (\<lambda>_. Err ''no answer''), de_get = (\<lambda>_. Err ''no answer'')\<rparr>"

definition demo_call :: "unit transport" where
  "demo_call method ps w = (Ok (JObject [(''entries'', JArray [JNull])]), w)"

definition demo_pool :: pool_config where
  "demo_pool = \<lparr>pc_soroban_rpc_url = ''http://rpc'', pc_contract_id = ''CPOOL'', pc_token_0 = native_asset ''testnet'',
     pc_token_1 = native_asset ''testnet'', pc_base_fee_stroops = 100, pc_fee_ceiling_stroops = 1000\<rparr>"

definition demo_params :: prepare_params where
  "demo_params = \<lparr>pp_network = Testnet, pp_source_account = ''GSRC'', pp_deadline = 2000\<rparr>"

definition demo_context :: validate_context where
  "demo_context = \<lparr>vc_network = Testnet, vc_declared_network = Testnet, vc_contract_id = ''CPOOL'',
     vc_fee_ceiling_stroops = 1000, vc_now = 1000, vc_expected_sequence = Some 41\<rparr>"

definition demo_review :: review_summary where
  "demo_review = review_of demo_stellar (\<lambda>_. ''hash'') Swap 2000
     (call_transaction [9] (ContractAddr [7]) Swap demo_args 41 2000 150 demo_data [])
     \<lparr>ic_contract_address = ContractAddr [7], ic_function_name = ''swap'', ic_args = demo_args\<rparr> []"

lemma demo_envelope_codec: "envelope_codec demo_stellar"
  by (auto simp: envelope_codec_def demo_stellar_def split: if_splits)

lemma demo_validated: "validate_tx demo_stellar (\<lambda>_. ''hash'') ''prepared'' demo_context = Ok demo_review"
  unfolding validate_tx_Ok
proof (intro conjI exI)
  show "envelope_from_base64 demo_stellar ''prepared'' = Ok demo_prepared" by (simp add: demo_stellar_def)
  show "single_call demo_prepared = Some
     (call_transaction [9] (ContractAddr [7]) Swap demo_args 41 2000 150 demo_data [],
      \<lparr>ic_contract_address = ContractAddr [7], ic_function_name = ''swap'', ic_args = demo_args\<rparr>, [])"
    by (simp add: demo_prepared_def call_transaction_def)
qed (simp_all add: demo_context_def demo_review_def call_allowed_def call_transaction_def demo_args_def demo_stellar_def
       SWAP_PARAMS_def)

lemma demo_prepares:
  "prepare demo_stellar (\<lambda>_. ''hash'') demo_codec demo_call demo_pool Testnet Swap demo_args demo_params 1000 () =
     (Ok \<lparr>pt_xdr = ''prepared'', pt_review = demo_review\<rparr>, ())"
proof -
  have seq: "account_sequence demo_stellar demo_codec demo_call ''GSRC'' () = (Ok 41, ())"
    by (simp add: account_sequence_def account_ledger_key_def parse_account_def get_ledger_entries_def typed_call_def
        demo_call_def demo_codec_def demo_stellar_def bind_st_def lift_res_def json_index_def ok_value_def
        List.map_filter_def decode_account_sequence_def)
  have build: "build_invoke_envelope demo_stellar ''CPOOL'' Swap demo_args ''GSRC'' 41 100 2000 = Ok demo_unsimulated"
    unfolding build_invoke_envelope_Ok
    by (auto simp: demo_unsimulated_def call_transaction_def parse_address_def demo_stellar_def demo_args_def)
  have ne: "demo_unsimulated \<noteq> demo_prepared"
    by (simp add: demo_unsimulated_def demo_prepared_def call_transaction_def)
  have enc: "envelope_to_xdr demo_stellar demo_unsimulated = Ok ''unsimulated''"
    "envelope_to_xdr demo_stellar demo_prepared = Ok ''prepared''"
    using ne by (simp_all add: envelope_to_xdr_def demo_stellar_def)
  obtain sim where sim: "simulate_transaction demo_codec demo_call ''unsimulated'' () = (Ok sim, ())"
    "simulated demo_stellar sim = Ok (demo_data, [], 50)"
    by (simp add: simulate_transaction_def typed_call_def demo_call_def demo_codec_def simulated_def
        demo_stellar_def decode_soroban_transaction_data_def parse_i64_def parse_digits_def is_digit_def nat_of_dec_def)
  have app: "apply_simulation demo_stellar demo_unsimulated demo_data [] 50 100 1000 = Ok demo_prepared"
    by (simp add: apply_simulation_def demo_unsimulated_def demo_prepared_def call_transaction_def bounded_def
        checked_add_signed_def)
  have args: "rs_args demo_review = args_to_json demo_stellar Swap demo_args"
    by (simp add: demo_review_def review_of_def)
  show ?thesis
    using demo_validated
    by (simp add: prepare_def demo_params_def demo_pool_def bind_st_def lift_res_def seq build enc app args
        sim demo_context_def)
qed

subsection \<open>Properties\<close>

text \<open>
  C6. A prepared transaction is the requested call and nothing else. For a codec that decodes
  what it encodes, the text handed back decodes to an unsigned transaction with one operation,
  the call of the requested function of the configured contract with exactly the requested
  arguments; its source is the requested account, its sequence number follows the one just read
  from the ledger, its time bound is the requested deadline, which is in the future, and its fee
  is the base fee plus the simulated resource fee and within the ceiling. The review shows the
  requested arguments.\<close>

theorem prepared_transaction_is_requested_call:
  assumes "prepare lib sha256_hex codec call pool net f args req now w = (Ok p, w')" and "envelope_codec lib"
  shows "pp_network req = net \<and> now < pp_deadline req \<and>
    (\<exists>sequence w1 address key fee data auth resource_fee.
      account_sequence lib codec call (pp_source_account req) w = (Ok sequence, w1) \<and>
      parse_address lib (pc_contract_id pool) = Ok address \<and>
      public_key_from_string lib (pp_source_account req) = Some key \<and>
      sint (sequence + 1) = sint sequence + 1 \<and>
      int (unat fee) = int (unat (pc_base_fee_stroops pool)) + sint (resource_fee :: i64) \<and>
      fee \<le> pc_fee_ceiling_stroops pool \<and>
      envelope_from_base64 lib (pt_xdr p) =
        Ok (EnvTx (call_transaction key address f args sequence (pp_deadline req) fee data auth) [])) \<and>
    rs_args (pt_review p) = args_to_json lib f args"
  using assms by (rule prepare_Ok) blast

theorem prepared_transaction_is_requested_call_witness:
  "envelope_from_base64 demo_stellar ''prepared'' = Ok demo_prepared \<and> (1000 :: u64) < 2000"
  using prepared_transaction_is_requested_call [OF demo_prepares demo_envelope_codec]
  by (simp add: demo_params_def demo_stellar_def)

text \<open>
  C13. Validation accepts exactly the transactions the policy allows: declared and configured
  network agree, the text decodes to a single call of a known function of the configured contract
  with the right number of arguments, the last one a deadline in the future, the fee is within
  the ceiling and the sequence number is the next one where it is known; and the review is the
  one of this very call.\<close>

theorem validate_accepts_exactly:
  "validate_tx lib sha256_hex xdr ctx = Ok review \<longleftrightarrow>
     vc_declared_network ctx = vc_network ctx \<and>
     (\<exists>env tx call auth f deadline. envelope_from_base64 lib xdr = Ok env \<and>
        single_call env = Some (tx, call, auth) \<and> call_allowed lib ctx f deadline tx call \<and>
        review = review_of lib sha256_hex f deadline tx call auth)"
  by (rule validate_tx_Ok)

end
