(* ===== verification/Pool_Math.thy ===== *)
theory Pool_Math
  imports Prelude
begin

text \<open>
  The constant-product arithmetic of the automated market maker, \<^verbatim>\<open>src/pool/math.rs\<close>:
  exact-input and exact-output swap pricing with the 0.3% fee, price impact, liquidity minting
  and withdrawal, and the Newton integer square root. Amounts are \<^typ>\<open>u128\<close> with the checked
  operations of the source; a plain division is \<^const>\<open>div_op\<close>, so that a zero divisor is a
  panic of the model too. The lemmas read every operation through \<open>unat\<close>.
\<close>

subsection \<open>Constants and errors\<close>

definition FEE_NUMERATOR :: u128 where
  "FEE_NUMERATOR = 997"

definition FEE_DENOMINATOR :: u128 where
  "FEE_DENOMINATOR = 1000"

definition MINIMUM_LIQUIDITY :: u128 where
  "MINIMUM_LIQUIDITY = 1000"

datatype math_error = ZeroAmount | InsufficientLiquidity | Overflow

fun math_error_to_string :: "math_error \<Rightarrow> string" where
  "math_error_to_string ZeroAmount = ''zero amount''"
| "math_error_to_string InsufficientLiquidity = ''insufficient liquidity''"
| "math_error_to_string Overflow = ''arithmetic overflow''"

subsection \<open>Swap pricing\<close>

definition get_amount_out :: "u128 \<Rightarrow> u128 \<Rightarrow> u128 \<Rightarrow> (math_error + u128) outcome" where
  "get_amount_out amount_in reserve_in reserve_out =
     (if amount_in = 0 then Returns (Err ZeroAmount)
      else if reserve_in = 0 \<or> reserve_out = 0 then Returns (Err InsufficientLiquidity)
      else
        try_out (ok_or (checked_mul amount_in FEE_NUMERATOR) Overflow) (\<lambda>fee_in.
        try_out (ok_or (checked_mul fee_in reserve_out) Overflow) (\<lambda>numerator.
        try_out (ok_or (checked_mul reserve_in FEE_DENOMINATOR) Overflow) (\<lambda>scaled.
        try_out (ok_or (checked_add scaled fee_in) Overflow) (\<lambda>denominator.
          bind_out (div_op numerator denominator) (\<lambda>q. Returns (Ok q)))))))"

definition get_amount_in :: "u128 \<Rightarrow> u128 \<Rightarrow> u128 \<Rightarrow> math_error + u128" where
  "get_amount_in amount_out reserve_in reserve_out =
     (if amount_out = 0 then Err ZeroAmount
      else if reserve_in = 0 \<or> reserve_out = 0 then Err InsufficientLiquidity
      else
        bind_res (ok_or (checked_mul reserve_in amount_out) Overflow) (\<lambda>product.
        bind_res (ok_or (checked_mul product FEE_DENOMINATOR) Overflow) (\<lambda>numerator.
        bind_res (ok_or (checked_sub reserve_out amount_out) InsufficientLiquidity) (\<lambda>left.
        bind_res (ok_or (checked_mul left FEE_NUMERATOR) Overflow) (\<lambda>denominator.
        bind_res (ok_or (checked_div numerator denominator) Overflow) (\<lambda>q.
          ok_or (checked_add q 1) Overflow))))))"

text \<open>The multiplication and the addition are unchecked in the source: they wrap around.\<close>

definition price_impact_bps :: "u128 \<Rightarrow> u128 \<Rightarrow> u64 outcome" where
  "price_impact_bps amount_in reserve_in =
     (if reserve_in = 0 then Returns 10000
      else bind_out (div_op (amount_in * 10000) (reserve_in + amount_in)) (\<lambda>impact.
        Returns (ucast (min impact 10000))))"

subsection \<open>The integer square root\<close>

text \<open>The Newton loop, with \<open>z\<close> the current and \<open>x\<close> the next approximation.\<close>

function sqrt_loop :: "u128 \<Rightarrow> u128 \<Rightarrow> u128 \<Rightarrow> u128 outcome" where
  "sqrt_loop n z x =
     (if x < z then (if x = 0 then Panic else sqrt_loop n x ((n div x + x) div 2))
      else Returns z)"
  by pat_completeness auto
termination
  by (relation "measure (\<lambda>(n, z, x). unat z)") (auto simp: word_less_nat_alt)

declare sqrt_loop.simps [simp del]

definition integer_sqrt :: "u128 \<Rightarrow> u128 outcome" where
  "integer_sqrt n =
     (if n < 4 then Returns (if n = 0 then 0 else 1)
      else sqrt_loop n n (n div 2 + 1))"

subsection \<open>Liquidity\<close>

definition lp_tokens_to_mint ::
    "u128 \<Rightarrow> u128 \<Rightarrow> u128 \<Rightarrow> u128 \<Rightarrow> u128 \<Rightarrow> (math_error + u128) outcome" where
  "lp_tokens_to_mint amount_0 amount_1 reserve_0 reserve_1 total_supply =
     (if total_supply = 0 then
        try_out (ok_or (checked_mul amount_0 amount_1) Overflow) (\<lambda>product.
        bind_out (integer_sqrt product) (\<lambda>root.
          let lp = saturating_sub root MINIMUM_LIQUIDITY in
          if lp = 0 then Returns (Err InsufficientLiquidity) else Returns (Ok lp)))
      else
        try_out (ok_or (checked_mul amount_0 total_supply) Overflow) (\<lambda>share_0.
        bind_out (div_op share_0 reserve_0) (\<lambda>lp_0.
        try_out (ok_or (checked_mul amount_1 total_supply) Overflow) (\<lambda>share_1.
        bind_out (div_op share_1 reserve_1) (\<lambda>lp_1.
          Returns (Ok (min lp_0 lp_1)))))))"

definition withdrawal_amounts ::
    "u128 \<Rightarrow> u128 \<Rightarrow> u128 \<Rightarrow> u128 \<Rightarrow> (math_error + u128 \<times> u128) outcome" where
  "withdrawal_amounts liquidity reserve_0 reserve_1 total_supply =
     try_out (ok_or (checked_mul liquidity reserve_0) Overflow) (\<lambda>share_0.
     bind_out (div_op share_0 total_supply) (\<lambda>a0.
     try_out (ok_or (checked_mul liquidity reserve_1) Overflow) (\<lambda>share_1.
     bind_out (div_op share_1 total_supply) (\<lambda>a1.
       Returns (Ok (a0, a1))))))"

subsection \<open>Lemmas: swap pricing through unat\<close>

lemma unat_consts [simp]:
  "unat FEE_NUMERATOR = 997" "unat FEE_DENOMINATOR = 1000" "unat MINIMUM_LIQUIDITY = 1000"
  by (simp_all add: FEE_NUMERATOR_def FEE_DENOMINATOR_def MINIMUM_LIQUIDITY_def)

lemma get_amount_out_eq:
  "get_amount_out a ri ro =
     (if unat a = 0 then Returns (Err ZeroAmount)
      else if unat ri = 0 \<or> unat ro = 0 then Returns (Err InsufficientLiquidity)
      else if 2 ^ 128 \<le> unat a * 997 * unat ro \<or> 2 ^ 128 \<le> unat ri * 1000 + unat a * 997
        then Returns (Err Overflow)
      else Returns (Ok (of_nat ((unat a * 997 * unat ro) div (unat ri * 1000 + unat a * 997)))))"
proof (cases "unat a = 0 \<or> unat ri = 0 \<or> unat ro = 0")
  case True
  then show ?thesis by (auto simp: get_amount_out_def unat_eq_0)
next
  case False
  then have nz: "a \<noteq> 0" "ri \<noteq> 0" "ro \<noteq> 0" "1 \<le> unat ro" "1 \<le> unat ri" by auto
  have fee_le: "unat a * 997 \<le> unat a * 997 * unat ro" using nz by simp
  show ?thesis
    using nz fee_le
    by (auto simp: get_amount_out_def checked_mul_def checked_add_def div_op_def unat_mul_fits
        unat_add_fits word_div_unat unat_eq_0 [symmetric])
qed

lemma get_amount_out_OkD:
  assumes "get_amount_out a ri ro = Returns (Ok y)"
  shows "0 < unat a" "0 < unat ri" "0 < unat ro"
    and "unat a * 997 * unat ro < 2 ^ 128" "unat ri * 1000 + unat a * 997 < 2 ^ 128"
    and "unat y = (unat a * 997 * unat ro) div (unat ri * 1000 + unat a * 997)"
proof -
  from assms show pre: "0 < unat a" "0 < unat ri" "0 < unat ro"
      "unat a * 997 * unat ro < 2 ^ 128" "unat ri * 1000 + unat a * 997 < 2 ^ 128"
    by (auto simp: get_amount_out_eq split: if_splits)
  let ?q = "(unat a * 997 * unat ro) div (unat ri * 1000 + unat a * 997)"
  have "?q < 2 ^ 128" using pre(4) by (meson div_le_dividend le_less_trans)
  moreover from assms pre have "y = of_nat ?q"
    by (auto simp: get_amount_out_eq split: if_splits)
  ultimately show "unat y = ?q" by (simp add: unat_of_nat_fits)
qed



lemma quotient_succ_fits:
  assumes "0 < d" and "n < (2 ^ 128 :: nat)"
  shows "n div (d * 997) + 1 < 2 ^ 128"
proof -
  have "n div (d * 997) \<le> n div 997" using assms(1) by (intro div_le_mono2) auto
  with assms(2) show ?thesis by simp
qed

text \<open>The tail of \<open>get_amount_in\<close>, from the subtraction on, for a numerator that fits.\<close>

lemma get_amount_in_tail:
  fixes n ro out :: u128
  shows "bind_res (ok_or (checked_sub ro out) InsufficientLiquidity) (\<lambda>left.
      bind_res (ok_or (checked_mul left FEE_NUMERATOR) Overflow) (\<lambda>denominator.
      bind_res (ok_or (checked_div n denominator) Overflow) (\<lambda>q.
        ok_or (checked_add q 1) Overflow))) =
     (if unat ro < unat out then Err InsufficientLiquidity
      else if unat ro = unat out \<or> 2 ^ 128 \<le> (unat ro - unat out) * 997 then Err Overflow
      else Ok (of_nat (unat n div ((unat ro - unat out) * 997) + 1)))"
proof (cases "unat ro \<le> unat out \<or> 2 ^ 128 \<le> (unat ro - unat out) * 997")
  case True
  show ?thesis
  proof (cases "ro = out")
    case False
    then have "unat ro \<noteq> unat out" by (simp add: word_unat_eq_iff)
    with True show ?thesis
      by (auto simp: checked_sub_def checked_mul_def word_le_nat_alt unat_sub_le)
  qed (simp add: checked_sub_def checked_mul_def checked_div_def)
next
  case False
  let ?d = "(ro - out) * FEE_NUMERATOR" and ?q = "unat n div ((unat ro - unat out) * 997)"
  from False have s: "checked_sub ro out = Some (ro - out)" "unat (ro - out) = unat ro - unat out"
    by (simp_all add: checked_sub_def word_le_nat_alt unat_sub_le)
  with False have d: "checked_mul (ro - out) FEE_NUMERATOR = Some ?d"
      "unat ?d = (unat ro - unat out) * 997"
    by (simp_all add: checked_mul_def unat_mul_fits)
  have q: "?q + 1 < 2 ^ 128"
    using False unsigned_less [of n] by (intro quotient_succ_fits) simp_all
  have qn: "unat (of_nat ?q :: u128) = ?q" using q by (intro unat_of_nat_fits) simp
  have "checked_div n ?d = Some (of_nat ?q)"
    unfolding checked_div_eq_Some d qn using False by simp
  moreover have "unat (of_nat (?q + 1) :: u128) = ?q + 1"
    using q by (intro unat_of_nat_fits) simp
  then have "checked_add (of_nat ?q) 1 = Some (of_nat (?q + 1) :: u128)"
    unfolding checked_add_eq_Some qn by (simp only: unat_1)
  ultimately show ?thesis
    using s d False by simp
qed

lemma get_amount_in_eq:
  "get_amount_in out ri ro =
     (if unat out = 0 then Err ZeroAmount
      else if unat ri = 0 \<or> unat ro = 0 then Err InsufficientLiquidity
      else if 2 ^ 128 \<le> unat ri * unat out * 1000 then Err Overflow
      else if unat ro < unat out then Err InsufficientLiquidity
      else if unat ro = unat out \<or> 2 ^ 128 \<le> (unat ro - unat out) * 997 then Err Overflow
      else Ok (of_nat ((unat ri * unat out * 1000) div ((unat ro - unat out) * 997) + 1)))"
  unfolding get_amount_in_def get_amount_in_tail
  using unat_mul_chain [of ri out FEE_DENOMINATOR]
  by (subst checked_mul_chain) (auto simp: unat_eq_0 not_le)

lemma get_amount_in_OkD:
  assumes "get_amount_in out ri ro = Ok x"
  shows "0 < unat out" "0 < unat ri" "unat out < unat ro"
    and "unat x = (unat ri * unat out * 1000) div ((unat ro - unat out) * 997) + 1"
proof -
  let ?q = "(unat ri * unat out * 1000) div ((unat ro - unat out) * 997)"
  from assms show pre: "0 < unat out" "0 < unat ri" "unat out < unat ro"
    by (auto simp: get_amount_in_eq split: if_splits)
  from assms have small: "unat ri * unat out * 1000 < 2 ^ 128" and x: "x = of_nat (?q + 1)"
    by (auto simp: get_amount_in_eq split: if_splits)
  have "?q + 1 < 2 ^ 128" using pre small by (intro quotient_succ_fits) simp_all
  then show "unat x = ?q + 1" unfolding x by (intro unat_of_nat_fits) simp
qed

lemma constant_product_nat:
  fixes a ri ro y :: nat
  assumes "y = (a * 997 * ro) div (ri * 1000 + a * 997)" and "0 < ri" and "0 < ro"
  shows "y < ro" and "1000 * ri * ro \<le> (1000 * ri + 997 * a) * (ro - y)"
proof -
  let ?d = "ri * 1000 + a * 997"
  have yd: "y * ?d \<le> a * 997 * ro" unfolding assms(1) by (rule div_times_less_eq_dividend)
  also have "\<dots> < ro * ?d" using assms(2,3) by (simp add: algebra_simps)
  finally show lt: "y < ro" by simp
  have "(1000 * ri + 997 * a) * (ro - y) = ?d * ro - y * ?d"
    by (metis (no_types) diff_mult_distrib2 mult.commute)
  moreover have "?d * ro = 1000 * ri * ro + a * 997 * ro" by (simp add: algebra_simps)
  ultimately show "1000 * ri * ro \<le> (1000 * ri + 997 * a) * (ro - y)"
    using yd by linarith
qed

lemma amount_out_reaches_iff:
  fixes a ri ro w :: nat
  assumes "w < ro" and "0 < ri"
  shows "w \<le> (a * 997 * ro) div (ri * 1000 + a * 997) \<longleftrightarrow> ri * w * 1000 \<le> a * ((ro - w) * 997)"
proof -
  let ?d = "ri * 1000 + a * 997"
  have "w \<le> (a * 997 * ro) div ?d \<longleftrightarrow> w * ?d \<le> a * 997 * ro"
    using assms(2) by (simp add: less_eq_div_iff_mult_less_eq)
  also have "\<dots> \<longleftrightarrow> ri * w * 1000 + a * 997 * w \<le> a * 997 * (ro - w) + a * 997 * w"
  proof -
    have "a * 997 * ro = a * 997 * (ro - w) + a * 997 * w"
      using assms(1) by (simp add: add_mult_distrib2 [symmetric])
    then show ?thesis by (simp add: algebra_simps)
  qed
  also have "\<dots> \<longleftrightarrow> ri * w * 1000 \<le> a * ((ro - w) * 997)" by (simp add: ac_simps)
  finally show ?thesis .
qed

subsection \<open>Properties: swap pricing\<close>

lemma get_amount_out_accepts:
  "(\<exists>y. get_amount_out a ri ro = Returns (Ok y)) \<longleftrightarrow>
     0 < unat a \<and> 0 < unat ri \<and> 0 < unat ro \<and> unat a * 997 * unat ro < 2 ^ 128 \<and> unat ri * 1000 + unat a * 997 < 2 ^ 128"
  by (auto simp: get_amount_out_eq)

lemma get_amount_out_product:
  assumes "get_amount_out a ri ro = Returns (Ok y)"
  shows "unat y < unat ro"
    and "1000 * unat ri * unat ro \<le> (1000 * unat ri + 997 * unat a) * (unat ro - unat y)"
    and "unat ri * unat ro \<le> (unat ri + unat a) * (unat ro - unat y)"
proof -
  note d = get_amount_out_OkD [OF assms]
  show lt: "unat y < unat ro"
    and k: "1000 * unat ri * unat ro \<le> (1000 * unat ri + 997 * unat a) * (unat ro - unat y)"
    using constant_product_nat [OF d(6) d(2) d(3)] by simp_all
  have "(1000 * unat ri + 997 * unat a) * (unat ro - unat y)
      \<le> 1000 * (unat ri + unat a) * (unat ro - unat y)"
    by (intro mult_right_mono) simp_all
  with k have "1000 * unat ri * unat ro \<le> 1000 * (unat ri + unat a) * (unat ro - unat y)"
    by (rule order_trans)
  then have "1000 * (unat ri * unat ro) \<le> 1000 * ((unat ri + unat a) * (unat ro - unat y))"
    by (simp only: mult.assoc)
  then show "unat ri * unat ro \<le> (unat ri + unat a) * (unat ro - unat y)" by simp
qed

text \<open>A quoted amount fits beside its reserve, so that the price impact is defined.\<close>

lemma amount_out_impact:
  assumes "get_amount_out a ri ro = Returns (Ok y)"
  shows "\<exists>bps. price_impact_bps a ri = Returns bps"
proof -
  note d = get_amount_out_OkD [OF assms]
  have "unat ri + unat a < 2 ^ 128" using d(5) by simp
  then have "unat (ri + a) = unat ri + unat a" by (simp add: unat_add_fits)
  with d(1) have "ri + a \<noteq> 0" by (auto simp: word_nonzero_unat)
  then show ?thesis by (simp add: price_impact_bps_def div_op_def)
qed

text \<open>
  C11. A quoted swap never drains the pool and never decreases the constant product, fee
  included: the output is strictly below the output reserve, and the fee-adjusted input times
  what is left of the output reserve is at least the product of the reserves.
\<close>

theorem swap_preserves_constant_product:
  assumes "get_amount_out a ri ro = Returns (Ok y)"
  shows "unat y < unat ro
    \<and> 1000 * unat ri * unat ro \<le> (1000 * unat ri + 997 * unat a) * (unat ro - unat y)
    \<and> unat ri * unat ro \<le> (unat ri + unat a) * (unat ro - unat y)"
  using get_amount_out_product [OF assms] by blast

theorem swap_preserves_constant_product_witness:
  "get_amount_out 1000000 10000000 10000000 = Returns (Ok 906610) \<and>
   unat (906610 :: u128) < unat (10000000 :: u128) \<and>
   unat (10000000 :: u128) * unat (10000000 :: u128)
     \<le> (unat (10000000 :: u128) + unat (1000000 :: u128))
        * (unat (10000000 :: u128) - unat (906610 :: u128))"
proof -
  have h: "get_amount_out 1000000 10000000 10000000 = Returns (Ok 906610)"
    by (simp add: get_amount_out_eq)
  then show ?thesis
    using swap_preserves_constant_product [OF h] by simp
qed

text \<open>The output of an input reaches a requested amount by cross multiplication.\<close>

lemma reaches_iff:
  assumes "get_amount_in w ri ro = Ok x" and "get_amount_out u ri ro = Returns (Ok v)"
  shows "unat w \<le> unat v \<longleftrightarrow> unat ri * unat w * 1000 \<le> unat u * ((unat ro - unat w) * 997)"
  using amount_out_reaches_iff [OF get_amount_in_OkD(3,2) [OF assms(1)], of "unat u"]
    get_amount_out_OkD(6) [OF assms(2)] by simp

lemma amount_in_reaches:
  assumes "get_amount_in w ri ro = Ok x" and "get_amount_out x ri ro = Returns (Ok y)"
  shows "unat w \<le> unat y"
proof -
  let ?n = "unat ri * unat w * 1000" and ?d = "(unat ro - unat w) * 997"
  note pre = get_amount_in_OkD [OF assms(1)]
  have "0 < ?d" using pre(3) by simp
  then have "?n \<le> (?n div ?d + 1) * ?d"
    using dividend_less_div_times [of ?d ?n] by (simp add: algebra_simps)
  then show ?thesis using reaches_iff [OF assms] pre(4) by simp
qed



subsection \<open>Lemmas: the integer square root\<close>

text \<open>One Newton step from any positive \<open>x\<close> stays at or above the square root.\<close>

lemma newton_step_above:
  fixes n x :: nat
  assumes "0 < x"
  shows "n < ((n div x + x) div 2 + 1) ^ 2"
proof -
  let ?q = "n div x" and ?s = "(n div x + x) div 2"
  have n: "n < x * (?q + 1)"
    using assms dividend_less_div_times [of x n] by (simp add: algebra_simps)
  have "4 * (x * (?q + 1)) \<le> (x + (?q + 1)) ^ 2"
  proof -
    have "4 * (int x * (int ?q + 1)) \<le> (int x + (int ?q + 1)) ^ 2"
      using zero_le_power2 [of "int x - (int ?q + 1)"] by (simp add: power2_eq_square algebra_simps)
    then show ?thesis
      by (metis (mono_tags, lifting) of_nat_1 of_nat_add of_nat_le_iff of_nat_mult of_nat_numeral of_nat_power)
  qed
  also have "\<dots> \<le> (2 * (?s + 1)) ^ 2"
    by (intro power_mono) auto
  also have "\<dots> = 4 * (?s + 1) ^ 2" by (simp add: power2_eq_square algebra_simps)
  finally show ?thesis using n by simp
qed

text \<open>The sum of the Newton step does not overflow below the first approximation.\<close>

lemma newton_sum_bound:
  fixes n x :: nat
  assumes "4 \<le> n" and "0 < x" and "n < (x + 1) ^ 2" and "x \<le> n div 2 + 1" and "n < 2 ^ 128"
  shows "n div x + x < 2 ^ 128" and "0 < (n div x + x) div 2"
proof -
  show "n div x + x < 2 ^ 128"
  proof (cases "x < 4")
    case True
    then have "(x + 1) ^ 2 \<le> 4 ^ 2" by (intro power_mono) auto
    with assms(3) have "n < 16" by simp
    moreover have "n div x \<le> n" by (rule div_le_dividend)
    ultimately have "n div x + x < 20" using True by linarith
    then show ?thesis by (rule less_trans) simp
  next
    case False
    then have "n div x \<le> n div 4" by (intro div_le_mono2) auto
    with assms(1,4,5) show ?thesis by simp
  qed
  show "0 < (n div x + x) div 2"
  proof (cases "x = 1")
    case False
    with assms(2) have "2 \<le> x" by simp
    then show ?thesis by (simp add: div_greater_zero_iff)
  qed (use assms(1) in simp)
qed

lemma sqrt_loop_correct:
  assumes "4 \<le> unat n" and "0 < unat x" and "unat n < (unat x + 1) ^ 2"
    and "unat n < (unat z + 1) ^ 2" and "x < z \<Longrightarrow> unat x \<le> unat n div 2 + 1"
    and "x < z \<or> unat x = (unat n div unat z + unat z) div 2" and "0 < unat z"
  shows "\<exists>r. sqrt_loop n z x = Returns r \<and> (unat r) ^ 2 \<le> unat n \<and> unat n < (unat r + 1) ^ 2"
  using assms
proof (induction n z x rule: sqrt_loop.induct)
  case (1 n z x)
  show ?case
  proof (cases "x < z")
    case True
    have n128: "unat n < 2 ^ 128" using unat_lt2p [of n] by simp
    note bound = newton_sum_bound [OF "1.prems"(1,2,3) "1.prems"(5) [OF True] n128]
    have x: "x \<noteq> 0" using "1.prems"(2) by auto
    have step: "unat ((n div x + x) div 2) = (unat n div unat x + unat x) div 2"
      using bound(1) by (simp add: unat_div unat_add_fits)
    have "\<exists>r. sqrt_loop n x ((n div x + x) div 2) = Returns r
        \<and> (unat r) ^ 2 \<le> unat n \<and> unat n < (unat r + 1) ^ 2"
    proof (rule "1.IH" [OF True x "1.prems"(1)])
      show "unat ((n div x + x) div 2) \<le> unat n div 2 + 1" if "(n div x + x) div 2 < x"
        using that "1.prems"(5) [OF True] by (simp add: word_less_nat_alt)
    qed (use bound(2) newton_step_above [OF "1.prems"(2)] "1.prems" step in simp_all)
    then show ?thesis using True x by (simp add: sqrt_loop.simps [of n z x])
  next
    case False
    with "1.prems"(6) have "unat z \<le> (unat n div unat z + unat z) div 2"
      by (simp add: word_less_nat_alt)
    then have "unat z \<le> unat n div unat z" by simp
    then have "unat z * unat z \<le> unat n"
      using "1.prems"(7) by (simp add: less_eq_div_iff_mult_less_eq)
    with False "1.prems"(4) show ?thesis
      by (simp add: sqrt_loop.simps [of n z x] power2_eq_square)
  qed
qed

lemma integer_sqrt_correct:
  "\<exists>r. integer_sqrt n = Returns r \<and> (unat r) ^ 2 \<le> unat n \<and> unat n < (unat r + 1) ^ 2"
proof (cases "n < 4")
  case True
  then have "unat n < 4" by (simp add: word_less_nat_alt)
  then consider "unat n = 0" | "unat n = 1" | "unat n = 2" | "unat n = 3" by linarith
  then show ?thesis
    using True by cases (auto simp: integer_sqrt_def unat_eq_0 power2_eq_square)
next
  case False
  then have ge: "4 \<le> unat n" by (simp add: word_less_nat_alt)
  have half: "unat (n div 2 + 1) = unat n div 2 + 1"
    using unat_lt2p [of n] by (subst unat_add_fits) (simp_all add: unat_div)
  have sq: "unat n < (unat n div 2 + 1 + 1) ^ 2"
  proof -
    have "unat n < 2 * (unat n div 2 + 1 + 1)" by simp
    also have "\<dots> \<le> (unat n div 2 + 1 + 1) * (unat n div 2 + 1 + 1)"
      by (intro mult_right_mono) simp_all
    finally show ?thesis by (simp only: power2_eq_square)
  qed
  have enter: "n div 2 + 1 < n"
    unfolding word_less_nat_alt half using ge by linarith
  have "\<exists>r. sqrt_loop n n (n div 2 + 1) = Returns r
      \<and> (unat r) ^ 2 \<le> unat n \<and> unat n < (unat r + 1) ^ 2"
    by (rule sqrt_loop_correct)
      (use ge half sq enter in \<open>simp_all add: power2_eq_square\<close>)
  then show ?thesis using False by (simp add: integer_sqrt_def)
qed

text \<open>
  C25. The Newton loop terminates, never divides by zero and never overflows, and returns the
  integer square root: the largest integer whose square does not exceed the argument.
\<close>

theorem integer_sqrt_is_floor_sqrt:
  "\<exists>r. integer_sqrt n = Returns r
     \<and> (unat r) ^ 2 \<le> unat n \<and> (\<forall>m. m ^ 2 \<le> unat n \<longleftrightarrow> m \<le> unat r)"
proof -
  obtain r where r: "integer_sqrt n = Returns r" "(unat r) ^ 2 \<le> unat n" "unat n < (unat r + 1) ^ 2"
    using integer_sqrt_correct [of n] by blast
  have "m ^ 2 \<le> unat n \<longleftrightarrow> m \<le> unat r" for m
  proof
    assume "m ^ 2 \<le> unat n"
    with r(3) have "m ^ 2 < (unat r + 1) ^ 2" by simp
    then show "m \<le> unat r" by (simp add: power2_less_imp_less flip: less_Suc_eq_le)
  next
    assume "m \<le> unat r"
    then show "m ^ 2 \<le> unat n" using r(2) power_mono [of m "unat r" 2] by linarith
  qed
  with r show ?thesis by blast
qed


subsection \<open>Lemmas: liquidity through unat\<close>

lemma withdrawal_amounts_OkD:
  assumes "withdrawal_amounts l r0 r1 ts = Returns (Ok (a0, a1))"
  shows "0 < unat ts" "unat a0 = unat l * unat r0 div unat ts" "unat a1 = unat l * unat r1 div unat ts"
  using assms by (auto simp: withdrawal_amounts_def res_simps checked_simps)

lemma lp_tokens_to_mint_OkD:
  assumes "lp_tokens_to_mint a0 a1 r0 r1 ts = Returns (Ok lp)" and "0 < unat ts"
  shows "0 < unat r0" "0 < unat r1"
    and "unat lp = min (unat a0 * unat ts div unat r0) (unat a1 * unat ts div unat r1)"
  using assms
  by (auto simp: lp_tokens_to_mint_def res_simps checked_simps unat_gt_0 min_def word_le_nat_alt
      split: if_splits)

lemma min_word_unat: "unat (min x y) = min (unat x) (unat (y :: 'w::len word))"
  by (simp add: min_def word_le_nat_alt)



subsection \<open>Properties: liquidity and price impact\<close>

text \<open>
  C35. Withdrawals are solvent: a holder of at most the whole supply never receives more than
  the reserves, and splitting a position into two withdrawals at the same reserves never
  yields more than withdrawing it at once.
\<close>

theorem withdrawals_solvent:
  assumes whole: "withdrawal_amounts l r0 r1 ts = Returns (Ok (a0, a1))" and "unat l \<le> unat ts"
    and fst: "withdrawal_amounts l1 r0 r1 ts = Returns (Ok (b0, b1))"
    and snd: "withdrawal_amounts l2 r0 r1 ts = Returns (Ok (c0, c1))"
    and "unat l1 + unat l2 = unat l"
  shows "unat a0 \<le> unat r0 \<and> unat a1 \<le> unat r1
    \<and> unat b0 + unat c0 \<le> unat a0 \<and> unat b1 + unat c1 \<le> unat a1"
proof -
  note w = withdrawal_amounts_OkD [OF whole] and w1 = withdrawal_amounts_OkD [OF fst]
    and w2 = withdrawal_amounts_OkD [OF snd]
  have solvent: "unat l * r div unat ts \<le> r" for r
    using assms(2) by (rule share_div_le)
  have split: "unat l1 * r div unat ts + unat l2 * r div unat ts \<le> unat l * r div unat ts" for r
  proof -
    have "(unat l1 * r div unat ts + unat l2 * r div unat ts) * unat ts \<le> unat l * r"
      unfolding assms(5) [symmetric] add_mult_distrib
      by (intro add_mono div_times_less_eq_dividend)
    with w(1) show ?thesis by (simp add: less_eq_div_iff_mult_less_eq)
  qed
  show ?thesis using solvent split w w1 w2 by simp
qed

theorem withdrawals_solvent_witness:
  "withdrawal_amounts 30 1000 700 100 = Returns (Ok (300, 210)) \<and>
   withdrawal_amounts 11 1000 700 100 = Returns (Ok (110, 77)) \<and>
   withdrawal_amounts 19 1000 700 100 = Returns (Ok (190, 133)) \<and>
   unat (300 :: u128) \<le> unat (1000 :: u128) \<and>
   unat (110 :: u128) + unat (190 :: u128) \<le> unat (300 :: u128)"
proof -
  have h: "withdrawal_amounts 30 1000 700 100 = Returns (Ok (300, 210))"
      "withdrawal_amounts 11 1000 700 100 = Returns (Ok (110, 77))"
      "withdrawal_amounts 19 1000 700 100 = Returns (Ok (190, 133))"
    by (simp_all add: withdrawal_amounts_def checked_mul_def div_op_def)
  show ?thesis using withdrawals_solvent [OF h(1) _ h(2) h(3)] h by simp
qed

text \<open>
  The first deposit mints the integer square root of the product less the locked minimum:
  the minted amount plus the minimum is the largest integer whose square fits in the product,
  and the deposit is refused exactly when that root does not exceed the minimum.
\<close>

lemma first_deposit_mints_root:
  assumes "unat a0 * unat a1 < 2 ^ 128"
  shows "\<exists>root. root ^ 2 \<le> unat a0 * unat a1 \<and> unat a0 * unat a1 < (root + 1) ^ 2
     \<and> lp_tokens_to_mint a0 a1 r0 r1 0 =
         Returns (if root \<le> 1000 then Err InsufficientLiquidity else Ok (of_nat (root - 1000)))"
proof -
  have p: "checked_mul a0 a1 = Some (a0 * a1)" "unat (a0 * a1) = unat a0 * unat a1"
    using assms by (simp_all add: checked_mul_def unat_mul_fits)
  obtain r where r: "integer_sqrt (a0 * a1) = Returns r"
      "(unat r) ^ 2 \<le> unat a0 * unat a1" "unat a0 * unat a1 < (unat r + 1) ^ 2"
    using integer_sqrt_correct [of "a0 * a1"] p(2) by auto
  have sub: "saturating_sub r MINIMUM_LIQUIDITY = of_nat (unat r - 1000)"
    using unat_lt2p [of r] by (simp add: word_unat_eq_iff unat_saturating_sub unat_of_nat)
  have zero: "saturating_sub r MINIMUM_LIQUIDITY = 0 \<longleftrightarrow> unat r \<le> 1000"
    by (simp add: word_unat_eq_iff unat_saturating_sub)
  have "lp_tokens_to_mint a0 a1 r0 r1 0 = Returns
      (if saturating_sub r MINIMUM_LIQUIDITY = 0 then Err InsufficientLiquidity
       else Ok (saturating_sub r MINIMUM_LIQUIDITY))"
    by (simp add: lp_tokens_to_mint_def p(1) r(1) Let_def)
  then have "lp_tokens_to_mint a0 a1 r0 r1 0 =
      Returns (if unat r \<le> 1000 then Err InsufficientLiquidity else Ok (of_nat (unat r - 1000)))"
    by (simp only: zero) (simp only: sub)
  with r(2,3) show ?thesis by blast
qed

text \<open>
  Where the amount scaled by ten thousand and the sum of the amounts fit in 128 bits, the
  price impact is the exact floor of the share of the trade in the enlarged reserve, never
  above ten thousand basis points, and the computation does not panic.
\<close>

lemma price_impact_exact:
  assumes "unat amount_in * 10000 < 2 ^ 128" and "unat reserve_in + unat amount_in < 2 ^ 128"
    and "0 < unat reserve_in"
  shows "\<exists>bps. price_impact_bps amount_in reserve_in = Returns bps
     \<and> unat bps = unat amount_in * 10000 div (unat reserve_in + unat amount_in)
     \<and> unat bps \<le> 10000"
proof -
  let ?q = "unat amount_in * 10000 div (unat reserve_in + unat amount_in)"
  have le: "?q \<le> 10000" by (intro share_div_le) simp
  have sum: "unat (reserve_in + amount_in) = unat reserve_in + unat amount_in"
    using assms(2) by (intro unat_add_fits) simp
  have prod: "unat (amount_in * 10000) = unat amount_in * 10000"
    using assms(1) by (subst unat_mul_fits) simp_all
  let ?i = "(amount_in * 10000) div (reserve_in + amount_in)"
  have q: "unat ?i = ?q" by (simp only: unat_div sum prod)
  have nz: "reserve_in + amount_in \<noteq> 0"
    using sum assms(3) by (metis add_is_0 not_gr0 unat_0)
  have "unat (min ?i 10000) = ?q" using le q by (simp add: min_word_unat)
  then have "unat (ucast (min ?i 10000) :: u64) = ?q"
    using le by (subst unat_ucast_fits) simp_all
  moreover have "price_impact_bps amount_in reserve_in = Returns (ucast (min ?i 10000))"
    using assms(3) nz by (auto simp: price_impact_bps_def div_op_def)
  ultimately show ?thesis using le by simp
qed

text \<open>
  The unchecked scaling wraps around: a trade some 3.4e34 times the reserve, whose impact
  is 9999 basis points, is reported with an impact of zero, and a trade that completes the
  reserve to the word size makes the quote panic.
\<close>

lemma price_impact_wraps:
  "price_impact_bps 34028236692093846346337460743176822 1 = Returns 0
   \<and> unat (34028236692093846346337460743176822 :: u128) * 10000
       div (1 + unat (34028236692093846346337460743176822 :: u128)) = 9999
   \<and> price_impact_bps (- 1) 1 = Panic"
  by (simp add: price_impact_bps_def div_op_def)

end
