(* ===== verification/Pool_Contract.thy ===== *)
theory Pool_Contract
  imports Pool_Prepare Pool_Math
begin

unbundle bit_operations_syntax

text \<open>
  The contract client, \<^verbatim>\<open>src/pool/contract.rs\<close>: reserves with their cache, quotes, liquidity
  balances, the prepared calls, validation against the ledger, and submission with polling. The
  helper \<open>i128_to_u128\<close> is called there but defined nowhere, and the function that reads the
  instance storage returns another type than its callers use; both are arguments here. Gauges
  are left out. The byte-scanning helpers of the same file are modelled as they are.
\<close>

subsection \<open>Reserves and quotes\<close>

definition CACHE_TTL :: duration where
  "CACHE_TTL = from_secs 30"

record pool_reserves =
  pr_reserve_0 :: u128
  pr_reserve_1 :: u128
  pr_token_0 :: asset_id
  pr_token_1 :: asset_id
  pr_lp_total_supply :: u128
  pr_timestamp_last :: u64

record price_quote =
  pq_amount_in :: u128
  pq_amount_out :: u128
  pq_token_in :: asset_id
  pq_token_out :: asset_id
  pq_fee_bps :: u64
  pq_price_impact_bps :: u64
  pq_effective_price :: rational_price

record cached_reserves =
  ca_data :: pool_reserves
  ca_fetched_at :: instant

type_synonym reserve_cache = "cached_reserves option"

text \<open>
  A lookup at time \<open>now\<close>; when the reserves have to be fetched, \<open>stored\<close> is the time at which the
  answer is put into the cache.
\<close>

definition get_reserves ::
  "('w \<Rightarrow> (engine_error + pool_reserves) \<times> 'w) \<Rightarrow> instant \<Rightarrow> instant \<Rightarrow> reserve_cache \<times> 'w \<Rightarrow>
     (engine_error + pool_reserves) \<times> reserve_cache \<times> 'w" where
  "get_reserves fetch now stored = (\<lambda>(cache, w).
     let refetch = (case fetch w of
           (Err e, w') \<Rightarrow> (Err e, (cache, w'))
         | (Ok r, w') \<Rightarrow> (Ok r, (Some \<lparr>ca_data = r, ca_fetched_at = stored\<rparr>, w'))) in
     case cache of
       Some c \<Rightarrow> if elapsed now (ca_fetched_at c) < CACHE_TTL then (Ok (ca_data c), (cache, w)) else refetch
     | None \<Rightarrow> refetch)"

text \<open>The direction of a trade, resolved by the canonical key: reserves in and out, token out.\<close>

definition direction :: "pool_reserves \<Rightarrow> asset_id \<Rightarrow> engine_error + u128 \<times> u128 \<times> asset_id" where
  "direction r token_in =
     (let key_in = canonical_key token_in; key_0 = canonical_key (pr_token_0 r);
          key_1 = canonical_key (pr_token_1 r) in
      if key_in = key_0 then Ok (pr_reserve_0 r, pr_reserve_1 r, pr_token_1 r)
      else if key_in = key_1 then Ok (pr_reserve_1 r, pr_reserve_0 r, pr_token_0 r)
      else Err (InvalidRequest (''asset '' @ [CHR 0x27] @ ast_symbol token_in @ [CHR 0x27] @ '' (key: '' @ [CHR 0x27] @
             key_in @ [CHR 0x27] @ '') is not in this pool (pool keys: '' @ [CHR 0x27] @ key_0 @ [CHR 0x27] @ '', '' @
             [CHR 0x27] @ key_1 @ [CHR 0x27] @ '')'')))"

definition fee_bps :: u64 where
  "fee_bps = ucast ((FEE_DENOMINATOR - FEE_NUMERATOR) * 10)"

definition quote_of :: "pool_reserves \<Rightarrow> u128 \<Rightarrow> asset_id \<Rightarrow> (engine_error + price_quote) outcome" where
  "quote_of r amount_in token_in =
     try_out (direction r token_in) (\<lambda>(reserve_in, reserve_out, token_out).
     bind_out (get_amount_out amount_in reserve_in reserve_out) (\<lambda>res.
     try_out (map_err res (\<lambda>e. InvalidRequest (math_error_to_string e))) (\<lambda>amount_out.
     bind_out (price_impact_bps amount_in reserve_in) (\<lambda>price_impact.
     bind_out (if amount_out > 0 then rational_price_new amount_in amount_out else Returns rational_price_zero)
       (\<lambda>effective_price.
     Returns (Ok
       \<lparr>pq_amount_in = amount_in, pq_amount_out = amount_out, pq_token_in = token_in, pq_token_out = token_out,
        pq_fee_bps = fee_bps, pq_price_impact_bps = price_impact, pq_effective_price = effective_price\<rparr>))))))"

definition get_quote ::
  "('w \<Rightarrow> (engine_error + pool_reserves) \<times> 'w) \<Rightarrow> instant \<Rightarrow> instant \<Rightarrow> u128 \<Rightarrow> asset_id \<Rightarrow> reserve_cache \<times> 'w \<Rightarrow>
     (engine_error + price_quote) outcome \<times> reserve_cache \<times> 'w" where
  "get_quote fetch now stored amount_in token_in st =
     (case get_reserves fetch now stored st of
        (Err e, st') \<Rightarrow> (Returns (Err e), st')
      | (Ok reserves, st') \<Rightarrow> (quote_of reserves amount_in token_in, st'))"

subsection \<open>Reading the ledger\<close>

text \<open>The pool's typed instance storage comes from \<open>fetch_map\<close>; \<open>to_u128\<close> is \<open>i128_to_u128\<close>.\<close>

definition instance_u128 ::
  "'x stellar_lib \<Rightarrow> (i128 \<Rightarrow> u128 option) \<Rightarrow> 'x sc_map \<Rightarrow> string \<Rightarrow> engine_error + u128" where
  "instance_u128 lib to_u128 m name =
     bind_res (instance_i128 lib m name) (\<lambda>v.
     ok_or (to_u128 v) (Internal (name @ '' is negative or overflowed u128'')))"

definition lp_token_address ::
  "'x stellar_lib \<Rightarrow> ('w \<Rightarrow> (engine_error + 'x sc_map) \<times> 'w) \<Rightarrow> 'w \<Rightarrow> (engine_error + string) \<times> 'w" where
  "lp_token_address lib fetch_map =
     bind_st fetch_map (\<lambda>m. lift_res (
     bind_res (instance_address lib m ''LpToken'') (\<lambda>addr. Ok (address_to_string lib addr))))"

definition lp_balance ::
  "'x stellar_lib \<Rightarrow> rpc_codec \<Rightarrow> 'w transport \<Rightarrow> (i128 \<Rightarrow> u128 option) \<Rightarrow> ('w \<Rightarrow> (engine_error + 'x sc_map) \<times> 'w) \<Rightarrow>
     string \<Rightarrow> 'w \<Rightarrow> (engine_error + u128) \<times> 'w" where
  "lp_balance lib codec call to_u128 fetch_map address =
     bind_st (lp_token_address lib fetch_map) (\<lambda>lp_token.
     bind_st (lift_res (bind_res (sepal41_balance_key lib address) (contract_persistent_ledger_key lib lp_token)))
       (\<lambda>key_xdr.
     bind_st (get_ledger_entries codec call [key_xdr]) (\<lambda>entries.
     lift_res (case entries of
         [] \<Rightarrow> Ok 0
       | entry # _ \<Rightarrow>
           bind_res (decode_contract_data_val lib (le_xdr entry)) (\<lambda>val.
           bind_res (scval_to_i128 lib val) (\<lambda>v.
           ok_or (to_u128 v) (Internal ''LP token balance is negative or overflowed u128'')))))))"

definition read_lp_total_supply ::
  "'x stellar_lib \<Rightarrow> rpc_codec \<Rightarrow> 'w transport \<Rightarrow> (i128 \<Rightarrow> u128 option) \<Rightarrow> string \<Rightarrow> 'w \<Rightarrow> (engine_error + u128) \<times> 'w" where
  "read_lp_total_supply lib codec call to_u128 lp_token =
     bind_st (lift_res (contract_instance_ledger_key lib lp_token)) (\<lambda>key_xdr.
     bind_st (get_ledger_entries codec call [key_xdr]) (\<lambda>entries.
     lift_res (case entries of
         [] \<Rightarrow> Err (NotFound (''LP token contract '' @ lp_token @ '' instance not found''))
       | entry # _ \<Rightarrow>
           bind_res (decode_instance_storage lib (le_xdr entry)) (\<lambda>m.
           bind_res (instance_i128 lib m ''TotalSupply'') (\<lambda>supply.
           ok_or (to_u128 supply) (Internal ''LP token total supply is negative or overflowed u128''))))))"

definition fetch_reserves ::
  "'x stellar_lib \<Rightarrow> rpc_codec \<Rightarrow> 'w transport \<Rightarrow> (i128 \<Rightarrow> u128 option) \<Rightarrow> ('w \<Rightarrow> (engine_error + 'x sc_map) \<times> 'w) \<Rightarrow>
     pool_config \<Rightarrow> 'w \<Rightarrow> (engine_error + pool_reserves) \<times> 'w" where
  "fetch_reserves lib codec call to_u128 fetch_map pool =
     bind_st fetch_map (\<lambda>m.
     bind_st (lift_res (instance_u128 lib to_u128 m ''Reserve0'')) (\<lambda>reserve_0.
     bind_st (lift_res (instance_u128 lib to_u128 m ''Reserve1'')) (\<lambda>reserve_1.
     bind_st (lift_res (instance_u64 lib m ''TimestampLast'')) (\<lambda>timestamp_last.
     bind_st (lift_res (instance_address lib m ''LpToken'')) (\<lambda>lp_addr.
     bind_st (read_lp_total_supply lib codec call to_u128 (address_to_string lib lp_addr)) (\<lambda>lp_total_supply.
     lift_res (Ok
       \<lparr>pr_reserve_0 = reserve_0, pr_reserve_1 = reserve_1, pr_token_0 = pc_token_0 pool,
        pr_token_1 = pc_token_1 pool, pr_lp_total_supply = lp_total_supply, pr_timestamp_last = timestamp_last\<rparr>)))))))"

text \<open>
  The read of the pool's instance entry. Its last step, which makes the entry's text the map that
  the callers use, is the argument \<open>decode\<close>; the reads above take the whole as \<open>fetch_map\<close>.
\<close>

definition fetch_pool_instance_map ::
  "'x stellar_lib \<Rightarrow> rpc_codec \<Rightarrow> 'w transport \<Rightarrow> (string \<Rightarrow> engine_error + 'm) \<Rightarrow> pool_config \<Rightarrow> 'w \<Rightarrow> (engine_error + 'm) \<times> 'w" where
  "fetch_pool_instance_map lib codec call decode pool =
     bind_st (lift_res (contract_instance_ledger_key lib (pc_contract_id pool))) (\<lambda>key.
     bind_st (get_ledger_entries codec call [key]) (\<lambda>entries.
     lift_res (case entries of
         [] \<Rightarrow> Err (NotFound ''contract instance not found'')
       | entry # _ \<Rightarrow> decode (le_xdr entry))))"

subsection \<open>Transactions\<close>

definition prepare_swap ::
  "'x stellar_lib \<Rightarrow> (string \<Rightarrow> string) \<Rightarrow> rpc_codec \<Rightarrow> 'w transport \<Rightarrow> pool_config \<Rightarrow> network \<Rightarrow> string \<Rightarrow> u128 \<Rightarrow> u128 \<Rightarrow>
     prepare_params \<Rightarrow> u64 \<Rightarrow> 'w \<Rightarrow> (engine_error + prepared_transaction) \<times> 'w" where
  "prepare_swap lib sha256_hex codec call pool net to_addr amount_0_out amount_1_out req now =
     bind_st (lift_res (encode_swap_args lib to_addr amount_0_out amount_1_out (pp_deadline req))) (\<lambda>args.
     prepare lib sha256_hex codec call pool net Swap args req now)"

definition prepare_add_liquidity ::
  "'x stellar_lib \<Rightarrow> (string \<Rightarrow> string) \<Rightarrow> rpc_codec \<Rightarrow> 'w transport \<Rightarrow> pool_config \<Rightarrow> network \<Rightarrow> string \<Rightarrow> string \<Rightarrow>
     u128 \<Rightarrow> u128 \<Rightarrow> u128 \<Rightarrow> u128 \<Rightarrow> prepare_params \<Rightarrow> u64 \<Rightarrow> 'w \<Rightarrow> (engine_error + prepared_transaction) \<times> 'w" where
  "prepare_add_liquidity lib sha256_hex codec call pool net from_addr to_addr d0 d1 m0 m1 req now =
     bind_st (lift_res (encode_add_liquidity_args lib from_addr to_addr d0 d1 m0 m1 (pp_deadline req))) (\<lambda>args.
     prepare lib sha256_hex codec call pool net AddLiquidity args req now)"

definition prepare_remove_liquidity ::
  "'x stellar_lib \<Rightarrow> (string \<Rightarrow> string) \<Rightarrow> rpc_codec \<Rightarrow> 'w transport \<Rightarrow> pool_config \<Rightarrow> network \<Rightarrow> string \<Rightarrow> string \<Rightarrow>
     u128 \<Rightarrow> u128 \<Rightarrow> u128 \<Rightarrow> prepare_params \<Rightarrow> u64 \<Rightarrow> 'w \<Rightarrow> (engine_error + prepared_transaction) \<times> 'w" where
  "prepare_remove_liquidity lib sha256_hex codec call pool net from_addr to_addr liquidity m0 m1 req now =
     bind_st (lift_res (encode_remove_liquidity_args lib from_addr to_addr liquidity m0 m1 (pp_deadline req))) (\<lambda>args.
     prepare lib sha256_hex codec call pool net RemoveLiquidity args req now)"

text \<open>The expected sequence is the one of the account that the caller names.\<close>

definition validate_transaction ::
  "'x stellar_lib \<Rightarrow> (string \<Rightarrow> string) \<Rightarrow> rpc_codec \<Rightarrow> 'w transport \<Rightarrow> pool_config \<Rightarrow> network \<Rightarrow> string \<Rightarrow> network \<Rightarrow>
     string \<Rightarrow> u64 \<Rightarrow> 'w \<Rightarrow> (engine_error + review_summary) \<times> 'w" where
  "validate_transaction lib sha256_hex codec call pool net xdr declared source now =
     bind_st (lift_res (account_ledger_key lib source)) (\<lambda>account_key.
     bind_st (get_ledger_entries codec call [account_key]) (\<lambda>entries.
     bind_st (lift_res (case entries of
         [] \<Rightarrow> Ok None
       | entry # _ \<Rightarrow> bind_res (decode_account_sequence lib (le_xdr entry)) (\<lambda>s. Ok (Some s)))) (\<lambda>expected_sequence.
     lift_res (validate_tx lib sha256_hex xdr
       \<lparr>vc_network = net, vc_declared_network = declared, vc_contract_id = pc_contract_id pool,
        vc_fee_ceiling_stroops = pc_fee_ceiling_stroops pool, vc_now = now,
        vc_expected_sequence = expected_sequence\<rparr>))))"

record submit_result =
  sb_hash :: string
  sb_send_status :: string
  sb_final_status :: string
  sb_result_xdr :: "string option"
  sb_polled_attempts :: u32

definition MAX_POLLS :: nat where
  "MAX_POLLS = 10"

text \<open>The polling loop from the given attempt on, with the number of polls that are left.\<close>

fun poll :: "rpc_codec \<Rightarrow> 'w transport \<Rightarrow> send_transaction_response \<Rightarrow> nat \<Rightarrow> nat \<Rightarrow> 'w \<Rightarrow> (engine_error + submit_result) \<times> 'w" where
  "poll codec call sent attempt 0 w =
     (Ok \<lparr>sb_hash = sn_hash sent, sb_send_status = sn_status sent, sb_final_status = ''NOT_FOUND'',
          sb_result_xdr = None, sb_polled_attempts = of_nat MAX_POLLS\<rparr>, w)"
| "poll codec call sent attempt (Suc left) w =
     (case get_transaction codec call (sn_hash sent) w of
        (Err e, w') \<Rightarrow> (Err e, w')
      | (Ok got, w') \<Rightarrow>
          if gt_status got \<noteq> ''NOT_FOUND'' then
            (Ok \<lparr>sb_hash = sn_hash sent, sb_send_status = sn_status sent, sb_final_status = gt_status got,
                 sb_result_xdr = gt_result_xdr got, sb_polled_attempts = of_nat attempt\<rparr>, w')
          else poll codec call sent (Suc attempt) left w')"

definition submit_transaction :: "rpc_codec \<Rightarrow> 'w transport \<Rightarrow> string \<Rightarrow> 'w \<Rightarrow> (engine_error + submit_result) \<times> 'w" where
  "submit_transaction codec call signed_xdr =
     bind_st (send_transaction codec call signed_xdr) (\<lambda>sent.
     if sn_status sent \<noteq> ''PENDING'' \<and> sn_status sent \<noteq> ''DUPLICATE'' then
       lift_res (Err (PreconditionFailed (''sendTransaction returned '' @ sn_status sent @ '': '' @
         (case sn_error_result_xdr sent of Some x \<Rightarrow> x | None \<Rightarrow> []))))
     else poll codec call sent 1 MAX_POLLS)"

subsection \<open>Byte scanning\<close>

fun be_bytes :: "bytes \<Rightarrow> nat \<Rightarrow> nat" where
  "be_bytes [] acc = acc"
| "be_bytes (b # bs) acc = be_bytes bs (256 * acc + unat b)"

text \<open>The first window of the buffer that equals the key.\<close>

fun find_key :: "bytes \<Rightarrow> bytes \<Rightarrow> nat option" where
  "find_key key [] = (if key = [] then Some 0 else None)"
| "find_key key (b # bs) =
     (if take (length key) (b # bs) = key then Some 0 else map_option Suc (find_key key bs))"

definition hi_lo :: "bytes \<Rightarrow> u128" where
  "hi_lo bs =
     (let hi = (of_nat (be_bytes (take 8 bs) 0) :: i64); lo = (of_nat (be_bytes (take 8 (drop 8 bs)) 0) :: u64) in
      if sint hi < 0 then 0 else push_bit 64 (ucast hi) OR ucast lo)"

definition extract_i128_by_key :: "bytes \<Rightarrow> bytes \<Rightarrow> u128 option" where
  "extract_i128_by_key buf key =
     (case find_key key buf of
        None \<Rightarrow> None
      | Some pos \<Rightarrow>
          let start = pos + length key in
          if length buf < start + 16 then None else Some (hi_lo (drop start buf)))"

definition extract_u64_by_key :: "bytes \<Rightarrow> bytes \<Rightarrow> u64 option" where
  "extract_u64_by_key buf key =
     (case find_key key buf of
        None \<Rightarrow> None
      | Some pos \<Rightarrow>
          let start = pos + length key in
          if length buf < start + 8 then None else Some (of_nat (be_bytes (take 8 (drop start buf)) 0)))"

definition parse_i128_from_xdr :: "(string \<Rightarrow> string + bytes) \<Rightarrow> string \<Rightarrow> engine_error + u128" where
  "parse_i128_from_xdr b64_decode xdr =
     bind_res (map_err (b64_decode xdr) (\<lambda>e. Internal (''decode xdr: '' @ e))) (\<lambda>bytes.
     if length bytes < 20 then Ok 0 else Ok (hi_lo (drop 4 bytes)))"

definition ascii_bytes :: "string \<Rightarrow> bytes" where
  "ascii_bytes s = map (\<lambda>c. of_nat (of_char c)) s"

definition or_zero :: "'w::len word option \<Rightarrow> 'w word" where
  "or_zero x = (case x of Some v \<Rightarrow> v | None \<Rightarrow> 0)"

definition parse_instance_storage ::
  "(string \<Rightarrow> string + bytes) \<Rightarrow> string \<Rightarrow> asset_id \<Rightarrow> asset_id \<Rightarrow> engine_error + pool_reserves" where
  "parse_instance_storage b64_decode xdr token_0 token_1 =
     bind_res (map_err (b64_decode xdr) (\<lambda>e. Internal (''decode instance xdr: '' @ e))) (\<lambda>bytes.
     Ok \<lparr>pr_reserve_0 = or_zero (extract_i128_by_key bytes (ascii_bytes ''Reserve0'')),
         pr_reserve_1 = or_zero (extract_i128_by_key bytes (ascii_bytes ''Reserve1'')),
         pr_token_0 = token_0, pr_token_1 = token_1,
         pr_lp_total_supply = or_zero (extract_i128_by_key bytes (ascii_bytes ''LpTotalSup'')),
         pr_timestamp_last = or_zero (extract_u64_by_key bytes (ascii_bytes ''TimestampL''))\<rparr>)"

definition pad4 :: "bytes \<Rightarrow> nat \<Rightarrow> bytes" where
  "pad4 buf len = (let rem = len mod 4 in if rem \<noteq> 0 then buf @ replicate (4 - rem) 0 else buf)"

definition parse_contract_id ::
  "(string \<Rightarrow> string + bytes) \<Rightarrow> (string \<Rightarrow> string + bytes) \<Rightarrow> string \<Rightarrow> engine_error + bytes" where
  "parse_contract_id hex_decode b64_decode i =
     bind_res (case hex_decode (dropWhile (\<lambda>c. c = CHR ''C'') i) of
         Ok b \<Rightarrow> Ok b
       | Err _ \<Rightarrow> map_err (b64_decode i) (\<lambda>_. InvalidRequest (''invalid contract id: '' @ i))) (\<lambda>b.
     if length b = 32 then Ok b
     else Err (InvalidRequest (''contract id must be 32 bytes: '' @ i)))"

definition u32_be :: "nat \<Rightarrow> bytes" where
  "u32_be n = map (\<lambda>i. of_nat (n div 256 ^ i)) [3, 2, 1, 0]"

definition lp_balance_key_xdr ::
  "(string \<Rightarrow> string + bytes) \<Rightarrow> (string \<Rightarrow> string + bytes) \<Rightarrow> (bytes \<Rightarrow> string) \<Rightarrow> string \<Rightarrow> string \<Rightarrow> engine_error + string" where
  "lp_balance_key_xdr hex_decode b64_decode b64_encode contract_id address =
     bind_res (parse_contract_id hex_decode b64_decode contract_id) (\<lambda>contract_bytes.
     bind_res (parse_contract_id hex_decode b64_decode address) (\<lambda>addr_bytes.
     let tag = ascii_bytes ''LpBalance'';
         buf = u32_be 2 @ u32_be 1 @ contract_bytes @ u32_be 11 @ u32_be 2 @ u32_be 7 @ u32_be (length tag) @ tag;
         buf' = pad4 buf (length tag) @ u32_be 6 @ u32_be 1 @ addr_bytes @ u32_be 1 in
     Ok (b64_encode buf')))"

subsection \<open>Lemmas: reserves and quotes\<close>

lemma get_reserves_Ok:
  "get_reserves fetch now stored (cache, w) = (Ok r, st') \<longleftrightarrow>
     (\<exists>c. cache = Some c \<and> elapsed now (ca_fetched_at c) < CACHE_TTL \<and> r = ca_data c \<and> st' = (cache, w)) \<or>
     (\<forall>c. cache = Some c \<longrightarrow> CACHE_TTL \<le> elapsed now (ca_fetched_at c)) \<and>
     (\<exists>w'. fetch w = (Ok r, w') \<and> st' = (Some \<lparr>ca_data = r, ca_fetched_at = stored\<rparr>, w'))"
  by (auto simp: get_reserves_def Let_def split: option.split prod.splits sum.splits)

lemma direction_Ok:
  assumes "direction r token = Ok (ri, ro, token_out)"
  shows "canonical_key token = canonical_key (pr_token_0 r) \<and> ri = pr_reserve_0 r \<and> ro = pr_reserve_1 r \<and>
      token_out = pr_token_1 r \<or>
    canonical_key token = canonical_key (pr_token_1 r) \<and> ri = pr_reserve_1 r \<and> ro = pr_reserve_0 r \<and>
      token_out = pr_token_0 r"
  using assms by (auto simp: direction_def Let_def split: if_splits)

lemma quote_of_Ok:
  assumes "quote_of r a token = Returns (Ok q)"
  obtains ri ro where "direction r token = Ok (ri, ro, pq_token_out q)"
    "get_amount_out a ri ro = Returns (Ok (pq_amount_out q))" "price_impact_bps a ri = Returns (pq_price_impact_bps q)"
    "pq_amount_in q = a" "pq_token_in q = token" "pq_fee_bps q = 30"
    "0 < pq_amount_out q \<longrightarrow> rational_price_new a (pq_amount_out q) = Returns (pq_effective_price q)"
  using assms that
  by (auto simp: quote_of_def res_simps fee_bps_def FEE_DENOMINATOR_def FEE_NUMERATOR_def split: if_splits)

text \<open>The price of a quote is the exact ratio of its amounts.\<close>

lemma rational_price_ratio:
  assumes "rational_price_new n d = Returns p" and "d \<noteq> 0"
  shows "price_num p * unat d = price_den p * unat n"
  using assms
  by (simp add: rational_price_new_Returns price_num_def price_den_def)
     (auto simp: div_mult_swap dvd_div_mult mult.commute)

lemma quote_of_Returns: "quote_of r a token \<noteq> Panic"
proof -
  have price: "rational_price_new a y \<noteq> Panic" if "0 < y" for y :: u128
    using that by (simp add: rational_price_new_Returns)
  have impact: "price_impact_bps a ri \<noteq> Panic" if "get_amount_out a ri ro = Returns (Ok y)" for ri ro y
    using amount_out_impact [OF that] by auto
  have out: "get_amount_out a ri ro \<noteq> Panic" for ri ro
    by (simp add: get_amount_out_eq)
  show ?thesis
    using price impact out unfolding quote_of_def
    by (auto simp: res_simps try_out_eq_Panic split: if_splits)
qed

lemma quote_of_answers:
  "(\<exists>q. quote_of r a token = Returns (Ok q)) \<longleftrightarrow>
     (\<exists>ri ro t y. direction r token = Ok (ri, ro, t) \<and> get_amount_out a ri ro = Returns (Ok y))"
proof
  assume "\<exists>ri ro t y. direction r token = Ok (ri, ro, t) \<and> get_amount_out a ri ro = Returns (Ok y)"
  then obtain ri ro t y where dir: "direction r token = Ok (ri, ro, t)" and out: "get_amount_out a ri ro = Returns (Ok y)"
    by blast
  obtain bps where "price_impact_bps a ri = Returns bps" using amount_out_impact [OF out] by blast
  with dir out show "\<exists>q. quote_of r a token = Returns (Ok q)"
    by (simp add: quote_of_def rational_price_new_Returns)
qed (auto elim: quote_of_Ok)

lemma direction_Err: "direction r token = Err e \<Longrightarrow> \<exists>why. e = InvalidRequest why"
  by (auto simp: direction_def Let_def split: if_splits)

lemma quote_of_refused: "quote_of r a token = Returns (Err e) \<Longrightarrow> \<exists>why. e = InvalidRequest why"
  by (auto simp: quote_of_def try_out_eq_Returns_Err bind_out_eq_Returns map_err_eq_Err dest: direction_Err)

subsection \<open>Lemmas: polling\<close>

text \<open>The world after a number of polls.\<close>

definition polled :: "rpc_codec \<Rightarrow> 'w transport \<Rightarrow> string \<Rightarrow> nat \<Rightarrow> 'w \<Rightarrow> 'w" where
  "polled codec call hash n w = ((\<lambda>v. snd (get_transaction codec call hash v)) ^^ n) w"

definition poll_answer :: "rpc_codec \<Rightarrow> 'w transport \<Rightarrow> string \<Rightarrow> nat \<Rightarrow> 'w \<Rightarrow> engine_error + get_transaction_response" where
  "poll_answer codec call hash n w = fst (get_transaction codec call hash (polled codec call hash n w))"

lemma polled_Suc: "polled codec call hash (Suc n) w = polled codec call hash n (snd (get_transaction codec call hash w))"
  by (simp only: polled_def funpow_Suc_right comp_apply)

lemma poll_answer_Suc:
  "poll_answer codec call hash (Suc n) w = poll_answer codec call hash n (snd (get_transaction codec call hash w))"
  by (simp add: poll_answer_def polled_Suc)

lemma poll_Ok:
  assumes "poll codec call sent attempt (Suc left) w = (Ok r, w')" and "attempt + left = MAX_POLLS" and "1 \<le> attempt"
  shows "sb_hash r = sn_hash sent \<and> sb_send_status r = sn_status sent \<and>
    (\<exists>n got. n \<le> left \<and> unat (sb_polled_attempts r) = attempt + n \<and>
       (\<forall>k < n. \<exists>g. poll_answer codec call (sn_hash sent) k w = Ok g \<and> gt_status g = ''NOT_FOUND'') \<and>
       poll_answer codec call (sn_hash sent) n w = Ok got \<and> sb_final_status r = gt_status got \<and>
       (gt_status got = ''NOT_FOUND'' \<longrightarrow> n = left) \<and> w' = polled codec call (sn_hash sent) (Suc n) w)"
  using assms
proof (induction left arbitrary: attempt w)
  case 0
  have small: "unat (of_nat attempt :: u32) = attempt" "unat (of_nat MAX_POLLS :: u32) = MAX_POLLS"
    using 0(2) by (simp_all add: unat_of_nat_fits MAX_POLLS_def)
  from 0 small show ?case
    by (auto simp: poll_answer_def polled_def split: prod.splits sum.splits if_splits)
next
  case (Suc left)
  have small: "unat (of_nat attempt :: u32) = attempt" using Suc.prems(2) by (simp add: unat_of_nat_fits MAX_POLLS_def)
  obtain got w1 where got: "get_transaction codec call (sn_hash sent) w = (Ok got, w1)"
    using Suc.prems(1) by (auto split: prod.splits sum.splits)
  show ?case
  proof (cases "gt_status got = ''NOT_FOUND''")
    case False
    with Suc.prems(1) got small show ?thesis
      by (auto simp: poll_answer_def polled_def intro!: exI [of _ "0 :: nat"])
  next
    case True
    with Suc.prems(1) got have "poll codec call sent (Suc attempt) (Suc left) w1 = (Ok r, w')" by simp
    from Suc.IH [OF this] Suc.prems(2,3) obtain n got' where n:
      "sb_hash r = sn_hash sent" "sb_send_status r = sn_status sent" "n \<le> left"
      "unat (sb_polled_attempts r) = Suc attempt + n"
      "\<forall>k < n. \<exists>g. poll_answer codec call (sn_hash sent) k w1 = Ok g \<and> gt_status g = ''NOT_FOUND''"
      "poll_answer codec call (sn_hash sent) n w1 = Ok got'" "sb_final_status r = gt_status got'"
      "gt_status got' = ''NOT_FOUND'' \<longrightarrow> n = left" "w' = polled codec call (sn_hash sent) (Suc n) w1"
      by auto
    have zero: "poll_answer codec call (sn_hash sent) 0 w = Ok got" by (simp add: poll_answer_def polled_def got)
    have shift: "poll_answer codec call (sn_hash sent) (Suc k) w = poll_answer codec call (sn_hash sent) k w1" for k
      by (simp add: poll_answer_Suc got)
    have "\<exists>g. poll_answer codec call (sn_hash sent) k w = Ok g \<and> gt_status g = ''NOT_FOUND''" if "k < Suc n" for k
      using that n(5) zero True shift by (cases k) auto
    moreover have "w' = polled codec call (sn_hash sent) (Suc (Suc n)) w"
      using n(9) by (simp add: polled_Suc [of _ _ _ "Suc n"] got)
    ultimately show ?thesis
      using n shift [of n] by (intro conjI exI [of _ "Suc n"] exI [of _ got']) auto
  qed
qed

subsection \<open>Lemmas: prepared calls\<close>

lemma prepare_swap_Ok:
  assumes "prepare_swap lib sha256_hex codec call pool net to_addr a0 a1 req now w = (Ok p, w')"
  obtains addr where "parse_address lib to_addr = Ok addr" "unat a0 < 2 ^ 127" "unat a1 < 2 ^ 127"
    "prepare lib sha256_hex codec call pool net Swap
       [SvAddress addr, i128_to_scval a0, i128_to_scval a1, SvU64 (pp_deadline req)] req now w = (Ok p, w')"
proof -
  from assms obtain args where args: "encode_swap_args lib to_addr a0 a1 (pp_deadline req) = Ok args"
    and run: "prepare lib sha256_hex codec call pool net Swap args req now w = (Ok p, w')"
    by (auto simp: prepare_swap_def res_simps)
  from args show thesis by (rule encode_swap_args_Ok) (use run that in simp)
qed

text \<open>The typed decoding of the reserves, with a conversion that accepts the non-negative values.\<close>

lemma fetch_reserves_Ok:
  assumes "fetch_reserves lib codec call to_u128 fetch_map pool w = (Ok r, w')"
    and "\<And>v u. to_u128 v = Some u \<longleftrightarrow> 0 \<le> sint v \<and> u = v"
  obtains m w1 lp where "fetch_map w = (Ok m, w1)"
    "map_of m (SvSymbol ''Reserve0'') = Some (i128_to_scval (pr_reserve_0 r))" "0 \<le> sint (pr_reserve_0 r)"
    "map_of m (SvSymbol ''Reserve1'') = Some (i128_to_scval (pr_reserve_1 r))" "0 \<le> sint (pr_reserve_1 r)"
    "map_of m (SvSymbol ''TimestampLast'') = Some (SvU64 (pr_timestamp_last r))"
    "map_of m (SvSymbol ''LpToken'') = Some (SvAddress lp)"
    "pr_token_0 r = pc_token_0 pool" "pr_token_1 r = pc_token_1 pool"
    "read_lp_total_supply lib codec call to_u128 (address_to_string lib lp) w1 = (Ok (pr_lp_total_supply r), w')"
  using assms(1) that
  by (auto simp: fetch_reserves_def instance_u128_def res_simps assms(2))

text \<open>
  The sequence check follows the account that the caller names, which is never compared with the
  source of the transaction: the sequence of a stranger's account admits it just as well.
\<close>

lemma validate_source_unchecked:
  "validate_transaction demo_stellar (\<lambda>_. ''hash'') demo_codec demo_call demo_pool Testnet ''prepared'' Testnet
     ''GOTHER'' 1000 () = (Ok demo_review, ()) \<and> rs_source_account demo_review = ''GSRC''"
proof
  show "validate_transaction demo_stellar (\<lambda>_. ''hash'') demo_codec demo_call demo_pool Testnet ''prepared'' Testnet
     ''GOTHER'' 1000 () = (Ok demo_review, ())"
    using demo_validated
    by (simp add: validate_transaction_def account_ledger_key_def parse_account_def get_ledger_entries_def typed_call_def
        demo_call_def demo_codec_def demo_stellar_def bind_st_def lift_res_def json_index_def ok_value_def
        List.map_filter_def decode_account_sequence_def demo_pool_def demo_context_def)
  show "rs_source_account demo_review = ''GSRC''"
    by (simp add: demo_review_def review_of_def call_transaction_def source_of_def account_id_to_string_def demo_stellar_def)
qed

subsection \<open>Properties\<close>

text \<open>
  C24. The errors of a quote. It never panics and every refusal is an invalid request; it is
  refused exactly when the token is neither token of the pool, an amount or a reserve is zero, or
  an intermediate product does not fit into 128 bits.\<close>

theorem quote_refusals:
  "((\<exists>q. quote_of r a token = Returns (Ok q)) \<longleftrightarrow>
      (\<exists>ri ro t. direction r token = Ok (ri, ro, t) \<and> 0 < unat a \<and> 0 < unat ri \<and> 0 < unat ro \<and>
         unat a * 997 * unat ro < 2 ^ 128 \<and> unat ri * 1000 + unat a * 997 < 2 ^ 128)) \<and>
   ((\<exists>q. quote_of r a token = Returns (Ok q)) \<or> (\<exists>why. quote_of r a token = Returns (Err (InvalidRequest why))))"
  using quote_of_answers [of r a token] quote_of_refused [of r a token] quote_of_Returns [of r a token]
  by (cases "quote_of r a token" rule: outcome_res_cases) (simp_all add: get_amount_out_accepts)

text \<open>
  C14. A quote rests on reserves that were fetched for it or put into the cache less than thirty
  seconds before. The direction of the trade is the one of the token's canonical key, the output
  is below the reserve, the trade at the quoted amounts does not lower the product of the
  reserves, the fee is thirty basis points, and the reported price is the exact ratio of the
  amounts.\<close>

theorem quote_is_sound:
  assumes "get_quote fetch now stored a token (cache, w) = (Returns (Ok q), st')"
  shows "\<exists>r ri ro.
    ((\<exists>c. cache = Some c \<and> elapsed now (ca_fetched_at c) < from_secs 30 \<and> r = ca_data c \<and> st' = (cache, w)) \<or>
     (\<exists>w'. fetch w = (Ok r, w') \<and> st' = (Some \<lparr>ca_data = r, ca_fetched_at = stored\<rparr>, w'))) \<and>
    (canonical_key token = canonical_key (pr_token_0 r) \<and> ri = pr_reserve_0 r \<and> ro = pr_reserve_1 r \<and>
       pq_token_out q = pr_token_1 r \<or>
     canonical_key token = canonical_key (pr_token_1 r) \<and> ri = pr_reserve_1 r \<and> ro = pr_reserve_0 r \<and>
       pq_token_out q = pr_token_0 r) \<and>
    pq_amount_in q = a \<and> unat (pq_amount_out q) < unat ro \<and>
    unat ri * unat ro \<le> (unat ri + unat a) * (unat ro - unat (pq_amount_out q)) \<and> pq_fee_bps q = 30 \<and>
    (0 < pq_amount_out q \<longrightarrow>
       price_num (pq_effective_price q) * unat (pq_amount_out q) = price_den (pq_effective_price q) * unat a)"
proof -
  from assms obtain r where r: "get_reserves fetch now stored (cache, w) = (Ok r, st')"
    and q: "quote_of r a token = Returns (Ok q)"
    by (auto simp: get_quote_def split: prod.splits sum.splits)
  from q obtain ri ro where d: "direction r token = Ok (ri, ro, pq_token_out q)"
    and out: "get_amount_out a ri ro = Returns (Ok (pq_amount_out q))"
    and rest: "pq_amount_in q = a" "pq_fee_bps q = 30"
    and price: "0 < pq_amount_out q \<longrightarrow> rational_price_new a (pq_amount_out q) = Returns (pq_effective_price q)"
    by (rule quote_of_Ok)
  have "0 < pq_amount_out q \<longrightarrow>
      price_num (pq_effective_price q) * unat (pq_amount_out q) = price_den (pq_effective_price q) * unat a"
    using price rational_price_ratio by auto
  moreover have "(\<exists>c. cache = Some c \<and> elapsed now (ca_fetched_at c) < from_secs 30 \<and> r = ca_data c \<and> st' = (cache, w)) \<or>
     (\<exists>w'. fetch w = (Ok r, w') \<and> st' = (Some \<lparr>ca_data = r, ca_fetched_at = stored\<rparr>, w'))"
    using r unfolding get_reserves_Ok CACHE_TTL_def by blast
  ultimately show ?thesis
    using direction_Ok [OF d] rest get_amount_out_product(1,3) [OF out] by blast
qed

definition demo_reserves :: pool_reserves where
  "demo_reserves = \<lparr>pr_reserve_0 = 10000000, pr_reserve_1 = 10000000, pr_token_0 = native_asset ''testnet'',
     pr_token_1 = \<lparr>ast_network = ''testnet'', ast_type = ContractToken, ast_symbol = ''USDC'', ast_decimals = 7,
       ast_issuer = None, ast_contract = Some ''CUSDC''\<rparr>,
     pr_lp_total_supply = 5000, pr_timestamp_last = 0\<rparr>"

lemma demo_quote:
  "\<exists>q. quote_of demo_reserves 1000000 (native_asset ''testnet'') = Returns (Ok q) \<and> pq_amount_out q = 906610"
proof -
  have out: "get_amount_out 1000000 10000000 10000000 = Returns (Ok 906610)"
    by (simp add: get_amount_out_eq)
  obtain bps where bps: "price_impact_bps 1000000 10000000 = Returns bps" using amount_out_impact [OF out] by blast
  have dir: "direction demo_reserves (native_asset ''testnet'') = Ok (10000000, 10000000, pr_token_1 demo_reserves)"
    by (simp add: direction_def demo_reserves_def)
  show ?thesis by (simp add: quote_of_def dir out bps rational_price_new_Returns)
qed

theorem quote_is_sound_witness:
  "unat (906610 :: u128) < unat (10000000 :: u128)"
proof -
  obtain q where q: "quote_of demo_reserves 1000000 (native_asset ''testnet'') = Returns (Ok q)"
    "pq_amount_out q = 906610" using demo_quote by blast
  have "get_quote (\<lambda>w. (Ok demo_reserves, w)) 0 1 1000000 (native_asset ''testnet'') (None, ()) =
      (Returns (Ok q), (Some \<lparr>ca_data = demo_reserves, ca_fetched_at = 1\<rparr>, ()))"
    by (simp add: get_quote_def get_reserves_def q)
  from quote_is_sound [OF this] q(2) show ?thesis by (auto simp: demo_reserves_def)
qed


definition settling_codec :: rpc_codec where
  "settling_codec = demo_codec
     \<lparr>de_send := (\<lambda>_. Ok \<lparr>sn_status = ''PENDING'', sn_hash = ''abc'', sn_latest_ledger = None, sn_error_result_xdr = None\<rparr>),
      de_get := (\<lambda>j. Ok \<lparr>gt_status = (if j = JNumber ''3'' then ''SUCCESS'' else ''NOT_FOUND''), gt_latest_ledger = None,
        gt_result_xdr = None, gt_envelope_xdr = None\<rparr>)\<rparr>"

definition counting_call :: "nat transport" where
  "counting_call method ps n = (Ok (JNumber (dec_of_nat n)), Suc n)"




end
