(* ===== verification/Pool_Api.thy ===== *)
theory Pool_Api
  imports Pool_Contract
begin

text \<open>
  The pool handlers, \<^verbatim>\<open>src/api/pool.rs\<close>. A handler gets the configured pool client, if any, as the
  function that fetches its reserves, or the other client operations where it calls them. A
  response is a record of the values that its JSON body carries. The property connects the two
  quote handlers.
\<close>

subsection \<open>Helpers\<close>

definition pool_or_err :: "'p option \<Rightarrow> engine_error + 'p" where
  "pool_or_err pool = ok_or pool (Internal ''pool contract not configured'')"

definition apply_slippage :: "u128 \<Rightarrow> u64 \<Rightarrow> u128" where
  "apply_slippage amount slippage_bps = saturating_mul amount (10000 - ucast slippage_bps) div 10000"

definition parse_asset_param :: "(string \<Rightarrow> string + asset_id) \<Rightarrow> string \<Rightarrow> string \<Rightarrow> engine_error + asset_id" where
  "parse_asset_param from_json value param_name =
     map_err (from_json value) (\<lambda>e. InvalidRequest ([CHR 0x27] @ param_name @ [CHR 0x27] @
       '' must be a JSON-encoded AssetId: '' @ e))"

subsection \<open>Quotes\<close>

record quote_query =
  qq_amount_in :: u128
  qq_token_in :: string
  qq_slippage_bps :: "u64 option"

record quote_response =
  qr_quote :: price_quote
  qr_min_amount_out :: "(u128 \<times> u64) option"

type_synonym 'w reserve_source = "'w \<Rightarrow> (engine_error + pool_reserves) \<times> 'w"

definition api_reserves ::
  "'w reserve_source option \<Rightarrow> instant \<Rightarrow> instant \<Rightarrow> reserve_cache \<times> 'w \<Rightarrow> (engine_error + pool_reserves) \<times> reserve_cache \<times> 'w" where
  "api_reserves pool now stored st =
     (case pool_or_err pool of Err e \<Rightarrow> (Err e, st) | Ok fetch \<Rightarrow> get_reserves fetch now stored st)"

definition quote_response_of :: "quote_query \<Rightarrow> price_quote \<Rightarrow> quote_response" where
  "quote_response_of q pq =
     \<lparr>qr_quote = pq,
      qr_min_amount_out = map_option (\<lambda>bps. (apply_slippage (pq_amount_out pq) bps, bps)) (qq_slippage_bps q)\<rparr>"

definition api_quote ::
  "(string \<Rightarrow> string + asset_id) \<Rightarrow> 'w reserve_source option \<Rightarrow> instant \<Rightarrow> instant \<Rightarrow> quote_query \<Rightarrow> reserve_cache \<times> 'w \<Rightarrow>
     (engine_error + quote_response) outcome \<times> reserve_cache \<times> 'w" where
  "api_quote from_json pool now stored q st =
     (case bind_res (parse_asset_param from_json (qq_token_in q) ''token_in'') (\<lambda>token_in.
             bind_res (pool_or_err pool) (\<lambda>fetch. Ok (token_in, fetch))) of
        Err e \<Rightarrow> (Returns (Err e), st)
      | Ok (token_in, fetch) \<Rightarrow>
          (case get_quote fetch now stored (qq_amount_in q) token_in st of
             (res, st') \<Rightarrow> (bind_out res (\<lambda>r. try_out r (\<lambda>pq. Returns (Ok (quote_response_of q pq)))), st')))"

record reverse_quote_query =
  rq_amount_out :: u128
  rq_token_out :: string

text \<open>The input that an output costs, on given reserves.\<close>

definition reverse_quote_of :: "pool_reserves \<Rightarrow> u128 \<Rightarrow> asset_id \<Rightarrow> (engine_error + price_quote) outcome" where
  "reverse_quote_of r amount_out token_out =
     (let key_out = canonical_key token_out in
      try_out
        (if key_out = canonical_key (pr_token_0 r) then Ok (pr_reserve_0 r, pr_reserve_1 r, pr_token_1 r)
         else if key_out = canonical_key (pr_token_1 r) then Ok (pr_reserve_1 r, pr_reserve_0 r, pr_token_0 r)
         else Err (InvalidRequest (''asset '' @ [CHR 0x27] @ ast_symbol token_out @ [CHR 0x27] @ '' (key: '' @ [CHR 0x27] @
                key_out @ [CHR 0x27] @ '') is not in this pool''))) (\<lambda>(reserve_out, reserve_in, token_in).
      try_out (map_err (get_amount_in amount_out reserve_in reserve_out) (\<lambda>e. InvalidRequest (math_error_to_string e)))
        (\<lambda>amount_in.
      bind_out (price_impact_bps amount_in reserve_in) (\<lambda>price_impact.
      bind_out (if amount_out > 0 then rational_price_new amount_in amount_out else Returns rational_price_zero)
        (\<lambda>effective_price.
      Returns (Ok
        \<lparr>pq_amount_in = amount_in, pq_amount_out = amount_out, pq_token_in = token_in, pq_token_out = token_out,
         pq_fee_bps = fee_bps, pq_price_impact_bps = price_impact, pq_effective_price = effective_price\<rparr>))))))"

definition reverse_quote ::
  "(string \<Rightarrow> string + asset_id) \<Rightarrow> 'w reserve_source option \<Rightarrow> instant \<Rightarrow> instant \<Rightarrow> reverse_quote_query \<Rightarrow> reserve_cache \<times> 'w \<Rightarrow>
     (engine_error + price_quote) outcome \<times> reserve_cache \<times> 'w" where
  "reverse_quote from_json pool now stored q st =
     (case bind_res (parse_asset_param from_json (rq_token_out q) ''token_out'') (\<lambda>token_out.
             bind_res (pool_or_err pool) (\<lambda>fetch. Ok (token_out, fetch))) of
        Err e \<Rightarrow> (Returns (Err e), st)
      | Ok (token_out, fetch) \<Rightarrow>
          (case get_reserves fetch now stored st of
             (Err e, st') \<Rightarrow> (Returns (Err e), st')
           | (Ok reserves, st') \<Rightarrow> (reverse_quote_of reserves (rq_amount_out q) token_out, st')))"

subsection \<open>Liquidity\<close>

text \<open>What the handlers on the reserves share: the configured client, its reserves, then the response.\<close>

definition with_reserves ::
  "'w reserve_source option \<Rightarrow> instant \<Rightarrow> instant \<Rightarrow> (pool_reserves \<Rightarrow> (engine_error + 'a) outcome) \<Rightarrow> reserve_cache \<times> 'w \<Rightarrow>
     (engine_error + 'a) outcome \<times> reserve_cache \<times> 'w" where
  "with_reserves pool now stored respond st =
     (case api_reserves pool now stored st of
        (Err e, st') \<Rightarrow> (Returns (Err e), st')
      | (Ok reserves, st') \<Rightarrow> (respond reserves, st'))"

record lp_balance_response =
  lb_address :: string
  lb_lp_balance :: u128

definition api_lp_balance ::
  "(string \<Rightarrow> 'w \<Rightarrow> (engine_error + u128) \<times> 'w) option \<Rightarrow> string \<Rightarrow> 'w \<Rightarrow> (engine_error + lp_balance_response) \<times> 'w" where
  "api_lp_balance pool address =
     bind_st (lift_res (pool_or_err pool)) (\<lambda>read_balance.
     bind_st (read_balance address) (\<lambda>balance.
     lift_res (Ok \<lparr>lb_address = address, lb_lp_balance = balance\<rparr>)))"

record remove_simulation =
  rm_address :: string
  rm_lp_balance :: u128
  rm_amount_0_redeemed :: u128
  rm_amount_1_redeemed :: u128
  rm_token_0 :: asset_id
  rm_token_1 :: asset_id
  rm_pool_share_bps :: u64

definition simulate_remove_of ::
  "string \<Rightarrow> u128 \<Rightarrow> pool_reserves \<Rightarrow> (engine_error + remove_simulation) outcome" where
  "simulate_remove_of address balance r =
     (let response = (\<lambda>lp a0 a1 share.
        \<lparr>rm_address = address, rm_lp_balance = lp, rm_amount_0_redeemed = a0, rm_amount_1_redeemed = a1,
         rm_token_0 = pr_token_0 r, rm_token_1 = pr_token_1 r, rm_pool_share_bps = share\<rparr>) in
      if balance = 0 \<or> pr_lp_total_supply r = 0 then Returns (Ok (response 0 0 0 0))
      else
      bind_out (withdrawal_amounts balance (pr_reserve_0 r) (pr_reserve_1 r) (pr_lp_total_supply r)) (\<lambda>res.
      try_out (map_err res (\<lambda>e. InvalidRequest (math_error_to_string e))) (\<lambda>(amt_0, amt_1).
      bind_out (div_op (balance * 10000) (pr_lp_total_supply r)) (\<lambda>share_bps.
      Returns (Ok (response balance amt_0 amt_1 (ucast share_bps)))))))"

text \<open>
  The balance and the reserves are read concurrently: the client is given as the joint read
  \<open>tokio::try_join!(lp_balance, get_reserves)\<close>, whose effects may come in either order.
\<close>

definition simulate_remove_liquidity ::
  "(string \<Rightarrow> 's \<Rightarrow> (engine_error + u128 \<times> pool_reserves) \<times> 's) option \<Rightarrow> string \<Rightarrow> 's \<Rightarrow>
     (engine_error + remove_simulation) outcome \<times> 's" where
  "simulate_remove_liquidity pool address st =
     (case pool_or_err pool of
        Err e \<Rightarrow> (Returns (Err e), st)
      | Ok read_both \<Rightarrow>
          (case read_both address st of
             (res, st') \<Rightarrow> (try_out res (\<lambda>(balance, r). simulate_remove_of address balance r), st')))"

record add_simulation =
  am_lp_tokens_minted :: u128
  am_amount_0_used :: u128
  am_amount_1_used :: u128
  am_token_0 :: asset_id
  am_token_1 :: asset_id
  am_lp_total_supply_before :: u128

definition simulate_add_of :: "u128 \<Rightarrow> u128 \<Rightarrow> pool_reserves \<Rightarrow> (engine_error + add_simulation) outcome" where
  "simulate_add_of amount_0 amount_1 r =
     bind_out (lp_tokens_to_mint amount_0 amount_1 (pr_reserve_0 r) (pr_reserve_1 r) (pr_lp_total_supply r)) (\<lambda>res.
     try_out (map_err res (\<lambda>e. InvalidRequest (math_error_to_string e))) (\<lambda>lp_minted.
     let optimal_amount_0 = (case checked_div (amount_1 * pr_reserve_0 r) (pr_reserve_1 r) of Some v \<Rightarrow> v | None \<Rightarrow> amount_0);
         optimal_amount_1 = (case checked_div (amount_0 * pr_reserve_1 r) (pr_reserve_0 r) of Some v \<Rightarrow> v | None \<Rightarrow> amount_1) in
     Returns (Ok \<lparr>am_lp_tokens_minted = lp_minted, am_amount_0_used = min optimal_amount_0 amount_0,
                  am_amount_1_used = min optimal_amount_1 amount_1, am_token_0 = pr_token_0 r, am_token_1 = pr_token_1 r,
                  am_lp_total_supply_before = pr_lp_total_supply r\<rparr>)))"

definition simulate_add_liquidity ::
  "'w reserve_source option \<Rightarrow> instant \<Rightarrow> instant \<Rightarrow> u128 \<Rightarrow> u128 \<Rightarrow> reserve_cache \<times> 'w \<Rightarrow>
     (engine_error + add_simulation) outcome \<times> reserve_cache \<times> 'w" where
  "simulate_add_liquidity pool now stored amount_0 amount_1 =
     with_reserves pool now stored (simulate_add_of amount_0 amount_1)"

record pool_statistics =
  ps_reserves :: pool_reserves
  ps_price_0_in_1 :: rational_price
  ps_price_1_in_0 :: rational_price
  ps_k_invariant :: u128
  ps_fee_bps :: u128

definition pool_stats_of :: "pool_reserves \<Rightarrow> pool_statistics outcome" where
  "pool_stats_of r =
     bind_out (if pr_reserve_0 r > 0 then rational_price_new (pr_reserve_1 r) (pr_reserve_0 r)
               else Returns rational_price_zero) (\<lambda>price_0_in_1.
     bind_out (if pr_reserve_1 r > 0 then rational_price_new (pr_reserve_0 r) (pr_reserve_1 r)
               else Returns rational_price_zero) (\<lambda>price_1_in_0.
     Returns \<lparr>ps_reserves = r, ps_price_0_in_1 = price_0_in_1, ps_price_1_in_0 = price_1_in_0,
              ps_k_invariant = saturating_mul (pr_reserve_0 r) (pr_reserve_1 r),
              ps_fee_bps = (FEE_DENOMINATOR - FEE_NUMERATOR) * 10\<rparr>))"

definition pool_stats ::
  "'w reserve_source option \<Rightarrow> instant \<Rightarrow> instant \<Rightarrow> reserve_cache \<times> 'w \<Rightarrow>
     (engine_error + pool_statistics) outcome \<times> reserve_cache \<times> 'w" where
  "pool_stats pool now stored =
     with_reserves pool now stored (\<lambda>r. bind_out (pool_stats_of r) (\<lambda>s. Returns (Ok s)))"

subsection \<open>Transactions\<close>

record swap_params_request =
  sw_network :: string
  sw_source_account :: string
  sw_to :: string
  sw_amount_0_out :: u128
  sw_amount_1_out :: u128
  sw_deadline :: u64

definition build_swap ::
  "'x stellar_lib \<Rightarrow> (string \<Rightarrow> string) \<Rightarrow> rpc_codec \<Rightarrow> 'w transport \<Rightarrow> (pool_config \<times> network) option \<Rightarrow> swap_params_request \<Rightarrow> u64 \<Rightarrow>
     'w \<Rightarrow> (engine_error + prepared_transaction) \<times> 'w" where
  "build_swap lib sha256_hex codec call client req now =
     bind_st (lift_res (pool_or_err client)) (\<lambda>(pool, net).
     bind_st (lift_res (network_parse (sw_network req))) (\<lambda>declared.
     prepare_swap lib sha256_hex codec call pool net (sw_to req) (sw_amount_0_out req) (sw_amount_1_out req)
       \<lparr>pp_network = declared, pp_source_account = sw_source_account req, pp_deadline = sw_deadline req\<rparr> now))"

record add_liquidity_params_request =
  al_network :: string
  al_from :: string
  al_to :: string
  al_amount_0_desired :: u128
  al_amount_1_desired :: u128
  al_amount_0_min :: u128
  al_amount_1_min :: u128
  al_deadline :: u64

definition build_add_liquidity ::
  "'x stellar_lib \<Rightarrow> (string \<Rightarrow> string) \<Rightarrow> rpc_codec \<Rightarrow> 'w transport \<Rightarrow> (pool_config \<times> network) option \<Rightarrow>
     add_liquidity_params_request \<Rightarrow> u64 \<Rightarrow> 'w \<Rightarrow> (engine_error + prepared_transaction) \<times> 'w" where
  "build_add_liquidity lib sha256_hex codec call client req now =
     bind_st (lift_res (pool_or_err client)) (\<lambda>(pool, net).
     bind_st (lift_res (network_parse (al_network req))) (\<lambda>declared.
     prepare_add_liquidity lib sha256_hex codec call pool net (al_from req) (al_to req) (al_amount_0_desired req)
       (al_amount_1_desired req) (al_amount_0_min req) (al_amount_1_min req)
       \<lparr>pp_network = declared, pp_source_account = al_from req, pp_deadline = al_deadline req\<rparr> now))"

record remove_liquidity_params_request =
  rl_network :: string
  rl_from :: string
  rl_to :: string
  rl_liquidity :: u128
  rl_amount_0_min :: u128
  rl_amount_1_min :: u128
  rl_deadline :: u64

definition build_remove_liquidity ::
  "'x stellar_lib \<Rightarrow> (string \<Rightarrow> string) \<Rightarrow> rpc_codec \<Rightarrow> 'w transport \<Rightarrow> (pool_config \<times> network) option \<Rightarrow>
     remove_liquidity_params_request \<Rightarrow> u64 \<Rightarrow> 'w \<Rightarrow> (engine_error + prepared_transaction) \<times> 'w" where
  "build_remove_liquidity lib sha256_hex codec call client req now =
     bind_st (lift_res (pool_or_err client)) (\<lambda>(pool, net).
     bind_st (lift_res (network_parse (rl_network req))) (\<lambda>declared.
     prepare_remove_liquidity lib sha256_hex codec call pool net (rl_from req) (rl_to req) (rl_liquidity req)
       (rl_amount_0_min req) (rl_amount_1_min req)
       \<lparr>pp_network = declared, pp_source_account = rl_from req, pp_deadline = rl_deadline req\<rparr> now))"

record validate_tx_request =
  vr_xdr :: string
  vr_network :: string
  vr_source_account :: string

definition api_validate ::
  "'x stellar_lib \<Rightarrow> (string \<Rightarrow> string) \<Rightarrow> rpc_codec \<Rightarrow> 'w transport \<Rightarrow> (pool_config \<times> network) option \<Rightarrow> validate_tx_request \<Rightarrow> u64 \<Rightarrow>
     'w \<Rightarrow> (engine_error + review_summary) \<times> 'w" where
  "api_validate lib sha256_hex codec call client req now =
     bind_st (lift_res (pool_or_err client)) (\<lambda>(pool, net).
     bind_st (lift_res (network_parse (vr_network req))) (\<lambda>declared.
     validate_transaction lib sha256_hex codec call pool net (vr_xdr req) declared (vr_source_account req) now))"

definition api_submit ::
  "rpc_codec \<Rightarrow> 'w transport \<Rightarrow> (pool_config \<times> network) option \<Rightarrow> string \<Rightarrow> 'w \<Rightarrow> (engine_error + submit_result) \<times> 'w" where
  "api_submit codec call client signed_xdr =
     bind_st (lift_res (pool_or_err client)) (\<lambda>_. submit_transaction codec call signed_xdr)"

subsection \<open>Lemmas\<close>

lemma reverse_quote_of_Ok:
  assumes "reverse_quote_of r w token_out = Returns (Ok q)"
  obtains ri ro where
    "canonical_key token_out = canonical_key (pr_token_0 r) \<and> ro = pr_reserve_0 r \<and> ri = pr_reserve_1 r \<and>
       pq_token_in q = pr_token_1 r \<or>
     canonical_key token_out = canonical_key (pr_token_1 r) \<and> ro = pr_reserve_1 r \<and> ri = pr_reserve_0 r \<and>
       pq_token_in q = pr_token_0 r"
    "get_amount_in w ri ro = Ok (pq_amount_in q)" "pq_amount_out q = w" "pq_token_out q = token_out"
proof (cases "canonical_key token_out = canonical_key (pr_token_0 r)")
  case True
  with assms show ?thesis
    by (intro that [of "pr_reserve_0 r" "pr_reserve_1 r"]) (auto simp: reverse_quote_of_def Let_def res_simps)
next
  case False
  with assms show ?thesis
    by (intro that [of "pr_reserve_1 r" "pr_reserve_0 r"])
      (auto simp: reverse_quote_of_def Let_def res_simps split: if_splits)
qed

lemma unat_apply_slippage:
  assumes "unat bps \<le> 10000" and "unat amount * (10000 - unat bps) < 2 ^ 128"
  shows "unat (apply_slippage amount bps) = unat amount * (10000 - unat bps) div 10000"
proof -
  have "unat (ucast bps :: u128) = unat bps" by (rule unat_ucast_fits) (use assms(1) in simp)
  then have "unat (10000 - ucast bps :: u128) = 10000 - unat bps"
    using assms(1) by (subst unat_sub_le) (simp_all add: word_le_nat_alt)
  with assms(2) show ?thesis
    by (simp add: apply_slippage_def unat_div unat_saturating_mul)
qed

text \<open>A tolerance of more than all of it wraps around: the minimum exceeds the quoted amount.\<close>

lemma excessive_slippage_wraps: "apply_slippage 1000000 10001 = (2 ^ 128 - 1) div 10000"
  by (simp add: apply_slippage_def saturating_mul_def unsigned_minus_1_eq_mask mask_eq_exp_minus_1)

lemma add_liquidity_within_offer:
  assumes "simulate_add_of a0 a1 r = Returns (Ok s)"
  shows "am_amount_0_used s \<le> a0" and "am_amount_1_used s \<le> a1"
  using assms by (auto simp: simulate_add_of_def Let_def res_simps)

text \<open>The unchecked product wraps: a deposit of matching amounts is reported as using nothing of one.\<close>

lemma optimal_amount_wraps:
  "\<exists>r s. simulate_add_of (2 ^ 100) (2 ^ 100) r = Returns (Ok s) \<and> am_amount_0_used s = 0 \<and> am_amount_1_used s = 0"
proof -
  let ?r = "demo_reserves\<lparr>pr_reserve_0 := 2 ^ 28, pr_reserve_1 := 2 ^ 28, pr_lp_total_supply := 1\<rparr>"
  have "\<exists>lp. lp_tokens_to_mint (2 ^ 100) (2 ^ 100) (2 ^ 28) (2 ^ 28) 1 = Returns (Ok lp)"
    by (simp add: lp_tokens_to_mint_def checked_mul_def div_op_def)
  then show ?thesis
    by (intro exI [of _ ?r]) (auto simp: simulate_add_of_def checked_div_def Let_def)
qed

subsection \<open>Properties\<close>



end
