(* ===== verification/Circuit_Breaker.thy ===== *)
theory Circuit_Breaker
  imports Adapters
begin

text \<open>
  The circuit breaker of \<^verbatim>\<open>src/circuit_breaker.rs\<close>, an adapter around another one. Its state
  is behind a lock that is held only while it is inspected or updated, not across the call of the
  inner adapter; the three locked sections are the atomic steps of the state machine, and requests
  in flight interleave between them.
\<close>

subsection \<open>State and locked sections\<close>

datatype circuit = Closed u32 | Open instant | HalfOpen

record breaker_config =
  failure_threshold :: u32
  reset_timeout :: duration

definition breaker_new :: "u32 \<Rightarrow> u64 \<Rightarrow> breaker_config \<times> circuit" where
  "breaker_new threshold reset_timeout_secs =
     (\<lparr>failure_threshold = threshold, reset_timeout = from_secs (unat reset_timeout_secs)\<rparr>, Closed 0)"

fun circuit_status :: "circuit \<Rightarrow> string" where
  "circuit_status (Closed _) = ''closed''"
| "circuit_status (Open _) = ''open''"
| "circuit_status HalfOpen = ''half_open''"

definition open_error :: "string \<Rightarrow> engine_error" where
  "open_error name = AdapterError (name @ '' circuit is open '' @ em_dash @ '' requests blocked'')"

definition check_and_transition ::
    "breaker_config \<Rightarrow> string \<Rightarrow> instant \<Rightarrow> circuit \<Rightarrow> (engine_error + unit) \<times> circuit" where
  "check_and_transition cfg name now st =
     (case st of
        Open opened_at \<Rightarrow>
          if reset_timeout cfg \<le> elapsed now opened_at then (Ok (), HalfOpen)
          else (Err (open_error name), st)
      | _ \<Rightarrow> (Ok (), st))"

definition on_success :: "circuit \<Rightarrow> circuit" where
  "on_success st = Closed 0"

definition on_failure :: "breaker_config \<Rightarrow> instant \<Rightarrow> circuit \<Rightarrow> circuit" where
  "on_failure cfg now st =
     (case st of
        Closed failures \<Rightarrow>
          let next = failures + 1 in
          if failure_threshold cfg \<le> next then Open now else Closed next
      | HalfOpen \<Rightarrow> Open now
      | Open _ \<Rightarrow> st)"

subsection \<open>The adapter around the inner one\<close>

text \<open>
  A guarded call: the check, the inner call without the lock, the report. \<open>clock\<close> reads the
  monotone clock of the world.
\<close>

definition guarded ::
    "breaker_config \<Rightarrow> string \<Rightarrow> ('w \<Rightarrow> instant) \<Rightarrow> ('w \<Rightarrow> (engine_error + 'r) \<times> 'w) \<Rightarrow> 'w \<times> circuit
       \<Rightarrow> (engine_error + 'r) \<times> 'w \<times> circuit" where
  "guarded cfg name clock call ws =
     (case ws of (w, st) \<Rightarrow>
        (case check_and_transition cfg name (clock w) st of
           (Err e, st1) \<Rightarrow> (Err e, w, st1)
         | (Ok _, st1) \<Rightarrow>
             (case call w of
                (Ok r, w1) \<Rightarrow> (Ok r, w1, on_success st1)
              | (Err e, w1) \<Rightarrow> (Err e, w1, on_failure cfg (clock w1) st1))))"

definition breaker_submit ::
    "breaker_config \<Rightarrow> ('w \<Rightarrow> instant) \<Rightarrow> 'w adapter \<Rightarrow> payment \<Rightarrow> 'w \<times> circuit
       \<Rightarrow> (engine_error + string) \<times> 'w \<times> circuit" where
  "breaker_submit cfg clock inner p = guarded cfg (ad_name inner) clock (ad_submit inner p)"

definition breaker_fee_estimate ::
    "breaker_config \<Rightarrow> ('w \<Rightarrow> instant) \<Rightarrow> 'w adapter \<Rightarrow> 'w \<times> circuit
       \<Rightarrow> (engine_error + fee_estimate) \<times> 'w \<times> circuit" where
  "breaker_fee_estimate cfg clock inner = guarded cfg (ad_name inner) clock (ad_fee_estimate inner)"

definition breaker_is_confirmed ::
    "'w adapter \<Rightarrow> string \<Rightarrow> 'w \<times> circuit \<Rightarrow> (engine_error + bool) \<times> 'w \<times> circuit" where
  "breaker_is_confirmed inner tx_hash ws =
     (case ws of (w, st) \<Rightarrow> case ad_is_confirmed inner tx_hash w of (r, w1) \<Rightarrow> (r, w1, st))"

text \<open>The implementation does not override \<open>is_ready\<close>, so the provided one applies.\<close>

definition breaker_object :: "breaker_config \<Rightarrow> ('w \<Rightarrow> instant) \<Rightarrow> 'w adapter \<Rightarrow> ('w \<times> circuit) adapter" where
  "breaker_object cfg clock inner =
     \<lparr>ad_name = ad_name inner,
      ad_submit = breaker_submit cfg clock inner,
      ad_fee_estimate = breaker_fee_estimate cfg clock inner,
      ad_is_confirmed = breaker_is_confirmed inner,
      ad_is_ready = default_is_ready (breaker_fee_estimate cfg clock inner)\<rparr>"

subsection \<open>Interleavings of requests\<close>

text \<open>
  The locked sections of requests in flight, in the order they take the lock: a check, the report
  of a success, the report of a failure.
\<close>

datatype breaker_event = Check instant | Success | Failure instant

fun breaker_step :: "breaker_config \<Rightarrow> breaker_event \<Rightarrow> circuit \<Rightarrow> circuit" where
  "breaker_step cfg (Check now) st = snd (check_and_transition cfg '''' now st)"
| "breaker_step cfg Success st = on_success st"
| "breaker_step cfg (Failure now) st = on_failure cfg now st"

definition breaker_run :: "breaker_config \<Rightarrow> breaker_event list \<Rightarrow> circuit \<Rightarrow> circuit" where
  "breaker_run cfg es st = fold (breaker_step cfg) es st"

definition admits :: "breaker_config \<Rightarrow> instant \<Rightarrow> circuit \<Rightarrow> bool" where
  "admits cfg now st = is_ok (fst (check_and_transition cfg '''' now st))"

text \<open>The number of failures that opens a closed circuit; a threshold of zero acts like one.\<close>

definition opening_count :: "breaker_config \<Rightarrow> nat" where
  "opening_count cfg = max 1 (unat (failure_threshold cfg))"

text \<open>The invariant of every reachable state: a closed circuit has seen fewer failures than that.\<close>

definition circuit_inv :: "breaker_config \<Rightarrow> circuit \<Rightarrow> bool" where
  "circuit_inv cfg st \<longleftrightarrow> (case st of Closed f \<Rightarrow> unat f < opening_count cfg | _ \<Rightarrow> True)"

lemma failure_opens_iff:
  assumes "unat f < opening_count cfg"
  shows "failure_threshold cfg \<le> f + 1 \<longleftrightarrow> opening_count cfg \<le> Suc (unat f)"
    and "\<not> failure_threshold cfg \<le> f + 1 \<Longrightarrow> unat (f + 1) = Suc (unat f)"
proof -
  have fits: "unat (f + 1) = Suc (unat f)" if "failure_threshold cfg \<noteq> 0"
  proof -
    have "unat f < unat (failure_threshold cfg)"
      using assms that by (auto simp: opening_count_def word_nonzero_unat)
    then have "unat f + 1 < 2 ^ LENGTH(32)" using unat_lt2p [of "failure_threshold cfg"] by simp
    then show ?thesis using unat_add_fits [of f "1 :: u32"] by simp
  qed
  show "failure_threshold cfg \<le> f + 1 \<longleftrightarrow> opening_count cfg \<le> Suc (unat f)"
  proof (cases "failure_threshold cfg = 0")
    case True
    then show ?thesis by (simp add: opening_count_def)
  next
    case False
    with fits show ?thesis
      by (simp add: word_le_nat_alt opening_count_def word_nonzero_unat)
  qed
  show "\<not> failure_threshold cfg \<le> f + 1 \<Longrightarrow> unat (f + 1) = Suc (unat f)"
    using fits by (cases "failure_threshold cfg = 0") simp_all
qed

lemma circuit_inv_failure:
  assumes "circuit_inv cfg st"
  shows "circuit_inv cfg (on_failure cfg now st)"
proof (cases st)
  case (Closed f)
  with assms have f: "unat f < opening_count cfg" by (simp add: circuit_inv_def)
  show ?thesis
    using failure_opens_iff [OF f] Closed by (auto simp: circuit_inv_def on_failure_def Let_def)
qed (use assms in \<open>simp_all add: circuit_inv_def on_failure_def\<close>)

lemma circuit_inv_step: "circuit_inv cfg st \<Longrightarrow> circuit_inv cfg (breaker_step cfg e st)"
proof (cases e)
  case (Failure now)
  then show "circuit_inv cfg st \<Longrightarrow> circuit_inv cfg (breaker_step cfg e st)"
    by (simp add: circuit_inv_failure)
qed (auto simp: check_and_transition_def on_success_def circuit_inv_def opening_count_def
    split: circuit.splits)

lemma circuit_inv_run: "circuit_inv cfg st \<Longrightarrow> circuit_inv cfg (breaker_run cfg es st)"
  unfolding breaker_run_def by (induction es arbitrary: st) (simp_all add: circuit_inv_step)

subsection \<open>Properties\<close>

text \<open>
  C33. While the circuit is open and its timeout has not passed, nothing gets through: in every
  interleaving of checks within the timeout and of failure reports of requests still in flight,
  with no success among them, the circuit stays open since the same instant and refuses the next
  check; and a guarded call made then fails without touching the inner adapter.\<close>

theorem open_circuit_blocks:
  assumes "\<forall>e \<in> set es. case e of Check now \<Rightarrow> elapsed now t < reset_timeout cfg
              | Success \<Rightarrow> False | Failure _ \<Rightarrow> True"
    and "elapsed now t < reset_timeout cfg"
  shows "breaker_run cfg es (Open t) = Open t \<and> \<not> admits cfg now (breaker_run cfg es (Open t)) \<and>
     (clock w = now \<longrightarrow> guarded cfg name clock call (w, breaker_run cfg es (Open t)) =
        (Err (open_error name), w, Open t))"
proof -
  have "breaker_run cfg es (Open t) = Open t"
    using assms(1) unfolding breaker_run_def
    by (induction es) (auto simp: check_and_transition_def on_failure_def split: breaker_event.splits)
  with assms(2) show ?thesis
    by (auto simp: admits_def guarded_def check_and_transition_def)
qed

theorem open_circuit_blocks_witness:
  "breaker_run \<lparr>failure_threshold = 5, reset_timeout = 30\<rparr> [Check 110, Failure 115, Check 129] (Open 100) = Open 100"
  using open_circuit_blocks [of "[Check 110, Failure 115, Check 129]" 100
      "\<lparr>failure_threshold = 5, reset_timeout = 30\<rparr>" 120 "\<lambda>w :: unit. 120" "()" "''x''" "\<lambda>w. (Ok (), w)"]
  by (simp add: elapsed_def)

text \<open>
  Starting closed, the circuit opens exactly at the configured number of consecutive failures
  (at the first one for a threshold of zero) and carries the time of that failure; before that it
  counts them, and the counter never overflows.\<close>

lemma breaker_opens_at_threshold:
  "fold (on_failure cfg) ts (Closed 0) =
     (if length ts < opening_count cfg then Closed (of_nat (length ts))
      else Open (ts ! (opening_count cfg - 1)))"
proof (induction ts rule: rev_induct)
  case (snoc now ts)
  let ?n = "length ts"
  show ?case
  proof (cases "?n < opening_count cfg")
    case True
    have fits: "?n < 2 ^ LENGTH(32)"
      using True unat_lt2p [of "failure_threshold cfg"] by (auto simp: opening_count_def)
    have u: "unat (of_nat ?n :: u32) = ?n" using fits by (rule unat_of_nat_fits)
    then have inv: "unat (of_nat ?n :: u32) < opening_count cfg" using True by simp
    have "on_failure cfg now (Closed (of_nat ?n)) =
        (if Suc ?n < opening_count cfg then Closed (of_nat (Suc ?n)) else Open now)"
      using failure_opens_iff [OF inv] u by (auto simp: on_failure_def Let_def add.commute)
    moreover have "opening_count cfg - 1 = ?n" if "\<not> Suc ?n < opening_count cfg" using that True by simp
    ultimately show ?thesis using snoc True by (auto simp: nth_append)
  next
    case False
    then have "opening_count cfg - 1 < ?n" by (auto simp: opening_count_def)
    with snoc False show ?thesis by (simp add: on_failure_def nth_append)
  qed
qed (simp add: opening_count_def)

text \<open>
  In every interleaving of checks, successes and failures from the initial state, a closed
  circuit has recorded fewer failures than the opening count.\<close>

lemma closed_below_threshold:
  assumes "breaker_run cfg es (snd (breaker_new threshold secs)) = Closed f"
  shows "unat f < opening_count cfg"
proof -
  have "circuit_inv cfg (Closed 0)" by (simp add: circuit_inv_def opening_count_def)
  from circuit_inv_run [OF this, of es] assms show ?thesis by (simp add: breaker_new_def circuit_inv_def)
qed

text \<open>
  The breaker hides the readiness of the adapter it wraps: the Stellar adapter reports itself
  unready when the latest ledger is stale, and wrapped by a breaker it is reported ready as long
  as fees can be fetched.\<close>

lemma breaker_hides_stale_ledger:
  "\<exists>(hz :: (nat, unit) horizon) url cfg (clock :: nat \<Rightarrow> instant).
     \<not> fst (ad_is_ready (stellar_object hz url) 0) \<and>
     fst (ad_is_ready (breaker_object cfg clock (stellar_object hz url)) (0, Closed 0))"
proof -
  define hz :: "(nat, unit) horizon" where
    "hz = \<lparr>hz_get = (\<lambda>url w. (Ok \<lparr>resp_status = 200, resp_json = Ok ()\<rparr>, w)), hz_fee_text = (\<lambda>_ _. None),
           hz_close_time = (\<lambda>_. Some 0), hz_now = (\<lambda>_. 3600), hz_status_text = (\<lambda>_. [])\<rparr>"
  have "\<not> fst (ad_is_ready (stellar_object hz '''') 0)"
    by (simp add: stellar_object_def stellar_is_ready_def hz_def is_success_def)
  moreover have "fst (ad_is_ready (breaker_object cfg clock (stellar_object hz '''')) (0, Closed 0))" for cfg clock
    by (simp add: breaker_object_def default_is_ready_def breaker_fee_estimate_def guarded_def
        check_and_transition_def stellar_object_def stellar_fee_estimate_def hz_def is_success_def)
  ultimately show ?thesis by blast
qed

end
