(* ===== verification/Router.thy ===== *)
theory Router
  imports Circuit_Breaker Complex_Main
begin

text \<open>
  Route selection, \<^verbatim>\<open>src/router.rs\<close>: every adapter is asked for its fees, failing adapters are
  skipped, the rest are scored and the best score wins. Scores are floating-point numbers in the
  source; here they are computed with an explicit rounding function, of which only monotonicity is
  used, so that the results hold for the machine's rounding.
\<close>

subsection \<open>Scores\<close>

definition fee_for_urgency :: "fee_estimate \<Rightarrow> urgency \<Rightarrow> u64 \<times> u32" where
  "fee_for_urgency fees u =
     (case u of
        Standard \<Rightarrow> (standard_stroops fees, standard_seconds fees)
      | Fast \<Rightarrow> (fast_stroops fees, fast_seconds fees)
      | Urgent \<Rightarrow> (urgent_stroops fees, urgent_seconds fees))"

fun latency_weight :: "urgency \<Rightarrow> rat" where
  "latency_weight Urgent = 5"
| "latency_weight Fast = 2"
| "latency_weight Standard = 1 / 2"

text \<open>Every operation rounds its exact result.\<close>

definition score :: "(rat \<Rightarrow> rat) \<Rightarrow> u64 \<Rightarrow> u32 \<Rightarrow> urgency \<Rightarrow> rat" where
  "score rnd fee secs u =
     (let fee_cost = rnd (rnd (rat_of_nat (unat fee)) / 100);
          latency_cost = rnd (rnd (rat_of_nat (unat secs)) * latency_weight u) in
      - rnd (fee_cost + latency_cost))"

subsection \<open>Selection\<close>

record 'w route_option =
  ro_adapter :: "'w adapter"
  ro_fee_stroops :: u64
  ro_estimated_seconds :: u32
  ro_score :: rat

definition route_of :: "(rat \<Rightarrow> rat) \<Rightarrow> urgency \<Rightarrow> 'w adapter \<Rightarrow> fee_estimate \<Rightarrow> 'w route_option" where
  "route_of rnd u a fees =
     (case fee_for_urgency fees u of
        (fee, secs) \<Rightarrow> \<lparr>ro_adapter = a, ro_fee_stroops = fee, ro_estimated_seconds = secs,
                        ro_score = score rnd fee secs u\<rparr>)"

fun candidates :: "(rat \<Rightarrow> rat) \<Rightarrow> urgency \<Rightarrow> 'w adapter list \<Rightarrow> 'w \<Rightarrow> 'w route_option list \<times> 'w" where
  "candidates rnd u [] w = ([], w)"
| "candidates rnd u (a # as) w =
     (case ad_fee_estimate a w of
        (Err e, w') \<Rightarrow> candidates rnd u as w'
      | (Ok fees, w') \<Rightarrow>
          (case candidates rnd u as w' of (cs, w'') \<Rightarrow> (route_of rnd u a fees # cs, w'')))"

text \<open>The stable descending sort by score, and its head.\<close>

definition select ::
    "(rat \<Rightarrow> rat) \<Rightarrow> 'w adapter list \<Rightarrow> urgency \<Rightarrow> 'w \<Rightarrow> (engine_error + 'w route_option) \<times> 'w" where
  "select rnd adapters u w =
     (if adapters = [] then (Err (Internal ''no chain adapters registered''), w)
      else case candidates rnd u adapters w of
        (cs, w') \<Rightarrow>
          (case sort_key (\<lambda>c. - ro_score c) cs of
             [] \<Rightarrow> (Err (AdapterError ''all chain adapters are unavailable''), w')
           | c # _ \<Rightarrow> (Ok c, w')))"

record chain_fees =
  cf_chain :: string
  cf_fees :: fee_estimate
  cf_available :: bool

fun all_fees :: "'w adapter list \<Rightarrow> 'w \<Rightarrow> chain_fees list \<times> 'w" where
  "all_fees [] w = ([], w)"
| "all_fees (a # as) w =
     (case ad_is_ready a w of
        (ready, w1) \<Rightarrow>
          (case ad_fee_estimate a w1 of
             (r, w2) \<Rightarrow>
               (case all_fees as w2 of
                  (rest, w3) \<Rightarrow>
                    (\<lparr>cf_chain = ad_name a,
                      cf_fees = (case r of Ok f \<Rightarrow> f | Err _ \<Rightarrow> default_fee_estimate),
                      cf_available = (ready \<and> is_ok r)\<rparr> # rest, w3))))"

subsection \<open>Lemmas\<close>

lemma sort_key_hd_min:
  assumes "sort_key f cs = c # rest" and "d \<in> set cs"
  shows "f c \<le> f d"
proof -
  have "sorted (map f (sort_key f cs))" by simp
  with assms(1) have "\<forall>x \<in> set rest. f c \<le> f x" by simp
  moreover have "d \<in> set (c # rest)" using assms by (metis set_sort)
  ultimately show ?thesis by auto
qed

lemma select_eq_Ok:
  "select rnd adapters u w = (Ok c, w') \<Longrightarrow>
     c \<in> set (fst (candidates rnd u adapters w)) \<and>
     (\<forall>d \<in> set (fst (candidates rnd u adapters w)). ro_score d \<le> ro_score c)"
  using sort_key_hd_min [of "\<lambda>c. - ro_score c" "fst (candidates rnd u adapters w)" c]
  by (auto simp: select_def split: if_splits prod.splits list.splits
      dest: arg_cong [of "sort_key _ _" _ set])

lemma route_of_sel:
  "ro_adapter (route_of rnd u a fees) = a"
  "(ro_fee_stroops (route_of rnd u a fees), ro_estimated_seconds (route_of rnd u a fees)) = fee_for_urgency fees u"
  "ro_score (route_of rnd u a fees) =
     score rnd (ro_fee_stroops (route_of rnd u a fees)) (ro_estimated_seconds (route_of rnd u a fees)) u"
  by (cases "fee_for_urgency fees u"; simp add: route_of_def)+

lemma candidates_sound:
  "c \<in> set (fst (candidates rnd u adapters w)) \<Longrightarrow>
     ro_adapter c \<in> set adapters \<and>
     (\<exists>fees w1 w2. ad_fee_estimate (ro_adapter c) w1 = (Ok fees, w2) \<and> c = route_of rnd u (ro_adapter c) fees)"
proof (induction rnd u adapters w rule: candidates.induct)
  case (2 rnd u a as w)
  obtain r w' where est: "ad_fee_estimate a w = (r, w')" by (cases "ad_fee_estimate a w")
  show ?case
  proof (cases r)
    case (Inl e)
    with est "2.prems" have "c \<in> set (fst (candidates rnd u as w'))" by simp
    from "2.IH"(1) [OF est [symmetric] Inl this] show ?thesis by auto
  next
    case (Inr fees)
    from est Inr "2.prems" consider "c = route_of rnd u a fees" | "c \<in> set (fst (candidates rnd u as w'))"
      by (auto split: prod.splits)
    then show ?thesis
    proof cases
      case 1
      with est Inr show ?thesis by (auto simp: route_of_sel)
    next
      case 2
      from "2.IH"(2) [OF est [symmetric] Inr 2] show ?thesis by auto
    qed
  qed
qed simp

lemma score_mono:
  assumes "mono rnd" and "unat fee \<le> unat fee'" and "unat secs \<le> unat secs'"
  shows "score rnd fee' secs' u \<le> score rnd fee secs u"
proof -
  have w: "0 \<le> latency_weight u" by (cases u) simp_all
  have le: "rat_of_nat (unat fee) \<le> rat_of_nat (unat fee')" "rat_of_nat (unat secs) \<le> rat_of_nat (unat secs')"
    using assms(2,3) by (simp_all only: of_nat_le_iff)
  have "rnd (rat_of_nat (unat fee)) / 100 \<le> rnd (rat_of_nat (unat fee')) / 100"
    using monoD [OF assms(1) le(1)] by (rule divide_right_mono) simp
  moreover have "rnd (rat_of_nat (unat secs)) * latency_weight u \<le> rnd (rat_of_nat (unat secs')) * latency_weight u"
    using monoD [OF assms(1) le(2)] w by (rule mult_right_mono)
  ultimately show ?thesis
    unfolding score_def Let_def by (simp add: assms(1) monoD add_mono)
qed

subsection \<open>Properties\<close>

text \<open>
  C37. The selected route is a best one: it belongs to a registered adapter that answered with its
  fees, its fee and time are those of the requested urgency, and no candidate scores higher; in
  particular a candidate that is no more expensive and no slower scores at least as high as any
  it undercuts, so that a strictly better score is never beaten by rounding.\<close>

theorem select_best_route:
  assumes "select rnd adapters u w = (Ok c, w')" and "mono rnd"
  shows "ro_adapter c \<in> set adapters \<and>
     (\<exists>fees w1 w2. ad_fee_estimate (ro_adapter c) w1 = (Ok fees, w2) \<and>
        (ro_fee_stroops c, ro_estimated_seconds c) = fee_for_urgency fees u) \<and>
     (\<forall>d \<in> set (fst (candidates rnd u adapters w)).
        ro_score d \<le> ro_score c \<and>
        (ro_fee_stroops d \<le> ro_fee_stroops c \<and> ro_estimated_seconds d \<le> ro_estimated_seconds c
           \<longrightarrow> ro_score d = ro_score c))"
proof -
  have best: "c \<in> set (fst (candidates rnd u adapters w))"
      "\<forall>d \<in> set (fst (candidates rnd u adapters w)). ro_score d \<le> ro_score c"
    using select_eq_Ok [OF assms(1)] by simp_all
  have shape: "ro_score d = score rnd (ro_fee_stroops d) (ro_estimated_seconds d) u"
    if "d \<in> set (fst (candidates rnd u adapters w))" for d
  proof -
    from candidates_sound [OF that] obtain fees where "d = route_of rnd u (ro_adapter d) fees" by blast
    with route_of_sel(3) show ?thesis by metis
  qed
  have tie: "ro_score d = ro_score c"
    if "d \<in> set (fst (candidates rnd u adapters w))" "ro_fee_stroops d \<le> ro_fee_stroops c"
      "ro_estimated_seconds d \<le> ro_estimated_seconds c" for d
    using best(2) that score_mono [OF assms(2), of "ro_fee_stroops d" "ro_fee_stroops c"
        "ro_estimated_seconds d" "ro_estimated_seconds c" u] shape [OF best(1)] shape [OF that(1)]
    by (metis order_antisym word_le_nat_alt)
  have "\<exists>fees w1 w2. ad_fee_estimate (ro_adapter c) w1 = (Ok fees, w2) \<and>
        (ro_fee_stroops c, ro_estimated_seconds c) = fee_for_urgency fees u"
    using candidates_sound [OF best(1)] route_of_sel(2) by metis
  with candidates_sound [OF best(1)] best(2) tie show ?thesis by blast
qed

theorem select_best_route_witness:
  "\<exists>c. fst (select (\<lambda>x. x) [mock_object (mock_failing ''x''), mock_object (mock_new ''y'')] Fast 0) = Ok c \<and>
     ro_adapter c \<in> set [mock_object (mock_failing ''x''), mock_object (mock_new ''y'')] \<and> ro_fee_stroops c = 250"
proof -
  let ?as = "[mock_object (mock_failing ''x''), mock_object (mock_new ''y'')]"
  define c where "c = route_of (\<lambda>x. x) Fast (mock_object (mock_new ''y'')) default_fee_estimate"
  have sel: "select (\<lambda>x. x) ?as Fast 0 = (Ok c, 0)"
    by (simp add: select_def mock_object_def mock_fee_estimate_def mock_failing_def mock_new_def c_def)
  have "mono (\<lambda>x :: rat. x)" by (simp add: mono_def)
  from select_best_route [OF sel this] sel show ?thesis
    by (simp add: c_def route_of_def fee_for_urgency_def default_fee_estimate_def)
qed

text \<open>
  Selection fails exactly when no adapter is registered or none of them can be asked for its
  fees; the failure of some adapters never hides one that answers.\<close>

lemma select_fails_iff_no_candidate:
  "\<not> is_ok (fst (select rnd adapters u w)) \<longleftrightarrow> fst (candidates rnd u adapters w) = []"
proof -
  obtain cs w' where cs: "candidates rnd u adapters w = (cs, w')" by (cases "candidates rnd u adapters w")
  have "set (sort_key (\<lambda>c. - ro_score c) cs) = set cs" by simp
  then have "sort_key (\<lambda>c. - ro_score c) cs = [] \<longleftrightarrow> cs = []" by (metis set_empty)
  with cs show ?thesis
    by (cases "adapters = []"; cases "sort_key (\<lambda>c. - ro_score c) cs") (auto simp: select_def)
qed

end
