(* ===== verification/Retry.thy ===== *)
theory Retry
  imports Prelude Complex_Main
begin

text \<open>
  The retry loop with exponential backoff, \<^verbatim>\<open>src/retry.rs\<close>. The retried operation is a
  state transformer; the loop returns its result together with the delays it slept. The property
  is a complete specification: which attempt decides, what is returned, what was slept before it,
  and in which state the loop ends.
\<close>

subsection \<open>Configuration and loop\<close>

text \<open>
  The multiplier is a floating-point number in the source, here its exact rational value. Every
  configuration of the program carries the default 2.0, for which scaling is exact below the cap
  of the delay.
\<close>

record retry_config =
  max_attempts :: u32
  initial_delay_ms :: u64
  backoff_multiplier :: rat
  max_delay_ms :: u64

definition default_retry_config :: retry_config where
  "default_retry_config =
     \<lparr>max_attempts = 3, initial_delay_ms = 500, backoff_multiplier = 2, max_delay_ms = 10000\<rparr>"

definition retry_config_new :: "u32 \<Rightarrow> u64 \<Rightarrow> retry_config" where
  "retry_config_new attempts delay =
     default_retry_config\<lparr>max_attempts := attempts, initial_delay_ms := delay\<rparr>"

text \<open>\<open>(delay_ms as f64 * multiplier) as u64\<close> truncates and saturates, then the cap applies.\<close>

definition next_delay :: "retry_config \<Rightarrow> u64 \<Rightarrow> u64" where
  "next_delay cfg d =
     (let scaled = nat \<lfloor>rat_of_nat (unat d) * backoff_multiplier cfg\<rfloor> in
      min (of_nat (min scaled (2 ^ 64 - 1))) (max_delay_ms cfg))"

text \<open>
  The loop over the attempts that remain; on the last one an error is returned as it is. With no
  attempts at all the loop body never runs and \<open>unreachable!\<close> panics.
\<close>

fun retry_from ::
    "retry_config \<Rightarrow> ('s \<Rightarrow> ('e + 't) \<times> 's) \<Rightarrow> nat \<Rightarrow> u64 \<Rightarrow> 's \<Rightarrow> ('e + 't) outcome \<times> u64 list \<times> 's" where
  "retry_from cfg f 0 delay s = (Panic, [], s)"
| "retry_from cfg f (Suc n) delay s =
     (case f s of
        (Ok v, s') \<Rightarrow> (Returns (Ok v), [], s')
      | (Err e, s') \<Rightarrow>
          if n = 0 then (Returns (Err e), [], s')
          else (case retry_from cfg f n (next_delay cfg delay) s' of
                  (r, ds, s'') \<Rightarrow> (r, delay # ds, s'')))"

definition retry ::
    "retry_config \<Rightarrow> ('s \<Rightarrow> ('e + 't) \<times> 's) \<Rightarrow> 's \<Rightarrow> ('e + 't) outcome \<times> u64 list \<times> 's" where
  "retry cfg f s = retry_from cfg f (unat (max_attempts cfg)) (initial_delay_ms cfg) s"

subsection \<open>Lemmas\<close>

text \<open>The result and state of attempt \<open>i\<close>, counted from zero, if all attempts are made.\<close>

fun attempt :: "('s \<Rightarrow> ('e + 't) \<times> 's) \<Rightarrow> 's \<Rightarrow> nat \<Rightarrow> ('e + 't) \<times> 's" where
  "attempt f s 0 = f s"
| "attempt f s (Suc i) = attempt f (snd (f s)) i"

definition slept :: "retry_config \<Rightarrow> u64 \<Rightarrow> nat \<Rightarrow> u64 list" where
  "slept cfg delay k = map (\<lambda>i. (next_delay cfg ^^ i) delay) [0..<k]"

lemma slept_Suc: "slept cfg delay (Suc k) = delay # slept cfg (next_delay cfg delay) k"
  by (simp add: slept_def upt_conv_Cons funpow_swap1 del: upt_Suc flip: map_Suc_upt)

definition deciding :: "('s \<Rightarrow> ('e + 't) \<times> 's) \<Rightarrow> 's \<Rightarrow> nat \<Rightarrow> nat \<Rightarrow> bool" where
  "deciding f s n k \<longleftrightarrow> k < n \<and> (\<forall>i < k. \<not> is_ok (fst (attempt f s i))) \<and>
     (k = n - 1 \<or> is_ok (fst (attempt f s k)))"

lemma retry_from_spec:
  assumes "0 < n"
  shows "\<exists>k. deciding f s n k \<and>
     retry_from cfg f n delay s = (Returns (fst (attempt f s k)), slept cfg delay k, snd (attempt f s k))"
  using assms
proof (induction n arbitrary: delay s)
  case (Suc n)
  obtain r s' where f: "f s = (r, s')" by (cases "f s")
  show ?case
  proof (cases "is_ok r \<or> n = 0")
    case True
    then have "deciding f s (Suc n) 0 \<and>
        retry_from cfg f (Suc n) delay s = (Returns (fst (attempt f s 0)), slept cfg delay 0, snd (attempt f s 0))"
      using f by (cases r) (auto simp: deciding_def slept_def)
    then show ?thesis by blast
  next
    case False
    then obtain e where r: "r = Err e" by (cases r) auto
    from False Suc.IH [of s' "next_delay cfg delay"] obtain k where k: "deciding f s' n k"
        "retry_from cfg f n (next_delay cfg delay) s' =
           (Returns (fst (attempt f s' k)), slept cfg (next_delay cfg delay) k, snd (attempt f s' k))"
      by blast
    have "deciding f s (Suc n) (Suc k)"
      using k(1) f r False by (auto simp: deciding_def less_Suc_eq_0_disj)
    moreover have "retry_from cfg f (Suc n) delay s =
        (Returns (fst (attempt f s (Suc k))), slept cfg delay (Suc k), snd (attempt f s (Suc k)))"
      using k(2) f r False by (simp add: slept_Suc)
    ultimately show ?thesis by blast
  qed
qed simp

lemma next_delay_le: "next_delay cfg d \<le> max_delay_ms cfg"
  by (simp add: next_delay_def Let_def)

subsection \<open>Properties\<close>

text \<open>
  C38. With at least one attempt allowed, the loop returns: the value of the first attempt that
  succeeds, or the error of the last one allowed; it makes no attempt after the deciding one, and
  before it sleeps once per failed attempt, the configured initial delay first and each further
  delay the scaled and capped previous one.\<close>

theorem retry_first_success_or_last_error:
  assumes "max_attempts cfg \<noteq> 0"
  shows "\<exists>k < unat (max_attempts cfg).
     (\<forall>i < k. \<not> is_ok (fst (attempt f s i))) \<and>
     (is_ok (fst (attempt f s k)) \<or> k = unat (max_attempts cfg) - 1) \<and>
     retry cfg f s = (Returns (fst (attempt f s k)), slept cfg (initial_delay_ms cfg) k, snd (attempt f s k)) \<and>
     (\<forall>d \<in> set (tl (slept cfg (initial_delay_ms cfg) k)). d \<le> max_delay_ms cfg)"
proof -
  have "0 < unat (max_attempts cfg)" using assms by (simp add: word_nonzero_unat)
  from retry_from_spec [OF this, of f s cfg "initial_delay_ms cfg"] obtain k
    where k: "deciding f s (unat (max_attempts cfg)) k" "retry cfg f s =
      (Returns (fst (attempt f s k)), slept cfg (initial_delay_ms cfg) k, snd (attempt f s k))"
    by (auto simp: retry_def)
  have "\<forall>d \<in> set (tl (slept cfg (initial_delay_ms cfg) k)). d \<le> max_delay_ms cfg"
    by (cases k) (auto simp: slept_Suc, auto simp: slept_def funpow_swap1 [symmetric] next_delay_le
        simp flip: funpow_swap1)
  with k show ?thesis by (auto simp: deciding_def)
qed

text \<open>An operation that fails on its first two runs.\<close>

definition third_time :: "nat \<Rightarrow> (string + nat) \<times> nat" where
  "third_time n = (if n < 2 then Err ''not yet'' else Ok 99, n + 1)"

lemma default_first_delays:
  "unat (max_attempts default_retry_config) = Suc (Suc (Suc 0))"
  "initial_delay_ms default_retry_config = 500"
  "next_delay default_retry_config 500 = 1000"
  by (simp_all add: default_retry_config_def next_delay_def)

theorem retry_first_success_or_last_error_witness:
  "retry default_retry_config third_time 0 = (Returns (Ok 99), [500, 1000], 3)
   \<and> (\<exists>k < unat (max_attempts default_retry_config). (\<forall>i < k. \<not> is_ok (fst (attempt third_time 0 i))))"
proof
  show "retry default_retry_config third_time 0 = (Returns (Ok 99), [500, 1000], 3)"
    using default_first_delays by (simp add: retry_def third_time_def)
  show "\<exists>k < unat (max_attempts default_retry_config). (\<forall>i < k. \<not> is_ok (fst (attempt third_time 0 i)))"
    using retry_first_success_or_last_error [of default_retry_config third_time 0]
    by (auto simp: default_retry_config_def)
qed

text \<open>
  With no attempts allowed, which the configuration accepts, the loop panics without ever
  running the operation.\<close>

lemma retry_zero_attempts_panics:
  "retry (retry_config_new 0 delay) f s = (Panic, [], s)"
  by (simp add: retry_def retry_config_new_def)

end
