(* ===== verification/Stores.thy ===== *)
theory Stores
  imports Utils "HOL-Library.AList"
begin

text \<open>
  The two in-process entity stores: payments (\<^verbatim>\<open>src/store.rs\<close>) and webhooks
  (\<^verbatim>\<open>src/webhook.rs\<close>). Both are concurrent hash maps keyed by the entity's id; here an
  association list with distinct keys, whose order stands for the unspecified order in which the
  map iterates. The locale \<open>entity_store\<close> holds what both share. Fresh ids and clock readings are
  arguments; serialisation, signing and delivery of webhook payloads are parameters.
\<close>

subsection \<open>Payments\<close>

type_synonym payment_store = "(string \<times> payment) list"

definition payments_new :: payment_store where
  "payments_new = []"

definition payments_insert :: "payment \<Rightarrow> payment_store \<Rightarrow> payment_store" where
  "payments_insert p st = AList.update (pm_id p) p st"

definition payments_get :: "payment_store \<Rightarrow> string \<Rightarrow> engine_error + payment" where
  "payments_get st i = ok_or (map_of st i) (NotFound i)"

definition payments_list :: "payment_store \<Rightarrow> payment list" where
  "payments_list st = map snd st"

definition payments_len :: "payment_store \<Rightarrow> nat" where
  "payments_len st = length st"

definition payments_is_empty :: "payment_store \<Rightarrow> bool" where
  "payments_is_empty st = (st = [])"

definition set_status :: "string \<Rightarrow> string \<Rightarrow> payment_status \<Rightarrow> payment_store \<Rightarrow> (engine_error + unit) \<times> payment_store" where
  "set_status now i status st =
     (case payments_get st i of
        Err e \<Rightarrow> (Err e, st)
      | Ok p \<Rightarrow> (Ok (), AList.update i (p\<lparr>pm_status := status, pm_updated_at := now\<rparr>) st))"

definition set_confirmed :: "string \<Rightarrow> string \<Rightarrow> string \<Rightarrow> payment_store \<Rightarrow> (engine_error + unit) \<times> payment_store" where
  "set_confirmed now i tx_hash st =
     (case payments_get st i of
        Err e \<Rightarrow> (Err e, st)
      | Ok p \<Rightarrow> (Ok (), AList.update i
          (p\<lparr>pm_status := Confirmed, pm_tx_hash := Some tx_hash, pm_updated_at := now\<rparr>) st))"

definition set_failed :: "string \<Rightarrow> string \<Rightarrow> string \<Rightarrow> payment_store \<Rightarrow> (engine_error + unit) \<times> payment_store" where
  "set_failed now i reason st =
     (case payments_get st i of
        Err e \<Rightarrow> (Err e, st)
      | Ok p \<Rightarrow> (Ok (), AList.update i
          (p\<lparr>pm_status := Failed, pm_error := Some reason, pm_updated_at := now\<rparr>) st))"

subsection \<open>Webhooks\<close>

datatype webhook_event = PaymentConfirmed | PaymentFailed | PaymentPending

fun event_as_str :: "webhook_event \<Rightarrow> string" where
  "event_as_str PaymentConfirmed = ''payment.confirmed''"
| "event_as_str PaymentFailed = ''payment.failed''"
| "event_as_str PaymentPending = ''payment.pending''"

record webhook =
  wh_id :: string
  wh_url :: string
  wh_secret :: string
  wh_events :: "webhook_event list"
  wh_active :: bool
  wh_created_at :: string

type_synonym webhook_store = "(string \<times> webhook) list"

definition webhooks_new :: webhook_store where
  "webhooks_new = []"

definition register ::
    "string \<Rightarrow> string \<Rightarrow> string \<Rightarrow> string \<Rightarrow> webhook_event list \<Rightarrow> webhook_store \<Rightarrow> webhook \<times> webhook_store" where
  "register uuid now url secret events st =
     (let hook = \<lparr>wh_id = uuid, wh_url = url, wh_secret = secret, wh_events = events,
                  wh_active = True, wh_created_at = now\<rparr> in
      (hook, AList.update (wh_id hook) hook st))"

definition webhooks_list :: "webhook_store \<Rightarrow> webhook list" where
  "webhooks_list st = map snd st"

definition webhooks_get :: "webhook_store \<Rightarrow> string \<Rightarrow> engine_error + webhook" where
  "webhooks_get st i = ok_or (map_of st i) (NotFound i)"

definition webhooks_delete :: "string \<Rightarrow> webhook_store \<Rightarrow> (engine_error + unit) \<times> webhook_store" where
  "webhooks_delete i st =
     (case map_of st i of
        None \<Rightarrow> (Err (NotFound i), st)
      | Some _ \<Rightarrow> (Ok (), AList.delete i st))"

definition set_active :: "string \<Rightarrow> bool \<Rightarrow> webhook_store \<Rightarrow> (engine_error + unit) \<times> webhook_store" where
  "set_active i active st =
     (case webhooks_get st i of
        Err e \<Rightarrow> (Err e, st)
      | Ok hook \<Rightarrow> (Ok (), AList.update i (hook\<lparr>wh_active := active\<rparr>) st))"

record delivery =
  dl_url :: string
  dl_signature :: string
  dl_body :: string

text \<open>
  The requests \<open>dispatch\<close> sends, in iteration order: one signed payload per active subscribed
  hook; a payload that cannot be serialised is skipped, and the outcome of a delivery is only
  logged. \<open>body\<close> serialises event, payment and time; \<open>sign\<close> is the keyed hash in hex.
\<close>

definition dispatch ::
    "(string \<Rightarrow> payment \<Rightarrow> string option) \<Rightarrow> (string \<Rightarrow> string \<Rightarrow> string) \<Rightarrow> webhook_event \<Rightarrow> payment
       \<Rightarrow> webhook_store \<Rightarrow> delivery list" where
  "dispatch body sign event p st =
     concat (map (\<lambda>(_, hook).
       if \<not> wh_active hook \<or> event \<notin> set (wh_events hook) then []
       else case body (event_as_str event) p of
              None \<Rightarrow> []
            | Some b \<Rightarrow> [\<lparr>dl_url = wh_url hook, dl_signature = sign (wh_secret hook) b, dl_body = b\<rparr>]) st)"

subsection \<open>What both stores share\<close>

text \<open>
  Lookup against a keyed update: an entity is found under its key, the others are untouched, and
  an update of an absent key is refused.
\<close>

locale entity_store =
  fixes get :: "'s \<Rightarrow> string \<Rightarrow> engine_error + 'e"
    and modify :: "string \<Rightarrow> ('e \<Rightarrow> 'e) \<Rightarrow> 's \<Rightarrow> (engine_error + unit) \<times> 's"
  assumes get_missing: "get s i = Err e \<Longrightarrow> e = NotFound i"
    and modify_present: "get s i = Ok x \<Longrightarrow>
      fst (modify i f s) = Ok () \<and> (\<forall>j. get (snd (modify i f s)) j = (if j = i then Ok (f x) else get s j))"
    and modify_absent: "get s i = Err e \<Longrightarrow> modify i f s = (Err e, s)"
begin

lemma modify_result: "fst (modify i f s) = Ok () \<longleftrightarrow> is_ok (get s i)"
  using modify_present modify_absent by (cases "get s i") auto

lemma modify_get_other: "j \<noteq> i \<Longrightarrow> get (snd (modify i f s)) j = get s j"
  using modify_present modify_absent by (cases "get s i") auto

lemma modify_modify:
  assumes "get s i = Ok x"
  shows "get (snd (modify i g (snd (modify i f s)))) i = Ok (g (f x))"
proof -
  have "get (snd (modify i f s)) i = Ok (f x)" using modify_present [OF assms] by simp
  from modify_present [OF this, of g] show ?thesis by simp
qed

lemma refused_is_not_found: "fst (modify i f s) = Err e \<Longrightarrow> e = NotFound i"
  using modify_present modify_absent get_missing by (cases "get s i") fastforce+

end

definition payments_modify :: "string \<Rightarrow> (payment \<Rightarrow> payment) \<Rightarrow> payment_store \<Rightarrow> (engine_error + unit) \<times> payment_store" where
  "payments_modify i f st =
     (case payments_get st i of Err e \<Rightarrow> (Err e, st) | Ok p \<Rightarrow> (Ok (), AList.update i (f p) st))"

definition webhooks_modify :: "string \<Rightarrow> (webhook \<Rightarrow> webhook) \<Rightarrow> webhook_store \<Rightarrow> (engine_error + unit) \<times> webhook_store" where
  "webhooks_modify i f st =
     (case webhooks_get st i of Err e \<Rightarrow> (Err e, st) | Ok h \<Rightarrow> (Ok (), AList.update i (f h) st))"

interpretation payments: entity_store payments_get payments_modify
  by unfold_locales (auto simp: payments_get_def payments_modify_def ok_or_def update_conv' split: option.splits)

interpretation webhooks: entity_store webhooks_get webhooks_modify
  by unfold_locales (auto simp: webhooks_get_def webhooks_modify_def ok_or_def update_conv' split: option.splits)

text \<open>The operations of the stores are such updates.\<close>

lemma store_ops_modify:
  "set_status now i s st = payments_modify i (\<lambda>p. p\<lparr>pm_status := s, pm_updated_at := now\<rparr>) st"
  "set_confirmed now i h st =
     payments_modify i (\<lambda>p. p\<lparr>pm_status := Confirmed, pm_tx_hash := Some h, pm_updated_at := now\<rparr>) st"
  "set_failed now i r st =
     payments_modify i (\<lambda>p. p\<lparr>pm_status := Failed, pm_error := Some r, pm_updated_at := now\<rparr>) st"
  "set_active i a hs = webhooks_modify i (\<lambda>h. h\<lparr>wh_active := a\<rparr>) hs"
  by (simp_all add: set_status_def set_confirmed_def set_failed_def set_active_def
      payments_modify_def webhooks_modify_def)

lemma payments_get_insert: "payments_get (payments_insert p st) i = (if i = pm_id p then Ok p else payments_get st i)"
  by (simp add: payments_get_def payments_insert_def update_conv' ok_or_def)

text \<open>Every key holds an entity with that id, once.\<close>

definition payments_ok :: "payment_store \<Rightarrow> bool" where
  "payments_ok st \<longleftrightarrow> distinct (map fst st) \<and> (\<forall>(i, p) \<in> set st. pm_id p = i)"

lemma alist_update_set: "(i, x) \<in> set (AList.update k v al) \<Longrightarrow> (i = k \<and> x = v) \<or> (i, x) \<in> set al"
  by (induction al) (auto split: if_splits)

lemma payments_ok_update: "payments_ok st \<Longrightarrow> pm_id p = i \<Longrightarrow> payments_ok (AList.update i p st)"
  by (auto simp: payments_ok_def distinct_update dest: alist_update_set)

lemma payments_ok_ops:
  assumes "payments_ok st"
  shows "payments_ok (payments_insert p st)"
    and "payments_ok (snd (set_status now i s st))"
    and "payments_ok (snd (set_confirmed now i h st))"
    and "payments_ok (snd (set_failed now i r st))"
proof -
  have get: "pm_id p = i" if "payments_get st i = Ok p" for p i
    using that assms by (auto simp: payments_get_def ok_or_def payments_ok_def split: option.splits dest!: map_of_SomeD)
  show "payments_ok (payments_insert p st)"
    using assms by (simp add: payments_insert_def payments_ok_update)
  show "payments_ok (snd (set_status now i s st))" "payments_ok (snd (set_confirmed now i h st))"
    "payments_ok (snd (set_failed now i r st))"
    using assms by (auto simp: set_status_def set_confirmed_def set_failed_def get payments_ok_update
        split: sum.split)
qed

subsection \<open>Properties\<close>


definition two_hooks :: webhook_store where
  "two_hooks = snd (set_active ''b'' False (snd (register ''b'' ''t'' ''u2'' ''s2'' [PaymentFailed]
     (snd (register ''a'' ''t'' ''u1'' ''s1'' [PaymentFailed, PaymentConfirmed] webhooks_new)))))"

definition sample_payment :: payment where
  "sample_payment =
     \<lparr>pm_id = ''p'', pm_sender = ''s'', pm_recipient = ''r'', pm_amount = 1, pm_asset = native_asset ''testnet'',
      pm_status = Failed, pm_tx_hash = None, pm_fee_stroops = 0, pm_urgency = Standard, pm_error = None,
      pm_created_at = ''t'', pm_updated_at = ''t''\<rparr>"


text \<open>
  A deleted webhook is gone and nothing else is: deletion succeeds exactly for a registered
  id, lookups of other ids are unchanged, and a second deletion is refused as not found.\<close>

lemma webhook_deletion:
  "(fst (webhooks_delete i st) = Ok () \<longleftrightarrow> is_ok (webhooks_get st i)) \<and>
   (\<forall>j. webhooks_get (snd (webhooks_delete i st)) j = (if j = i then Err (NotFound i) else webhooks_get st j)) \<and>
   fst (webhooks_delete i (snd (webhooks_delete i st))) = Err (NotFound i)"
  by (auto simp: webhooks_delete_def webhooks_get_def ok_or_def delete_conv' split: option.splits)

end
