(* ===== verification/Observability.thy ===== *)
theory Observability
  imports Text_Ops
begin

text \<open>
  The process-wide metrics of \<^verbatim>\<open>src/observability.rs\<close>: counters, gauges, per-endpoint request
  statistics, the number of requests in flight, the two label sanitisers and the text that the
  metrics endpoint renders. Floating-point arithmetic is the record \<open>f64_ops\<close>. A hash map is
  rendered in the order in which it is iterated, so the rendering takes the entries as lists. The
  property says that the statistics are exactly the ones of the requests served.
\<close>

subsection \<open>Counters and gauges\<close>

type_synonym counters = "string \<Rightarrow> u64"

text \<open>An absent entry is created with the default value zero.\<close>

definition no_counters :: counters where
  "no_counters = (\<lambda>_. 0)"

definition counter :: "string \<Rightarrow> counters \<Rightarrow> counters" where
  "counter name cs = cs(name := cs name + 1)"

record 'f f64_ops =
  f64_lit :: "string \<Rightarrow> 'f"
  f64_of_u64 :: "u64 \<Rightarrow> 'f"
  f64_add :: "'f \<Rightarrow> 'f \<Rightarrow> 'f"
  f64_le :: "'f \<Rightarrow> 'f \<Rightarrow> bool"
  f64_display :: "'f \<Rightarrow> string"

record 'f request_metrics =
  rx_count :: u64
  rx_errors :: u64
  rx_latency_sum :: 'f
  rx_buckets :: "u64 list"

record 'f metrics =
  mt_counters :: counters
  mt_gauges :: "string \<rightharpoonup> 'f"
  mt_requests :: "string \<rightharpoonup> 'f request_metrics"
  mt_inflight :: u64

definition metrics_default :: "'f metrics" where
  "metrics_default = \<lparr>mt_counters = no_counters, mt_gauges = Map.empty, mt_requests = Map.empty, mt_inflight = 0\<rparr>"

definition request_metrics_default :: "'f f64_ops \<Rightarrow> 'f request_metrics" where
  "request_metrics_default ops =
     \<lparr>rx_count = 0, rx_errors = 0, rx_latency_sum = f64_lit ops ''0'', rx_buckets = replicate 6 0\<rparr>"

definition gauge :: "string \<Rightarrow> 'f \<Rightarrow> 'f metrics \<Rightarrow> 'f metrics" where
  "gauge name value m = m\<lparr>mt_gauges := (mt_gauges m)(name \<mapsto> value)\<rparr>"

subsection \<open>Requests\<close>

definition QUEUE_DEPTH :: string where
  "QUEUE_DEPTH = ''nodus_queue_depth''"

definition request_started :: "'f f64_ops \<Rightarrow> 'f metrics \<Rightarrow> 'f metrics" where
  "request_started ops m =
     (let before = mt_inflight m in
      gauge QUEUE_DEPTH (f64_add ops (f64_of_u64 ops before) (f64_lit ops ''1.0''))
        (m\<lparr>mt_inflight := before + 1\<rparr>))"

definition latency_bounds :: "'f f64_ops \<Rightarrow> 'f list" where
  "latency_bounds ops = map (f64_lit ops) [''0.05'', ''0.1'', ''0.25'', ''0.5'', ''1.0'', ''5.0'']"

definition observe :: "'f f64_ops \<Rightarrow> 'f \<Rightarrow> bool \<Rightarrow> 'f request_metrics \<Rightarrow> 'f request_metrics" where
  "observe ops latency failed r =
     \<lparr>rx_count = rx_count r + 1,
      rx_errors = rx_errors r + of_bool failed,
      rx_latency_sum = f64_add ops (rx_latency_sum r) latency,
      rx_buckets = map2 (\<lambda>n boundary. n + of_bool (f64_le ops latency boundary)) (rx_buckets r) (latency_bounds ops)\<rparr>"

definition request_finished :: "'f f64_ops \<Rightarrow> 'f \<Rightarrow> bool \<Rightarrow> string \<Rightarrow> 'f metrics \<Rightarrow> 'f metrics" where
  "request_finished ops latency failed endpoint m =
     (let request = (case mt_requests m endpoint of Some r \<Rightarrow> r | None \<Rightarrow> request_metrics_default ops);
          before = mt_inflight m in
      gauge QUEUE_DEPTH (f64_of_u64 ops (saturating_sub before 1))
        (m\<lparr>mt_requests := (mt_requests m)(endpoint \<mapsto> observe ops latency failed request),
           mt_inflight := before - 1\<rparr>))"

subsection \<open>Labels\<close>

definition safe_label :: "string \<Rightarrow> string" where
  "safe_label value = take 64 (filter (\<lambda>c. is_ascii_alphanumeric c \<or> c \<in> set ''._-'') value)"

definition endpoint_of :: "string \<Rightarrow> string" where
  "endpoint_of path =
     join_with (CHR ''/'') (map (\<lambda>part. if 20 < length part \<or> parse_u64 part \<noteq> None then '':id'' else part)
       (split_on (CHR ''/'') path))"

subsection \<open>Rendering\<close>

record metrics_identity =
  id_network :: string
  id_provider :: string
  id_release :: string
  id_manifest :: string
  id_contract :: string

text \<open>The identity is set once; a later one is ignored.\<close>

definition init_identity :: "metrics_identity \<Rightarrow> metrics_identity option \<Rightarrow> metrics_identity option" where
  "init_identity i current = (case current of None \<Rightarrow> Some i | Some _ \<Rightarrow> current)"

definition unknown_identity :: metrics_identity where
  "unknown_identity = \<lparr>id_network = ''unknown'', id_provider = ''unknown'', id_release = ''unknown'',
     id_manifest = ''unknown'', id_contract = ''unknown''\<rparr>"

definition in_quotes :: "string \<Rightarrow> string" where
  "in_quotes s = CHR 0x22 # s @ [CHR 0x22]"

definition label_set :: "metrics_identity \<Rightarrow> string \<Rightarrow> string" where
  "label_set i ep =
     ''network='' @ in_quotes (safe_label (id_network i)) @ '',provider='' @ in_quotes (safe_label (id_provider i)) @
     '',release='' @ in_quotes (safe_label (id_release i)) @ '',manifest='' @ in_quotes (safe_label (id_manifest i)) @
     '',contract_version='' @ in_quotes (safe_label (id_contract i)) @ '',endpoint='' @ in_quotes (safe_label ep)"

definition sample_line :: "string \<Rightarrow> string \<Rightarrow> string \<Rightarrow> string" where
  "sample_line name ls value = name @ ''{'' @ ls @ ''} '' @ value @ [CHR 0x0A]"

definition render_request :: "'f f64_ops \<Rightarrow> metrics_identity \<Rightarrow> string \<Rightarrow> 'f request_metrics \<Rightarrow> string" where
  "render_request ops i ep r =
     (let ls = label_set i ep; count = dec_of_nat (unat (rx_count r)) in
      sample_line ''nodus_http_requests_total'' ls count @
      sample_line ''nodus_http_errors_total'' ls (dec_of_nat (unat (rx_errors r))) @
      sample_line ''nodus_http_request_latency_seconds_sum'' ls (f64_display ops (rx_latency_sum r)) @
      sample_line ''nodus_http_request_latency_seconds_count'' ls count @
      concat (map (\<lambda>(boundary, n). sample_line ''nodus_http_request_latency_seconds_bucket''
                     (ls @ '',le='' @ in_quotes boundary) (dec_of_nat (unat n)))
                (zip [''0.05'', ''0.1'', ''0.25'', ''0.5'', ''1'', ''5''] (rx_buckets r))) @
      sample_line ''nodus_http_request_latency_seconds_bucket'' (ls @ '',le='' @ in_quotes ''+Inf'') count)"

definition encode_metrics ::
  "'f f64_ops \<Rightarrow> metrics_identity option \<Rightarrow> string \<Rightarrow> (string \<times> u64) list \<Rightarrow> (string \<times> 'f) list \<Rightarrow>
     (string \<times> 'f request_metrics) list \<Rightarrow> string" where
  "encode_metrics ops identity ep counter_entries gauge_entries request_entries =
     (let i = (case identity of Some i \<Rightarrow> i | None \<Rightarrow> unknown_identity) in
      concat (map (\<lambda>(name, value). sample_line name (label_set i ep) (dec_of_nat (unat value))) counter_entries) @
      concat (map (\<lambda>(name, value). sample_line name (label_set i ep) (f64_display ops value)) gauge_entries) @
      concat (map (\<lambda>(ep', r). render_request ops i ep' r) request_entries))"

subsection \<open>Lemmas\<close>

lemma counter_apply [simp]:
  "counter name cs n = (if n = name then cs n + 1 else cs n)"
  by (simp add: counter_def)

text \<open>A label value cannot leave its quotes: no quote, no backslash, no line break.\<close>

lemma safe_chars: "c \<in> set (safe_label v) \<Longrightarrow> is_ascii_alphanumeric c \<or> c \<in> set ''._-''"
  by (auto simp: safe_label_def dest: in_set_takeD)

lemma safe_no_escape: "CHR 0x22 \<notin> set (safe_label v)" "CHR 0x5C \<notin> set (safe_label v)" "CHR 0x0A \<notin> set (safe_label v)"
  by (auto dest: safe_chars simp: is_ascii_alphanumeric_def)

lemma safe_bounded: "length (safe_label v) \<le> 64"
  by (simp add: safe_label_def)

text \<open>The path label has no long part and no number in it, and labelling it again changes nothing.\<close>

lemma endpoint_parts:
  "split_on (CHR ''/'') (endpoint_of p) =
     map (\<lambda>part. if 20 < length part \<or> parse_u64 part \<noteq> None then '':id'' else part) (split_on (CHR ''/'') p)"
  unfolding endpoint_of_def
  by (rule split_on_join) (auto dest: split_on_pieces)

lemma endpoint_part_small:
  "part \<in> set (split_on (CHR ''/'') (endpoint_of p)) \<Longrightarrow> length part \<le> 20 \<and> parse_u64 part = None"
proof -
  have "parse_u64 '':id'' = None" by code_simp
  then show "part \<in> set (split_on (CHR ''/'') (endpoint_of p)) \<Longrightarrow> length part \<le> 20 \<and> parse_u64 part = None"
    by (auto simp: endpoint_parts split: if_splits)
qed

lemma endpoint_idem: "endpoint_of (endpoint_of p) = endpoint_of p"
proof -
  have "endpoint_of (endpoint_of p) = join_with (CHR ''/'') (split_on (CHR ''/'') (endpoint_of p))"
    unfolding endpoint_of_def [of "endpoint_of p"]
    by (rule arg_cong [where f = "join_with _"], rule map_idI) (use endpoint_part_small in fastforce)
  then show ?thesis by (simp add: join_split_on)
qed

text \<open>One line per sample: what a caller can put into a label adds none.\<close>

lemma line_count_labels: "count_list (label_set i ep) (CHR 0x0A) = 0"
  by (simp add: label_set_def in_quotes_def count_list_append count_notin safe_no_escape)

lemma line_count_sample:
  "count_list name (CHR 0x0A) = 0 \<Longrightarrow> count_list ls (CHR 0x0A) = 0 \<Longrightarrow> count_list v (CHR 0x0A) = 0 \<Longrightarrow>
     count_list (sample_line name ls v) (CHR 0x0A) = 1"
  by (simp add: sample_line_def count_list_append)

subsection \<open>Sequences of requests\<close>

text \<open>What happens to the metrics: a request starts, or one ends with a latency, a verdict and an endpoint.\<close>

datatype 'f request_event = Started | Finished 'f bool string

fun metrics_step :: "'f f64_ops \<Rightarrow> 'f request_event \<Rightarrow> 'f metrics \<Rightarrow> 'f metrics" where
  "metrics_step ops Started m = request_started ops m"
| "metrics_step ops (Finished latency failed ep) m = request_finished ops latency failed ep m"

definition metrics_run :: "'f f64_ops \<Rightarrow> 'f request_event list \<Rightarrow> 'f metrics" where
  "metrics_run ops es = fold (metrics_step ops) es metrics_default"

text \<open>The requests that ended at an endpoint, and the statistics they call for.\<close>

fun ended :: "'f request_event list \<Rightarrow> string \<Rightarrow> ('f \<times> bool) list" where
  "ended [] ep = []"
| "ended (Started # es) ep = ended es ep"
| "ended (Finished latency failed ep' # es) ep = (if ep' = ep then [(latency, failed)] else []) @ ended es ep"

definition statistics_of :: "'f f64_ops \<Rightarrow> ('f \<times> bool) list \<Rightarrow> 'f request_metrics" where
  "statistics_of ops xs =
     \<lparr>rx_count = of_nat (length xs),
      rx_errors = of_nat (length (filter snd xs)),
      rx_latency_sum = foldl (f64_add ops) (f64_lit ops ''0'') (map fst xs),
      rx_buckets = map (\<lambda>b. of_nat (length (filter (\<lambda>x. f64_le ops (fst x) b) xs))) (latency_bounds ops)\<rparr>"

lemma ended_append [simp]: "ended (es @ es') ep = ended es ep @ ended es' ep"
  by (induction es ep rule: ended.induct) simp_all

lemma statistics_of_Nil: "statistics_of ops [] = request_metrics_default ops"
  by (simp add: statistics_of_def request_metrics_default_def latency_bounds_def numeral_eq_Suc)

lemma observe_statistics: "observe ops l f (statistics_of ops xs) = statistics_of ops (xs @ [(l, f)])"
  by (simp add: observe_def statistics_of_def latency_bounds_def)

lemma metrics_run_snoc: "metrics_run ops (es @ [e]) = metrics_step ops e (metrics_run ops es)"
  by (simp add: metrics_run_def)

lemma metrics_run_requests:
  "mt_requests (metrics_run ops es) ep =
     (if ended es ep = [] then None else Some (statistics_of ops (ended es ep)))"
proof (induction es rule: rev_induct)
  case Nil
  show ?case by (simp add: metrics_run_def metrics_default_def)
next
  case (snoc e es)
  then show ?case
    by (cases e) (auto simp: metrics_run_snoc request_started_def request_finished_def gauge_def Let_def
        observe_statistics statistics_of_Nil [symmetric])
qed

definition started :: "'f request_event list \<Rightarrow> nat" where
  "started es = length (filter (\<lambda>e. e = Started) es)"

lemma metrics_run_inflight:
  "mt_inflight (metrics_run ops es) = of_nat (started es) - of_nat (length es - started es)"
proof (induction es rule: rev_induct)
  case Nil
  show ?case by (simp add: metrics_run_def metrics_default_def started_def)
next
  case (snoc e es)
  have "started es \<le> length es" by (simp add: started_def)
  with snoc show ?case
    by (cases e) (simp_all add: metrics_run_snoc request_started_def request_finished_def gauge_def Let_def
        started_def Suc_diff_le)
qed

text \<open>The lines of the rendering.\<close>

lemma dec_of_nat_line: "CHR 0x0A \<notin> set (dec_of_nat n)"
  using dec_of_nat_digits [of n] by (auto simp: list_all_iff is_digit_def)

lemma count_list_concat: "count_list (concat xss) x = sum_list (map (\<lambda>xs. count_list xs x) xss)"
  by (induction xss) simp_all

lemma line_count_request:
  assumes "CHR 0x0A \<notin> set (f64_display ops (rx_latency_sum r))" and "length (rx_buckets r) = 6"
  shows "count_list (render_request ops i ep r) (CHR 0x0A) = 11"
proof -
  obtain a b c d e f where "rx_buckets r = [a, b, c, d, e, f]"
    using assms(2) by (auto simp: numeral_eq_Suc length_Suc_conv)
  with assms(1) show ?thesis
    by (simp add: render_request_def Let_def line_count_sample line_count_labels in_quotes_def dec_of_nat_line)
qed

subsection \<open>Properties\<close>

text \<open>
  C27. The statistics are exactly those of the requests served: after any interleaving of starts
  and ends, an endpoint has an entry just when a request ended there, the entry counts these
  requests, the failed ones among them and for every boundary those that did not take longer, the
  latencies are added up in order, and the number in flight is the starts less the ends; the
  counts are taken modulo the word size.\<close>

theorem metrics_count_requests:
  "mt_requests (metrics_run ops es) ep =
     (if ended es ep = [] then None
      else Some \<lparr>rx_count = of_nat (length (ended es ep)),
                 rx_errors = of_nat (length (filter snd (ended es ep))),
                 rx_latency_sum = foldl (f64_add ops) (f64_lit ops ''0'') (map fst (ended es ep)),
                 rx_buckets = map (\<lambda>b. of_nat (length (filter (\<lambda>x. f64_le ops (fst x) b) (ended es ep))))
                   (latency_bounds ops)\<rparr>) \<and>
   mt_inflight (metrics_run ops es) = of_nat (started es) - of_nat (length es - started es)"
  by (simp add: metrics_run_requests metrics_run_inflight statistics_of_def)

text \<open>
  The rendering is one line per sample, whatever is in the labels: identity and endpoint are
  reduced to characters that cannot end a line or leave the quotes, so a rendering has one line
  for each counter and gauge and eleven for each endpoint.\<close>

lemma metrics_lines:
  assumes "\<forall>(name, _) \<in> set counter_entries. CHR 0x0A \<notin> set name"
    and "\<forall>(name, value) \<in> set gauge_entries. CHR 0x0A \<notin> set name \<and> CHR 0x0A \<notin> set (f64_display ops value)"
    and "\<forall>(_, r) \<in> set request_entries. CHR 0x0A \<notin> set (f64_display ops (rx_latency_sum r)) \<and> length (rx_buckets r) = 6"
  shows "count_list (encode_metrics ops identity ep counter_entries gauge_entries request_entries) (CHR 0x0A) =
     length counter_entries + length gauge_entries + 11 * length request_entries"
proof -
  let ?n = "\<lambda>s. count_list s (CHR 0x0A)"
  have "sum_list (map (?n \<circ> (\<lambda>(name, value). sample_line name (label_set i ep) (dec_of_nat (unat value)))) counter_entries)
      = length counter_entries" for i
    using assms(1)
    by (induction counter_entries) (auto simp: line_count_sample line_count_labels dec_of_nat_line)
  moreover have "sum_list (map (?n \<circ> (\<lambda>(name, value). sample_line name (label_set i ep) (f64_display ops value))) gauge_entries)
      = length gauge_entries" for i
    using assms(2) by (induction gauge_entries) (auto simp: line_count_sample line_count_labels)
  moreover have "sum_list (map (?n \<circ> (\<lambda>(ep', r). render_request ops i ep' r)) request_entries)
      = 11 * length request_entries" for i
    using assms(3) by (induction request_entries) (auto simp: line_count_request)
  ultimately show ?thesis by (simp add: encode_metrics_def Let_def count_list_concat)
qed

end
