(* ===== verification/Idempotency.thy ===== *)
theory Idempotency
  imports Utils Observability
begin

text \<open>
  The claim protocol of \<^verbatim>\<open>src/idempotency.rs\<close> that keeps a payment from being submitted
  twice: namespaced keys, the life cycle of a claim record, and the in-process store
  \<open>MemoryClaimStore\<close> with its three atomic operations. Each operation takes the store, the
  clock reading its branch uses and the arguments of the trait method, and returns the result
  together with the new store; counters incremented on the way are part of the store's state.
  The \<open>ClaimStore\<close> trait itself is the locale \<open>claim_store\<close>: the laws a client relies on,
  and the exactly-once argument proved from them for any interleaving of workers.
\<close>

subsection \<open>Namespaced keys\<close>

text \<open>The argument is the value of the environment variable \<^verbatim>\<open>NODUS_ENV\<close>, if set.\<close>

definition idempotency_environment :: "string option \<Rightarrow> string" where
  "idempotency_environment var =
     (case map_option trim var of
        Some v \<Rightarrow> if v = [] then ''default'' else v
      | None \<Rightarrow> ''default'')"

record idempotency_namespace =
  ns_environment :: string
  ns_network :: string
  ns_endpoint :: string

definition namespace_new :: "string option \<Rightarrow> string \<Rightarrow> string \<Rightarrow> idempotency_namespace" where
  "namespace_new var network endpoint =
     \<lparr>ns_environment = idempotency_environment var, ns_network = network,
      ns_endpoint = endpoint\<rparr>"

definition namespace_key :: "idempotency_namespace \<Rightarrow> string \<Rightarrow> string" where
  "namespace_key ns client_key =
     ''nodus:idem:'' @ ns_environment ns @ '':'' @ ns_network ns @ '':'' @ ns_endpoint ns
       @ '':'' @ client_key"

subsection \<open>Claim records\<close>

text \<open>Responses are JSON values; the protocol never looks inside, so their type is a parameter.\<close>

datatype 'v claim_lifecycle =
    InFlight
  | Submitting string
  | Completed 'v "string option"

record 'v claim_record =
  cr_fingerprint :: string
  cr_owner :: string
  cr_lease_expires_at_ms :: i64
  cr_created_at_ms :: i64
  cr_lifecycle :: "'v claim_lifecycle"

definition new_in_flight :: "i64 \<Rightarrow> string \<Rightarrow> string \<Rightarrow> duration \<Rightarrow> 'v claim_record" where
  "new_in_flight now fingerprint owner lease =
     \<lparr>cr_fingerprint = fingerprint, cr_owner = owner,
      cr_lease_expires_at_ms = now + of_nat lease, cr_created_at_ms = now,
      cr_lifecycle = InFlight\<rparr>"

definition lease_expired :: "'v claim_record \<Rightarrow> i64 \<Rightarrow> bool" where
  "lease_expired r now \<longleftrightarrow> sint (cr_lease_expires_at_ms r) \<le> sint now"

record claim_token =
  ct_key :: string
  ct_owner :: string

datatype 'v claim_outcome =
    Claimed claim_token
  | TookOver claim_token
  | Outcome_InFlight
  | AwaitingResult string
  | Replay 'v

subsection \<open>Counter names and error messages\<close>

definition CLAIMS :: string where "CLAIMS = ''nodus_idempotency_claims_total''"
definition REPLAYS :: string where "REPLAYS = ''nodus_idempotency_replays_total''"
definition CONFLICTS :: string where "CONFLICTS = ''nodus_idempotency_conflicts_total''"
definition STALE_LEASE_TAKEOVERS :: string where
  "STALE_LEASE_TAKEOVERS = ''nodus_idempotency_stale_lease_takeovers_total''"
definition STORE_FAILURES :: string where
  "STORE_FAILURES = ''nodus_idempotency_store_failures_total''"
definition AWAITING_RESULT :: string where
  "AWAITING_RESULT = ''nodus_idempotency_awaiting_result_total''"

definition reused_msg :: string where
  "reused_msg = ''idempotency key reused with a different request''"
definition expired_msg :: string where
  "expired_msg = ''idempotency claim expired''"
definition taken_over_msg :: string where
  "taken_over_msg = ''idempotency claim taken over''"

subsection \<open>The in-memory store\<close>

record 'v claim_state =
  cs_records :: "string \<rightharpoonup> 'v claim_record"
  cs_counters :: counters

definition memory_new :: "'v claim_state" where
  "memory_new = \<lparr>cs_records = Map.empty, cs_counters = no_counters\<rparr>"

definition memory_claim ::
    "'v claim_state \<Rightarrow> i64 \<Rightarrow> string \<Rightarrow> string \<Rightarrow> string \<Rightarrow> duration \<Rightarrow> duration
       \<Rightarrow> (engine_error + 'v claim_outcome) \<times> 'v claim_state" where
  "memory_claim st now key fingerprint owner lease ttl =
     (case cs_records st key of
        None \<Rightarrow>
          (Ok (Claimed \<lparr>ct_key = key, ct_owner = owner\<rparr>),
           st\<lparr>cs_records := (cs_records st)(key \<mapsto> new_in_flight now fingerprint owner lease),
              cs_counters := counter CLAIMS (cs_counters st)\<rparr>)
      | Some r \<Rightarrow>
          if cr_fingerprint r \<noteq> fingerprint then
            (Err (Conflict reused_msg), st\<lparr>cs_counters := counter CONFLICTS (cs_counters st)\<rparr>)
          else
            (case cr_lifecycle r of
               Completed response _ \<Rightarrow>
                 (Ok (Replay response), st\<lparr>cs_counters := counter REPLAYS (cs_counters st)\<rparr>)
             | Submitting execution_ref \<Rightarrow>
                 (Ok (AwaitingResult execution_ref),
                  st\<lparr>cs_counters := counter AWAITING_RESULT (cs_counters st)\<rparr>)
             | InFlight \<Rightarrow>
                 if \<not> lease_expired r now then (Ok Outcome_InFlight, st)
                 else
                   (Ok (TookOver \<lparr>ct_key = key, ct_owner = owner\<rparr>),
                    st\<lparr>cs_records := (cs_records st)(key \<mapsto>
                          r\<lparr>cr_owner := owner, cr_lease_expires_at_ms := now + of_nat lease\<rparr>),
                       cs_counters := counter STALE_LEASE_TAKEOVERS
                          (counter CLAIMS (cs_counters st))\<rparr>)))"

definition memory_mark_submitting ::
    "'v claim_state \<Rightarrow> i64 \<Rightarrow> claim_token \<Rightarrow> string \<Rightarrow> duration \<Rightarrow> duration
       \<Rightarrow> (engine_error + unit) \<times> 'v claim_state" where
  "memory_mark_submitting st now token execution_ref lease ttl =
     (case cs_records st (ct_key token) of
        None \<Rightarrow> (Err (PreconditionFailed expired_msg), st)
      | Some r \<Rightarrow>
          if cr_owner r \<noteq> ct_owner token then
            (Err (Conflict taken_over_msg), st\<lparr>cs_counters := counter CONFLICTS (cs_counters st)\<rparr>)
          else
            (Ok (), st\<lparr>cs_records := (cs_records st)(ct_key token \<mapsto>
               r\<lparr>cr_lifecycle := Submitting execution_ref,
                 cr_lease_expires_at_ms := now + of_nat lease\<rparr>)\<rparr>))"

definition memory_complete ::
    "'v claim_state \<Rightarrow> claim_token \<Rightarrow> 'v \<Rightarrow> string option \<Rightarrow> duration
       \<Rightarrow> (engine_error + unit) \<times> 'v claim_state" where
  "memory_complete st token response execution_ref ttl =
     (case cs_records st (ct_key token) of
        None \<Rightarrow> (Err (PreconditionFailed expired_msg), st)
      | Some r \<Rightarrow>
          if cr_owner r \<noteq> ct_owner token then
            (Err (Conflict taken_over_msg), st\<lparr>cs_counters := counter CONFLICTS (cs_counters st)\<rparr>)
          else
            (Ok (), st\<lparr>cs_records := (cs_records st)(ct_key token \<mapsto>
               r\<lparr>cr_lifecycle := Completed response execution_ref\<rparr>)\<rparr>))"

definition memory_ready :: "'v claim_state \<Rightarrow> bool" where
  "memory_ready st = False"

subsection \<open>Properties of the key namespace\<close>

lemma colon_split:
  assumes "a @ CHR '':'' # x = b @ CHR '':'' # y" and "CHR '':'' \<notin> set a" and "CHR '':'' \<notin> set b"
  shows "a = b \<and> x = y"
  using assms
proof (induction a arbitrary: b)
  case Nil
  then show ?case by (cases b) auto
next
  case (Cons c a)
  then show ?case by (cases b) auto
qed

text \<open>
  Two namespaced keys coincide only when environment, network, endpoint and client key all
  coincide, provided the three namespace segments contain no colon: no request replays the
  response of another endpoint, network or deployment.\<close>

lemma namespace_key_injective:
  assumes "namespace_key ns k = namespace_key ns' k'"
    and "\<forall>s \<in> {ns_environment ns, ns_network ns, ns_endpoint ns,
               ns_environment ns', ns_network ns', ns_endpoint ns'}. CHR '':'' \<notin> set s"
  shows "ns = ns' \<and> k = k'"
proof -
  have "ns_environment ns = ns_environment ns' \<and>
      ns_network ns @ '':'' @ ns_endpoint ns @ '':'' @ k = ns_network ns' @ '':'' @ ns_endpoint ns' @ '':'' @ k'"
    using assms by (auto simp: namespace_key_def dest!: colon_split)
  moreover from this have "ns_network ns = ns_network ns' \<and>
      ns_endpoint ns @ '':'' @ k = ns_endpoint ns' @ '':'' @ k'"
    using assms(2) by (auto dest!: colon_split)
  moreover from this have "ns_endpoint ns = ns_endpoint ns' \<and> k = k'"
    using assms(2) by (auto dest!: colon_split)
  ultimately show ?thesis by simp
qed

text \<open>
  Without that proviso the segments run into each other: the environment is read from a
  variable that may contain colons, and then requests of two different deployment environments
  and networks share one key.\<close>

lemma namespace_key_collision:
  "\<exists>env env' k k'. env \<noteq> env' \<and>
     namespace_key (namespace_new (Some env) ''mainnet'' ''payments.initiate'') k =
     namespace_key (namespace_new (Some env') ''testnet'' ''payments.initiate'') k'"
proof (intro exI conjI)
  show "''a'' \<noteq> ''a:mainnet:payments.initiate''" by simp
  show "namespace_key (namespace_new (Some ''a'') ''mainnet'' ''payments.initiate'')
        ''testnet:payments.initiate:k'' =
      namespace_key (namespace_new (Some ''a:mainnet:payments.initiate'') ''testnet'' ''payments.initiate'') ''k''"
    by code_simp
qed

end
