(* ===== verification/Claim_Protocol.thy ===== *)
theory Claim_Protocol
  imports Idempotency
begin

text \<open>
  Workers that run idempotent requests against one claim store. A worker follows
  \<open>Engine::initiate_idempotent\<close> of \<^verbatim>\<open>src/engine/mod.rs\<close>: it claims a key under a fresh
  owner identity, and only with a granted claim goes on to record the execution reference
  (\<open>mark_submitting\<close>) immediately before the irreversible submission, and to commit the final
  response. Steps of different workers interleave arbitrarily, with arbitrary clock readings,
  and any worker may stop between two steps. The locale \<open>claim_store\<close> states what the
  \<open>ClaimStore\<close> trait promises; its consequences for every interleaving are proved once from the
  laws and transferred to the in-memory store by interpretation.
\<close>

subsection \<open>Workers\<close>

datatype worker_phase = Fresh | Holding claim_token | Submitted claim_token | Stopped

record 's system =
  sys_store :: 's
  sys_phase :: "string \<Rightarrow> worker_phase"
  sys_submitted :: "(string \<times> string) list"

definition initial_system :: "'s \<Rightarrow> 's system" where
  "initial_system st = \<lparr>sys_store = st, sys_phase = (\<lambda>_. Fresh), sys_submitted = []\<rparr>"

text \<open>What a worker does with the disposition of its claim.\<close>

fun after_claim :: "engine_error + 'v claim_outcome \<Rightarrow> worker_phase" where
  "after_claim (Ok (Claimed t)) = Holding t"
| "after_claim (Ok (TookOver t)) = Holding t"
| "after_claim (Ok _) = Stopped"
| "after_claim (Err _) = Stopped"

type_synonym ('s, 'v) claim_fn =
  "'s \<Rightarrow> i64 \<Rightarrow> string \<Rightarrow> string \<Rightarrow> string \<Rightarrow> duration \<Rightarrow> duration
     \<Rightarrow> (engine_error + 'v claim_outcome) \<times> 's"
type_synonym 's mark_fn =
  "'s \<Rightarrow> i64 \<Rightarrow> claim_token \<Rightarrow> string \<Rightarrow> duration \<Rightarrow> duration \<Rightarrow> (engine_error + unit) \<times> 's"
type_synonym ('s, 'v) complete_fn =
  "'s \<Rightarrow> claim_token \<Rightarrow> 'v \<Rightarrow> string option \<Rightarrow> duration \<Rightarrow> (engine_error + unit) \<times> 's"

text \<open>
  One step of one worker: its claim; its checkpoint and, when the store accepts it, the
  submission it guards; the commit of the response, with or without a submission before it
  (a payment without a route completes without submitting); a crash or an early return.
\<close>

inductive worker_step ::
    "('s, 'v) claim_fn \<Rightarrow> 's mark_fn \<Rightarrow> ('s, 'v) complete_fn \<Rightarrow> 's system \<Rightarrow> 's system \<Rightarrow> bool"
  for claim mark complete where
  w_claim: "sys_phase s w = Fresh \<Longrightarrow>
     claim (sys_store s) now key fp w lease ttl = (res, st') \<Longrightarrow>
     worker_step claim mark complete s
       (s\<lparr>sys_store := st', sys_phase := (sys_phase s)(w := after_claim res)\<rparr>)"
| w_submit: "sys_phase s w = Holding t \<Longrightarrow>
     mark (sys_store s) now t execution_ref lease ttl = (Ok (), st') \<Longrightarrow>
     worker_step claim mark complete s
       (s\<lparr>sys_store := st', sys_phase := (sys_phase s)(w := Submitted t),
          sys_submitted := (ct_key t, w) # sys_submitted s\<rparr>)"
| w_refused: "sys_phase s w = Holding t \<Longrightarrow>
     mark (sys_store s) now t execution_ref lease ttl = (Err e, st') \<Longrightarrow>
     worker_step claim mark complete s
       (s\<lparr>sys_store := st', sys_phase := (sys_phase s)(w := Stopped)\<rparr>)"
| w_complete: "sys_phase s w = Holding t \<or> sys_phase s w = Submitted t \<Longrightarrow>
     complete (sys_store s) t response tx ttl = (res', st') \<Longrightarrow>
     worker_step claim mark complete s
       (s\<lparr>sys_store := st', sys_phase := (sys_phase s)(w := Stopped)\<rparr>)"
| w_stop: "worker_step claim mark complete s (s\<lparr>sys_phase := (sys_phase s)(w := Stopped)\<rparr>)"

inductive worker_run ::
    "('s, 'v) claim_fn \<Rightarrow> 's mark_fn \<Rightarrow> ('s, 'v) complete_fn \<Rightarrow> 's system \<Rightarrow> 's system \<Rightarrow> bool"
  for claim mark complete where
  run_refl: "worker_run claim mark complete s s"
| run_step: "worker_run claim mark complete s t \<Longrightarrow> worker_step claim mark complete t u \<Longrightarrow>
     worker_run claim mark complete s u"

text \<open>
  A schedule as data, for running the system on concrete inputs: an action that is not enabled
  changes nothing.
\<close>

datatype 'v action =
    Do_claim string i64 string string duration duration
  | Do_submit string i64 string duration duration
  | Do_complete string 'v "string option" duration
  | Do_stop string

fun act ::
    "('s, 'v) claim_fn \<Rightarrow> 's mark_fn \<Rightarrow> ('s, 'v) complete_fn \<Rightarrow> 'v action \<Rightarrow> 's system \<Rightarrow> 's system"
  where
  "act claim mark complete (Do_claim w now key fp lease ttl) s =
     (if sys_phase s w \<noteq> Fresh then s
      else case claim (sys_store s) now key fp w lease ttl of (res, st') \<Rightarrow>
        s\<lparr>sys_store := st', sys_phase := (sys_phase s)(w := after_claim res)\<rparr>)"
| "act claim mark complete (Do_submit w now execution_ref lease ttl) s =
     (case sys_phase s w of
        Holding t \<Rightarrow>
          (case mark (sys_store s) now t execution_ref lease ttl of
             (Ok _, st') \<Rightarrow> s\<lparr>sys_store := st', sys_phase := (sys_phase s)(w := Submitted t),
                                sys_submitted := (ct_key t, w) # sys_submitted s\<rparr>
           | (Err e, st') \<Rightarrow> s\<lparr>sys_store := st', sys_phase := (sys_phase s)(w := Stopped)\<rparr>)
      | _ \<Rightarrow> s)"
| "act claim mark complete (Do_complete w response tx ttl) s =
     (let commit = (\<lambda>t. s\<lparr>sys_store := snd (complete (sys_store s) t response tx ttl),
                          sys_phase := (sys_phase s)(w := Stopped)\<rparr>) in
      case sys_phase s w of Holding t \<Rightarrow> commit t | Submitted t \<Rightarrow> commit t | _ \<Rightarrow> s)"
| "act claim mark complete (Do_stop w) s = s\<lparr>sys_phase := (sys_phase s)(w := Stopped)\<rparr>"

definition run_schedule ::
    "('s, 'v) claim_fn \<Rightarrow> 's mark_fn \<Rightarrow> ('s, 'v) complete_fn \<Rightarrow> 'v action list \<Rightarrow> 's system \<Rightarrow> 's system"
  where
  "run_schedule claim mark complete as s = fold (act claim mark complete) as s"

text \<open>
  The invariant that carries the argument, over the records a store shows: a submitted key is
  past its in-flight stage and still belongs to its submitter; a token is held under its own
  identity by a worker that has not submitted; the owner of a record has claimed; the owner of
  a completed record has stopped; no key is submitted twice.
\<close>

definition protocol_inv :: "('s \<Rightarrow> string \<rightharpoonup> 'v claim_record) \<Rightarrow> 's system \<Rightarrow> bool" where
  "protocol_inv view s \<longleftrightarrow>
     (\<forall>(k, w) \<in> set (sys_submitted s).
        \<exists>r. view (sys_store s) k = Some r \<and> cr_owner r = w \<and> cr_lifecycle r \<noteq> InFlight)
     \<and> (\<forall>w t. sys_phase s w = Holding t \<longrightarrow> ct_owner t = w \<and> w \<notin> snd ` set (sys_submitted s))
     \<and> (\<forall>w t. sys_phase s w = Submitted t \<longrightarrow> ct_owner t = w)
     \<and> (\<forall>w. sys_phase s w = Fresh \<longrightarrow> w \<notin> snd ` set (sys_submitted s))
     \<and> (\<forall>k r. view (sys_store s) k = Some r \<longrightarrow> sys_phase s (cr_owner r) \<noteq> Fresh)
     \<and> (\<forall>k r v x. view (sys_store s) k = Some r \<and> cr_lifecycle r = Completed v x
          \<longrightarrow> sys_phase s (cr_owner r) = Stopped)
     \<and> distinct (map fst (sys_submitted s))"

lemma worker_run_prepend:
  "worker_run claim mark complete t u \<Longrightarrow> worker_step claim mark complete s t \<Longrightarrow>
     worker_run claim mark complete s u"
  by (induction rule: worker_run.induct) (auto intro: run_step run_refl)

lemma act_step:
  "act claim mark complete a s = s \<or> worker_step claim mark complete s (act claim mark complete a s)"
proof (cases a)
  case (Do_claim w now key fp lease ttl)
  then show ?thesis by (auto split: prod.split intro: w_claim)
next
  case (Do_submit w now execution_ref lease ttl)
  show ?thesis
  proof (cases "sys_phase s w")
    case (Holding t)
    obtain res st' where m: "mark (sys_store s) now t execution_ref lease ttl = (res, st')"
      by (cases "mark (sys_store s) now t execution_ref lease ttl")
    show ?thesis
    proof (cases res)
      case (Inl e)
      with w_refused [where claim = claim and complete = complete] Holding m Do_submit
      show ?thesis by simp
    next
      case (Inr u)
      with w_submit [where claim = claim and complete = complete] Holding m Do_submit
      show ?thesis by simp
    qed
  qed (simp_all add: Do_submit)
next
  case (Do_complete w response tx ttl)
  have commit: "worker_step claim mark complete s
      (s\<lparr>sys_store := snd (complete (sys_store s) t response tx ttl),
         sys_phase := (sys_phase s)(w := Stopped)\<rparr>)"
    if "sys_phase s w = Holding t \<or> sys_phase s w = Submitted t" for t
    using that by (rule w_complete) (rule prod.collapse [symmetric])
  show ?thesis
    by (cases "sys_phase s w") (simp_all add: Do_complete commit)
next
  case (Do_stop w)
  then show ?thesis by (auto intro: w_stop)
qed

lemma run_schedule_run:
  "worker_run claim mark complete s t \<Longrightarrow>
     worker_run claim mark complete s (run_schedule claim mark complete as t)"
proof (induction as arbitrary: t)
  case (Cons a as)
  have "worker_run claim mark complete s (act claim mark complete a t)"
    using act_step [of claim mark complete a t] Cons.prems by (auto intro: run_step)
  from Cons.IH [OF this] show ?case by (simp add: run_schedule_def)
qed (simp add: run_schedule_def)

lemmas run_schedule_from = run_schedule_run [OF run_refl]

lemma protocol_invI:
  assumes "\<And>k w. (k, w) \<in> set (sys_submitted s) \<Longrightarrow>
        \<exists>r. view (sys_store s) k = Some r \<and> cr_owner r = w \<and> cr_lifecycle r \<noteq> InFlight"
    and "\<And>w t. sys_phase s w = Holding t \<Longrightarrow> ct_owner t = w \<and> w \<notin> snd ` set (sys_submitted s)"
    and "\<And>w t. sys_phase s w = Submitted t \<Longrightarrow> ct_owner t = w"
    and "\<And>w. sys_phase s w = Fresh \<Longrightarrow> w \<notin> snd ` set (sys_submitted s)"
    and "\<And>k r. view (sys_store s) k = Some r \<Longrightarrow> sys_phase s (cr_owner r) \<noteq> Fresh"
    and "\<And>k r v x. view (sys_store s) k = Some r \<Longrightarrow> cr_lifecycle r = Completed v x \<Longrightarrow>
        sys_phase s (cr_owner r) = Stopped"
    and "distinct (map fst (sys_submitted s))"
  shows "protocol_inv view s"
  using assms by (auto simp: protocol_inv_def)

lemma protocol_invD:
  assumes "protocol_inv view s"
  shows "(k, w) \<in> set (sys_submitted s) \<Longrightarrow>
        \<exists>r. view (sys_store s) k = Some r \<and> cr_owner r = w \<and> cr_lifecycle r \<noteq> InFlight"
    and "sys_phase s w = Holding t \<Longrightarrow> ct_owner t = w \<and> w \<notin> snd ` set (sys_submitted s)"
    and "sys_phase s w = Submitted t \<Longrightarrow> ct_owner t = w"
    and "sys_phase s w = Fresh \<Longrightarrow> w \<notin> snd ` set (sys_submitted s)"
    and "view (sys_store s) k = Some r \<Longrightarrow> sys_phase s (cr_owner r) \<noteq> Fresh"
    and "view (sys_store s) k = Some r \<Longrightarrow> cr_lifecycle r = Completed v x \<Longrightarrow>
        sys_phase s (cr_owner r) = Stopped"
    and "distinct (map fst (sys_submitted s))"
  using assms by (auto simp: protocol_inv_def)

subsection \<open>The contract of a claim store\<close>

text \<open>
  The three effects an operation may have on the records a store shows through \<open>view\<close>: a grant
  replaces nothing but an in-flight record of the same request; the checkpoint and the commit
  touch only the record of the token's owner, and keep its fingerprint and owner.
\<close>

definition claim_granted ::
    "('s \<Rightarrow> string \<rightharpoonup> 'v claim_record) \<Rightarrow> 's \<Rightarrow> string \<Rightarrow> string \<Rightarrow> string \<Rightarrow> 's \<Rightarrow> bool" where
  "claim_granted view s k fp w s' \<longleftrightarrow>
     (\<forall>r. view s k = Some r \<longrightarrow> cr_fingerprint r = fp \<and> cr_lifecycle r = InFlight) \<and>
     (\<exists>r. view s' = (view s)(k \<mapsto> r) \<and> cr_fingerprint r = fp \<and> cr_owner r = w
        \<and> cr_lifecycle r = InFlight)"

definition claim_advanced ::
    "('s \<Rightarrow> string \<rightharpoonup> 'v claim_record) \<Rightarrow> 's \<Rightarrow> claim_token \<Rightarrow> ('v claim_lifecycle \<Rightarrow> bool) \<Rightarrow> 's \<Rightarrow> bool" where
  "claim_advanced view s t stage s' \<longleftrightarrow>
     (\<exists>r r'. view s (ct_key t) = Some r \<and> cr_owner r = ct_owner t
        \<and> view s' = (view s)(ct_key t \<mapsto> r') \<and> cr_fingerprint r' = cr_fingerprint r
        \<and> cr_owner r' = cr_owner r \<and> stage (cr_lifecycle r'))"

definition is_submitting :: "string \<Rightarrow> 'v claim_lifecycle \<Rightarrow> bool" where
  "is_submitting e l \<longleftrightarrow> l = Submitting e"

definition is_completed :: "'v \<Rightarrow> 'v claim_lifecycle \<Rightarrow> bool" where
  "is_completed v l \<longleftrightarrow> (\<exists>x. l = Completed v x)"

lemmas effect_defs = claim_granted_def claim_advanced_def is_submitting_def is_completed_def

text \<open>How each effect, and a stop, changes the invariant.\<close>

lemma inv_stop:
  assumes "protocol_inv view s" and "view st' = view (sys_store s)"
  shows "protocol_inv view (s\<lparr>sys_store := st', sys_phase := (sys_phase s)(w := Stopped)\<rparr>)"
  using assms by (fastforce simp: protocol_inv_def)

lemma inv_granted:
  assumes inv: "protocol_inv view s" and fresh: "sys_phase s w = Fresh"
    and grant: "claim_granted view (sys_store s) k fp w st'"
    and p: "p = Holding \<lparr>ct_key = k, ct_owner = w\<rparr> \<or> p = Stopped"
  shows "protocol_inv view (s\<lparr>sys_store := st', sys_phase := (sys_phase s)(w := p)\<rparr>)"
proof -
  obtain r where r: "view st' = (view (sys_store s))(k \<mapsto> r)" "cr_owner r = w" "cr_lifecycle r = InFlight"
    using grant by (auto simp: claim_granted_def)
  have "k \<notin> fst ` set (sys_submitted s)"
    using inv grant by (force simp: protocol_inv_def claim_granted_def)
  note k = this
  let ?s = "s\<lparr>sys_store := st', sys_phase := (sys_phase s)(w := p)\<rparr>"
  show ?thesis
  proof (rule protocol_invI)
    fix ka wa assume "(ka, wa) \<in> set (sys_submitted ?s)"
    then show "\<exists>r. view (sys_store ?s) ka = Some r \<and> cr_owner r = wa \<and> cr_lifecycle r \<noteq> InFlight"
      using protocol_invD(1) [OF inv, of ka wa] k r by force
  next
    fix wa ta assume "sys_phase ?s wa = Holding ta"
    then show "ct_owner ta = wa \<and> wa \<notin> snd ` set (sys_submitted ?s)"
      using protocol_invD(2) [OF inv, of wa ta] protocol_invD(4) [OF inv fresh] p
      by (auto split: if_splits)
  next
    fix wa ta assume "sys_phase ?s wa = Submitted ta"
    then show "ct_owner ta = wa"
      using protocol_invD(3) [OF inv, of wa ta] p by (auto split: if_splits)
  next
    fix wa assume "sys_phase ?s wa = Fresh"
    then show "wa \<notin> snd ` set (sys_submitted ?s)"
      using protocol_invD(4) [OF inv, of wa] p by (auto split: if_splits)
  next
    fix ka ra assume "view (sys_store ?s) ka = Some ra"
    then show "sys_phase ?s (cr_owner ra) \<noteq> Fresh"
      using protocol_invD(5) [OF inv, of ka ra] r p by (auto split: if_splits)
  next
    fix ka ra va xa assume "view (sys_store ?s) ka = Some ra" "cr_lifecycle ra = Completed va xa"
    then show "sys_phase ?s (cr_owner ra) = Stopped"
      using protocol_invD(6) [OF inv, of ka ra va xa] r fresh by (auto split: if_splits)
  next
    show "distinct (map fst (sys_submitted ?s))"
      using protocol_invD(7) [OF inv] by simp
  qed
qed

lemma submitted_owner:
  assumes inv: "protocol_inv view s" and "view (sys_store s) k = Some r"
    and "(k, w) \<in> set (sys_submitted s)"
  shows "cr_owner r = w"
  using protocol_invD(1) [OF inv assms(3)] assms(2) by auto

lemma inv_advanced:
  assumes inv: "protocol_inv view s"
    and hold: "sys_phase s w = Holding t \<or> sys_phase s w = Submitted t"
    and eff: "claim_advanced view (sys_store s) t stage st'" and "\<not> stage InFlight"
  shows "protocol_inv view (s\<lparr>sys_store := st', sys_phase := (sys_phase s)(w := Stopped)\<rparr>)"
    (is "protocol_inv view ?s")
proof -
  obtain r r' where r: "view (sys_store s) (ct_key t) = Some r" "cr_owner r = ct_owner t"
      "view st' = (view (sys_store s))(ct_key t \<mapsto> r')" "cr_owner r' = cr_owner r"
      "cr_lifecycle r' \<noteq> InFlight"
    using eff assms(4) unfolding claim_advanced_def by metis
  have w: "ct_owner t = w"
    using protocol_invD(2,3) [OF inv] hold by blast
  show ?thesis
  proof (rule protocol_invI)
    fix k wa assume "(k, wa) \<in> set (sys_submitted ?s)"
    then show "\<exists>r. view (sys_store ?s) k = Some r \<and> cr_owner r = wa \<and> cr_lifecycle r \<noteq> InFlight"
      using protocol_invD(1) [OF inv, of k wa] submitted_owner [OF inv r(1), of wa] r
      by (cases "k = ct_key t") auto
  next
    fix wa ta assume "sys_phase ?s wa = Holding ta"
    then show "ct_owner ta = wa \<and> wa \<notin> snd ` set (sys_submitted ?s)"
      using protocol_invD(2) [OF inv, of wa ta] by (auto split: if_splits)
  next
    fix wa ta assume "sys_phase ?s wa = Submitted ta"
    then show "ct_owner ta = wa"
      using protocol_invD(3) [OF inv, of wa ta] by (auto split: if_splits)
  next
    fix wa assume "sys_phase ?s wa = Fresh"
    then show "wa \<notin> snd ` set (sys_submitted ?s)"
      using protocol_invD(4) [OF inv, of wa] by (auto split: if_splits)
  next
    fix k ra assume "view (sys_store ?s) k = Some ra"
    then show "sys_phase ?s (cr_owner ra) \<noteq> Fresh"
      using protocol_invD(5) [OF inv, of k ra] r w by (auto split: if_splits)
  next
    fix k ra va xa assume "view (sys_store ?s) k = Some ra" "cr_lifecycle ra = Completed va xa"
    then show "sys_phase ?s (cr_owner ra) = Stopped"
      using protocol_invD(6) [OF inv, of k ra va xa] r w by (auto split: if_splits)
  next
    show "distinct (map fst (sys_submitted ?s))"
      using protocol_invD(7) [OF inv] by simp
  qed
qed

lemma inv_submit:
  assumes inv: "protocol_inv view s" and hold: "sys_phase s w = Holding t"
    and eff: "claim_advanced view (sys_store s) t (is_submitting e) st'"
  shows "protocol_inv view
     (s\<lparr>sys_store := st', sys_phase := (sys_phase s)(w := Submitted t),
        sys_submitted := (ct_key t, w) # sys_submitted s\<rparr>)" (is "protocol_inv view ?s")
proof -
  obtain r r' where r: "view (sys_store s) (ct_key t) = Some r" "cr_owner r = ct_owner t"
      "view st' = (view (sys_store s))(ct_key t \<mapsto> r')" "cr_owner r' = cr_owner r"
      "cr_lifecycle r' = Submitting e"
    using eff by (auto simp: effect_defs)
  have w: "ct_owner t = w" "w \<notin> snd ` set (sys_submitted s)"
    using protocol_invD(2) [OF inv hold] by simp_all
  have key: "ct_key t \<notin> fst ` set (sys_submitted s)"
    using submitted_owner [OF inv r(1)] r(2) w by force
  show ?thesis
  proof (rule protocol_invI)
    fix k wa assume "(k, wa) \<in> set (sys_submitted ?s)"
    then consider "k = ct_key t" "wa = w" | "(k, wa) \<in> set (sys_submitted s)" "k \<noteq> ct_key t"
      using key by (auto simp: image_iff)
    then show "\<exists>r. view (sys_store ?s) k = Some r \<and> cr_owner r = wa \<and> cr_lifecycle r \<noteq> InFlight"
      by cases (use r w protocol_invD(1) [OF inv] in auto)
  next
    fix wa ta assume "sys_phase ?s wa = Holding ta"
    then show "ct_owner ta = wa \<and> wa \<notin> snd ` set (sys_submitted ?s)"
      using protocol_invD(2) [OF inv, of wa ta] by (auto split: if_splits)
  next
    fix wa ta assume "sys_phase ?s wa = Submitted ta"
    then show "ct_owner ta = wa"
      using protocol_invD(3) [OF inv, of wa ta] w by (auto split: if_splits)
  next
    fix wa assume "sys_phase ?s wa = Fresh"
    then show "wa \<notin> snd ` set (sys_submitted ?s)"
      using protocol_invD(4) [OF inv, of wa] by (auto split: if_splits)
  next
    fix k ra assume "view (sys_store ?s) k = Some ra"
    then show "sys_phase ?s (cr_owner ra) \<noteq> Fresh"
      using protocol_invD(5) [OF inv, of k ra] r w by (auto split: if_splits)
  next
    fix k ra va xa assume "view (sys_store ?s) k = Some ra" "cr_lifecycle ra = Completed va xa"
    then show "sys_phase ?s (cr_owner ra) = Stopped"
      using protocol_invD(6) [OF inv, of k ra va xa] r hold by (auto split: if_splits)
  next
    show "distinct (map fst (sys_submitted ?s))"
      using protocol_invD(7) [OF inv] key by simp
  qed
qed

text \<open>
  What the trait promises, for stores in a consistent state (\<open>invar\<close>). A refused or failed
  operation may still have taken effect: over a network the reply can be lost after the store
  applied the operation, and the laws allow for it.
\<close>

locale claim_store =
  fixes claim :: "('s, 'v) claim_fn"
    and mark_submitting :: "'s mark_fn"
    and complete :: "('s, 'v) complete_fn"
    and view :: "'s \<Rightarrow> string \<rightharpoonup> 'v claim_record"
    and invar :: "'s \<Rightarrow> bool"
  assumes claim_invar: "invar s \<Longrightarrow> invar (snd (claim s now k fp w lease ttl))"
  and mark_invar: "invar s \<Longrightarrow> invar (snd (mark_submitting s now t e lease ttl))"
  and complete_invar: "invar s \<Longrightarrow> invar (snd (complete s t v x ttl))"
  and claim_Holding:
    "invar s \<Longrightarrow> claim s now k fp w lease ttl = (res, s') \<Longrightarrow> after_claim res = Holding t \<Longrightarrow>
       t = \<lparr>ct_key = k, ct_owner = w\<rparr> \<and> claim_granted view s k fp w s'"
  and claim_Stopped:
    "invar s \<Longrightarrow> claim s now k fp w lease ttl = (res, s') \<Longrightarrow> after_claim res = Stopped \<Longrightarrow>
       view s' = view s \<or> claim_granted view s k fp w s'"
  and claim_Completed:
    "invar s \<Longrightarrow> view s k = Some r \<Longrightarrow> cr_fingerprint r = fp \<Longrightarrow> cr_lifecycle r = Completed v x \<Longrightarrow>
       fst (claim s now k fp w lease ttl) = Ok out \<Longrightarrow> out = Replay v"
  and mark_Ok:
    "invar s \<Longrightarrow> mark_submitting s now t e lease ttl = (Ok (), s') \<Longrightarrow>
       claim_advanced view s t (is_submitting e) s'"
  and mark_Err:
    "invar s \<Longrightarrow> mark_submitting s now t e lease ttl = (Err er, s') \<Longrightarrow>
       view s' = view s \<or> claim_advanced view s t (is_submitting e) s'"
  and complete_Ok:
    "invar s \<Longrightarrow> complete s t v x ttl = (Ok (), s') \<Longrightarrow>
       claim_advanced view s t (is_completed v) s'"
  and complete_Err:
    "invar s \<Longrightarrow> complete s t v x ttl = (Err er, s') \<Longrightarrow>
       view s' = view s \<or> claim_advanced view s t (is_completed v) s'"
begin

definition reachable_inv :: "'s system \<Rightarrow> bool" where
  "reachable_inv s \<longleftrightarrow> invar (sys_store s) \<and> protocol_inv view s"

lemma complete_effect:
  "invar s \<Longrightarrow> complete s t v x ttl = (res, s') \<Longrightarrow>
     view s' = view s \<or> claim_advanced view s t (is_completed v) s'"
  using complete_Ok complete_Err by (cases res) auto

lemma step_inv:
  assumes "worker_step claim mark_submitting complete s s'" and "reachable_inv s"
  shows "reachable_inv s'"
  using assms
proof (induction rule: worker_step.induct)
  case (w_claim s w now key fp lease ttl res st')
  then have inv: "invar (sys_store s)" "protocol_inv view s" by (simp_all add: reachable_inv_def)
  with w_claim claim_invar [of "sys_store s" now key fp w lease ttl] have "invar st'" by simp
  moreover have "protocol_inv view (s\<lparr>sys_store := st', sys_phase := (sys_phase s)(w := after_claim res)\<rparr>)"
  proof (cases "after_claim res")
    case (Holding t)
    with claim_Holding [OF inv(1) w_claim(2)]
    have "t = \<lparr>ct_key = key, ct_owner = w\<rparr>" "claim_granted view (sys_store s) key fp w st'" by simp_all
    with inv_granted [OF inv(2) w_claim(1) this(2)] Holding show ?thesis by simp
  next
    case Stopped
    with claim_Stopped [OF inv(1) w_claim(2)] inv_granted [OF inv(2) w_claim(1), of key fp st' Stopped]
      inv_stop [OF inv(2)]
    show ?thesis by auto
  qed (cases res rule: after_claim.cases; simp)+
  ultimately show ?case by (simp add: reachable_inv_def)
next
  case (w_submit s w t now execution_ref lease ttl st')
  with mark_invar [of "sys_store s" now t execution_ref lease ttl]
  show ?case by (auto simp: reachable_inv_def intro: inv_submit mark_Ok)
next
  case (w_refused s w t now execution_ref lease ttl e st')
  then have inv: "invar (sys_store s)" "protocol_inv view s" by (simp_all add: reachable_inv_def)
  with w_refused mark_invar [of "sys_store s" now t execution_ref lease ttl]
    mark_Err [OF inv(1) w_refused(2)] inv_stop [OF inv(2)]
    inv_advanced [OF inv(2) disjI1 [OF w_refused(1)], of "is_submitting execution_ref"]
  show ?case by (auto simp: reachable_inv_def is_submitting_def)
next
  case (w_complete s w t response tx ttl res' st')
  then have inv: "invar (sys_store s)" "protocol_inv view s" by (simp_all add: reachable_inv_def)
  with w_complete complete_invar [of "sys_store s" t response tx ttl]
    complete_effect [OF inv(1) w_complete(2)] inv_stop [OF inv(2)]
    inv_advanced [OF inv(2) w_complete(1), of "is_completed response"]
  show ?case by (auto simp: reachable_inv_def is_completed_def)
next
  case (w_stop s w)
  then show ?case using inv_stop [of view s "sys_store s" w] by (simp add: reachable_inv_def)
qed

lemma run_inv:
  assumes "worker_run claim mark_submitting complete s s'" and "reachable_inv s"
  shows "reachable_inv s'"
  using assms by (induction rule: worker_run.induct) (auto intro: step_inv)

text \<open>One step keeps a committed response, whoever takes it.\<close>

lemma step_keeps_completed:
  assumes step: "worker_step claim mark_submitting complete s s'" and "reachable_inv s"
    and r: "view (sys_store s) k = Some r" "cr_lifecycle r = Completed v x"
  shows "view (sys_store s') k = Some r"
proof -
  have inv: "invar (sys_store s)" "protocol_inv view s" using assms(2) by (simp_all add: reachable_inv_def)
  have stopped: "sys_phase s (cr_owner r) = Stopped"
    using protocol_invD(6) [OF inv(2) r] .
  have granted: "view st k = Some r" if "claim_granted view (sys_store s) key fp w st" for key fp w st
    using that r by (auto simp: claim_granted_def)
  have advanced: "view st k = Some r"
    if "claim_advanced view (sys_store s) t stage st" "sys_phase s w = Holding t \<or> sys_phase s w = Submitted t"
    for t stage w st
  proof -
    have "ct_owner t = w" using that(2) protocol_invD(2,3) [OF inv(2)] by blast
    with that r stopped show ?thesis by (auto simp: claim_advanced_def)
  qed
  from step show ?thesis
  proof cases
    case (w_claim w now key fp lease ttl res st')
    then show ?thesis
      using r claim_Holding [OF inv(1) w_claim(3)] claim_Stopped [OF inv(1) w_claim(3)] granted [of key fp w st']
      by (cases res rule: after_claim.cases) auto
  next
    case (w_submit w t now execution_ref lease ttl st')
    then show ?thesis using mark_Ok [OF inv(1) w_submit(3)] advanced [of t _ st' w] by simp
  next
    case (w_refused w t now execution_ref lease ttl e st')
    then show ?thesis using r mark_Err [OF inv(1) w_refused(3)] advanced [of t _ st' w] by auto
  next
    case (w_complete w t response tx ttl res' st')
    then show ?thesis using r complete_effect [OF inv(1) w_complete(3)] advanced [of t _ st' w] by auto
  next
    case (w_stop w)
    then show ?thesis using r by simp
  qed
qed

lemma run_keeps_completed:
  assumes "worker_run claim mark_submitting complete s s'" and "reachable_inv s"
    and "view (sys_store s) k = Some r" and "cr_lifecycle r = Completed v x"
  shows "view (sys_store s') k = Some r"
  using assms
proof (induction rule: worker_run.induct)
  case (run_step s t u)
  then show ?case by (blast intro: run_inv step_keeps_completed)
qed simp

lemma initial_inv: "invar st \<Longrightarrow> view st = Map.empty \<Longrightarrow> reachable_inv (initial_system st)"
  by (simp add: reachable_inv_def protocol_inv_def initial_system_def)

lemma at_most_one_submission:
  assumes "worker_run claim mark_submitting complete (initial_system st) s"
    and "invar st" and "view st = Map.empty"
  shows "distinct (map fst (sys_submitted s))"
  using run_inv [OF assms(1) initial_inv [OF assms(2,3)]] by (simp add: reachable_inv_def protocol_inv_def)

text \<open>
  After a worker's successful commit, its record stays, and a claim of the same request that
  the store answers is answered with the response.
\<close>

lemma commit_keeps_record:
  assumes run: "worker_run claim mark_submitting complete (initial_system st0) s"
    and st0: "invar st0" "view st0 = Map.empty"
    and hold: "sys_phase s w = Holding t \<or> sys_phase s w = Submitted t"
    and commit: "complete (sys_store s) t response tx ttl = (Ok (), st)"
    and later: "worker_run claim mark_submitting complete
           (s\<lparr>sys_store := st, sys_phase := (sys_phase s)(w := Stopped)\<rparr>) s'"
  obtains r r' x where "view (sys_store s) (ct_key t) = Some r" "view (sys_store s') (ct_key t) = Some r'"
    "cr_fingerprint r' = cr_fingerprint r" "cr_lifecycle r' = Completed response x" "invar (sys_store s')"
proof -
  have inv: "reachable_inv s" using run_inv [OF run initial_inv [OF st0]] .
  then have "invar (sys_store s)" by (simp add: reachable_inv_def)
  from complete_Ok [OF this commit] obtain r r' x
    where r: "view (sys_store s) (ct_key t) = Some r" "view st = (view (sys_store s))(ct_key t \<mapsto> r')"
      "cr_fingerprint r' = cr_fingerprint r" "cr_lifecycle r' = Completed response x"
    by (auto simp: effect_defs)
  have inv': "reachable_inv (s\<lparr>sys_store := st, sys_phase := (sys_phase s)(w := Stopped)\<rparr>)"
    by (rule step_inv [OF worker_step.w_complete inv]) (rule hold, rule commit)
  show thesis
    using run_keeps_completed [OF later inv', of "ct_key t" r' response x] run_inv [OF later inv'] r that
    by (simp add: reachable_inv_def)
qed

lemma committed_is_replayed:
  assumes "worker_run claim mark_submitting complete (initial_system st0) s"
    and "invar st0" "view st0 = Map.empty"
    and "sys_phase s w = Holding t \<or> sys_phase s w = Submitted t"
    and "complete (sys_store s) t response tx ttl = (Ok (), st)"
    and "worker_run claim mark_submitting complete
           (s\<lparr>sys_store := st, sys_phase := (sys_phase s)(w := Stopped)\<rparr>) s'"
  shows "\<exists>r. view (sys_store s) (ct_key t) = Some r \<and>
     (\<forall>out. fst (claim (sys_store s') now (ct_key t) (cr_fingerprint r) owner lease ttl') = Ok out
        \<longrightarrow> out = Replay response)"
  using commit_keeps_record [OF assms] claim_Completed by metis

end

subsection \<open>The in-memory store satisfies the contract\<close>

text \<open>In process, an operation that is refused leaves the records alone.\<close>

lemmas memory_op_defs = memory_claim_def memory_mark_submitting_def memory_complete_def new_in_flight_def

interpretation memory: claim_store memory_claim memory_mark_submitting memory_complete cs_records
    "\<lambda>_. True"
proof unfold_locales
qed (auto simp: memory_op_defs effect_defs split: option.splits if_splits claim_lifecycle.splits)

lemma memory_new_view [simp]: "cs_records memory_new = Map.empty"
  by (simp add: memory_new_def)

subsection \<open>Properties\<close>


text \<open>A concrete race: \<open>b\<close> takes over the expired lease of \<open>a\<close>, submits, and \<open>a\<close> is refused.\<close>

definition takeover_race :: "unit claim_state system" where
  "takeover_race = run_schedule memory_claim memory_mark_submitting memory_complete
     [Do_claim ''a'' 0 ''k'' ''fp'' 10 100, Do_claim ''b'' 50 ''k'' ''fp'' 10 100,
      Do_submit ''b'' 51 ''tx'' 10 100, Do_submit ''a'' 52 ''tx2'' 10 100,
      Do_claim ''c'' 99 ''k'' ''fp'' 10 100, Do_submit ''c'' 99 ''tx3'' 10 100]
     (initial_system memory_new)"

lemma takeover_race_submits: "sys_submitted takeover_race = [(''k'', ''b'')]"
  by code_simp

lemma takeover_race_runs:
  "worker_run memory_claim memory_mark_submitting memory_complete (initial_system memory_new) takeover_race"
  unfolding takeover_race_def by (rule run_schedule_from)


text \<open>
  Once a response is committed for a key, every later claim of the key with the same
  request fingerprint, after any further steps of any workers, replays that very response and
  is granted no execution.\<close>

lemma committed_response_replayed:
  assumes "worker_run memory_claim memory_mark_submitting memory_complete (initial_system memory_new) s"
    and "sys_phase s w = Holding t \<or> sys_phase s w = Submitted t"
    and "memory_complete (sys_store s) t response tx ttl = (Ok (), st)"
    and "worker_run memory_claim memory_mark_submitting memory_complete
           (s\<lparr>sys_store := st, sys_phase := (sys_phase s)(w := Stopped)\<rparr>) s'"
  shows "\<exists>r. cs_records (sys_store s) (ct_key t) = Some r \<and>
     fst (memory_claim (sys_store s') now (ct_key t) (cr_fingerprint r) owner lease ttl') =
       Ok (Replay response)"
  by (rule memory.commit_keeps_record [OF assms(1) _ _ assms(2-4)]) (auto simp: memory_claim_def)

end
