(* ===== verification/Engine.thy ===== *)
theory Engine
  imports Router Retry Stores Fingerprint Claim_Protocol
begin

text \<open>
  The payment engine, \<^verbatim>\<open>src/engine/mod.rs\<close>: plain and idempotent initiation, lookup,
  simulation, fees and health. The engine holds a payment store, a claim store, adapters on a
  shared world and the metrics counters; fresh ids, clock readings, floating-point rounding, the
  JSON image of a payment and the request fingerprint come from an environment. The claim store is
  given by its operations, so that the results hold for every store that satisfies the contract of
  \<open>Claim_Protocol\<close>, and each idempotent initiation is shown to be a run of one worker of that
  protocol.

  At this commit \<open>initiate\<close> passes an unbound variable on and \<open>run_initiation\<close> declares a
  parameter under another name than it uses; the model follows the evident intent of the callers
  and of \<open>Payment\<close>, a parameter \<open>asset\<close> of type \<open>AssetId\<close>.
\<close>

subsection \<open>State and environment\<close>

definition CLAIM_LEASE :: duration where
  "CLAIM_LEASE = from_secs 30"

record ('c, 'w) engine_state =
  en_store :: payment_store
  en_claims :: 'c
  en_world :: 'w
  en_counters :: counters
  en_tick :: nat

text \<open>Every reading of a clock and every fresh id is a function of a counter of such readings.\<close>

record 'v engine_env =
  ev_uuid :: "nat \<Rightarrow> string"
  ev_now_utc :: "nat \<Rightarrow> string"
  ev_now_ms :: "nat \<Rightarrow> i64"
  ev_rnd :: "rat \<Rightarrow> rat"
  ev_to_value :: "payment \<Rightarrow> 'v"
  ev_fingerprint :: "json \<Rightarrow> string"

record ('c, 'v, 'w) engine =
  eng_adapters :: "'w adapter list"
  eng_retry :: retry_config
  eng_claim :: "('c, 'v) claim_fn"
  eng_mark :: "'c mark_fn"
  eng_complete :: "('c, 'v) complete_fn"
  eng_ready :: "'c \<Rightarrow> bool"

definition engine_new :: "'c \<Rightarrow> 'w \<Rightarrow> ('c, 'w) engine_state" where
  "engine_new claims w =
     \<lparr>en_store = payments_new, en_claims = claims, en_world = w, en_counters = no_counters, en_tick = 0\<rparr>"

definition tick :: "('c, 'w) engine_state \<Rightarrow> ('c, 'w) engine_state" where
  "tick st = st\<lparr>en_tick := Suc (en_tick st)\<rparr>"

definition SUBMISSION_ACCEPTED :: string where
  "SUBMISSION_ACCEPTED = ''nodus_submission_accepted_total''"

definition SUBMISSION_FAILED :: string where
  "SUBMISSION_FAILED = ''nodus_submission_failed_total''"

subsection \<open>Initiation\<close>

definition validate_request :: "string \<Rightarrow> string \<Rightarrow> u64 \<Rightarrow> asset_id \<Rightarrow> engine_error + unit" where
  "validate_request sender recipient amount asset =
     bind_res (stellar_address sender) (\<lambda>_.
     bind_res (stellar_address recipient) (\<lambda>_.
     bind_res (valid_amount amount) (\<lambda>_. valid_asset_id asset)))"

text \<open>The payment without a route, recorded as failed.\<close>

definition unrouted ::
    "'v engine_env \<Rightarrow> string \<Rightarrow> string \<Rightarrow> u64 \<Rightarrow> asset_id \<Rightarrow> urgency \<Rightarrow> engine_error \<Rightarrow> ('c, 'w) engine_state
       \<Rightarrow> payment \<times> ('c, 'w) engine_state" where
  "unrouted env sender recipient amount asset u e st =
     (let now = ev_now_utc env (en_tick st); st1 = tick st;
          i = ev_uuid env (en_tick st1); st2 = tick st1;
          p = \<lparr>pm_id = i, pm_sender = sender, pm_recipient = recipient, pm_amount = amount,
               pm_asset = asset, pm_status = Failed, pm_tx_hash = None, pm_fee_stroops = 0,
               pm_urgency = u, pm_error = Some (error_to_string e), pm_created_at = now,
               pm_updated_at = now\<rparr> in
      (p, st2\<lparr>en_store := payments_insert p (en_store st2)\<rparr>))"

text \<open>The payment with a route, recorded as pending.\<close>

definition pending ::
    "'v engine_env \<Rightarrow> string \<Rightarrow> string \<Rightarrow> u64 \<Rightarrow> asset_id \<Rightarrow> urgency \<Rightarrow> u64 \<Rightarrow> ('c, 'w) engine_state
       \<Rightarrow> payment \<times> ('c, 'w) engine_state" where
  "pending env sender recipient amount asset u fee st =
     (let now = ev_now_utc env (en_tick st); st1 = tick st;
          i = ev_uuid env (en_tick st1); st2 = tick st1;
          p = \<lparr>pm_id = i, pm_sender = sender, pm_recipient = recipient, pm_amount = amount,
               pm_asset = asset, pm_status = Pending, pm_tx_hash = None, pm_fee_stroops = fee,
               pm_urgency = u, pm_error = None, pm_created_at = now, pm_updated_at = now\<rparr> in
      (p, st2\<lparr>en_store := payments_insert p (en_store st2)\<rparr>))"

text \<open>The submission with retries, and the record of its result.\<close>

definition submit_phase ::
    "'v engine_env \<Rightarrow> retry_config \<Rightarrow> 'w adapter \<Rightarrow> payment \<Rightarrow> ('c, 'w) engine_state
       \<Rightarrow> (engine_error + payment) outcome \<times> ('c, 'w) engine_state" where
  "submit_phase env cfg adapter p st =
     (case retry cfg (ad_submit adapter p) (en_world st) of
        (Panic, _, w) \<Rightarrow> (Panic, st\<lparr>en_world := w\<rparr>)
      | (Returns r, _, w) \<Rightarrow>
          let st1 = st\<lparr>en_world := w\<rparr>;
              now = ev_now_utc env (en_tick st1);
              st2 = tick (st1\<lparr>en_counters := counter (if is_ok r then SUBMISSION_ACCEPTED
                                                      else SUBMISSION_FAILED) (en_counters st1)\<rparr>);
              (res, store) = (case r of
                 Ok tx_hash \<Rightarrow> set_confirmed now (pm_id p) tx_hash (en_store st2)
               | Err e \<Rightarrow> set_failed now (pm_id p) (error_to_string e) (en_store st2));
              st3 = st2\<lparr>en_store := store\<rparr> in
          (Returns (bind_res res (\<lambda>_. payments_get (en_store st3) (pm_id p))), st3))"

text \<open>
  The whole initiation. The checkpoint, when given, is the claim token and the time to live of its
  record: the claim is advanced before the submission, and a refusal ends the initiation.
\<close>

definition run_initiation ::
    "'v engine_env \<Rightarrow> ('c, 'v, 'w) engine \<Rightarrow> string \<Rightarrow> string \<Rightarrow> u64 \<Rightarrow> asset_id \<Rightarrow> urgency
       \<Rightarrow> (claim_token \<times> duration) option \<Rightarrow> ('c, 'w) engine_state
       \<Rightarrow> (engine_error + payment) outcome \<times> ('c, 'w) engine_state" where
  "run_initiation env eng sender recipient amount asset u checkpoint st =
     (case validate_request sender recipient amount asset of
        Err e \<Rightarrow> (Returns (Err e), st)
      | Ok _ \<Rightarrow>
          (case select (ev_rnd env) (eng_adapters eng) u (en_world st) of
             (Err e, w) \<Rightarrow>
               (case unrouted env sender recipient amount asset u e (st\<lparr>en_world := w\<rparr>) of
                  (p, st1) \<Rightarrow> (Returns (Ok p), st1))
           | (Ok route, w) \<Rightarrow>
               (case pending env sender recipient amount asset u (ro_fee_stroops route) (st\<lparr>en_world := w\<rparr>) of
                  (p, st1) \<Rightarrow>
                    (case set_status (ev_now_utc env (en_tick st1)) (pm_id p) Processing (en_store st1) of
                       (Err e, store) \<Rightarrow> (Returns (Err e), (tick st1)\<lparr>en_store := store\<rparr>)
                     | (Ok _, store) \<Rightarrow>
                         let st2 = (tick st1)\<lparr>en_store := store\<rparr> in
                         (case checkpoint of
                            None \<Rightarrow> submit_phase env (eng_retry eng) (ro_adapter route) p st2
                          | Some (token, ttl) \<Rightarrow>
                              (case eng_mark eng (en_claims st2) (ev_now_ms env (en_tick st2)) token (pm_id p)
                                      CLAIM_LEASE ttl of
                                 (Err e, c) \<Rightarrow> (Returns (Err e), (tick st2)\<lparr>en_claims := c\<rparr>)
                               | (Ok _, c) \<Rightarrow>
                                   submit_phase env (eng_retry eng) (ro_adapter route) p
                                     ((tick st2)\<lparr>en_claims := c\<rparr>)))))))"

definition initiate ::
    "'v engine_env \<Rightarrow> ('c, 'v, 'w) engine \<Rightarrow> string \<Rightarrow> string \<Rightarrow> u64 \<Rightarrow> asset_id \<Rightarrow> urgency
       \<Rightarrow> ('c, 'w) engine_state \<Rightarrow> (engine_error + payment) outcome \<times> ('c, 'w) engine_state" where
  "initiate env eng sender recipient amount asset u st =
     run_initiation env eng sender recipient amount asset u None st"

subsection \<open>Idempotent initiation\<close>

record idempotent_request =
  ir_namespace :: idempotency_namespace
  ir_client_key :: string
  ir_request_body :: json
  ir_ttl :: duration
  ir_sender :: string
  ir_recipient :: string
  ir_amount :: u64
  ir_asset :: asset_id
  ir_urgency :: urgency

datatype 'v idempotent_initiation = Executed payment | Replayed 'v

definition is_terminal :: "payment_status \<Rightarrow> bool" where
  "is_terminal s = (s = Confirmed \<or> s = Failed)"

definition in_progress_msg :: string where
  "in_progress_msg = ''a request with this idempotency key is already in progress''"

definition retry_shortly_msg :: string where
  "retry_shortly_msg = ''a submission for this idempotency key is in progress; retry shortly''"

text \<open>The execution under a granted claim: the initiation, then the commit of its result.\<close>

definition execute_claimed ::
    "'v engine_env \<Rightarrow> ('c, 'v, 'w) engine \<Rightarrow> idempotent_request \<Rightarrow> claim_token \<Rightarrow> ('c, 'w) engine_state
       \<Rightarrow> (engine_error + 'v idempotent_initiation) outcome \<times> ('c, 'w) engine_state" where
  "execute_claimed env eng req token st =
     (case run_initiation env eng (ir_sender req) (ir_recipient req) (ir_amount req) (ir_asset req)
             (ir_urgency req) (Some (token, ir_ttl req)) st of
        (Panic, st1) \<Rightarrow> (Panic, st1)
      | (Returns (Err e), st1) \<Rightarrow> (Returns (Err e), st1)
      | (Returns (Ok p), st1) \<Rightarrow>
          (case eng_complete eng (en_claims st1) token (ev_to_value env p) (pm_tx_hash p) (ir_ttl req) of
             (Err e, c) \<Rightarrow> (Returns (Err e), st1\<lparr>en_claims := c\<rparr>)
           | (Ok _, c) \<Rightarrow> (Returns (Ok (Executed p)), st1\<lparr>en_claims := c\<rparr>)))"

definition initiate_idempotent ::
    "'v engine_env \<Rightarrow> ('c, 'v, 'w) engine \<Rightarrow> idempotent_request \<Rightarrow> ('c, 'w) engine_state
       \<Rightarrow> (engine_error + 'v idempotent_initiation) outcome \<times> ('c, 'w) engine_state" where
  "initiate_idempotent env eng req st =
     (let key = namespace_key (ir_namespace req) (ir_client_key req);
          fingerprint = ev_fingerprint env (ir_request_body req);
          owner = ev_uuid env (en_tick st); st1 = tick st in
      case eng_claim eng (en_claims st1) (ev_now_ms env (en_tick st1)) key fingerprint owner CLAIM_LEASE (ir_ttl req) of
        (res, c) \<Rightarrow>
          let st2 = (tick st1)\<lparr>en_claims := c\<rparr> in
          (case res of
             Err e \<Rightarrow> (Returns (Err e), st2)
           | Ok (Replay response) \<Rightarrow> (Returns (Ok (Replayed response)), st2)
           | Ok Outcome_InFlight \<Rightarrow> (Returns (Err (Conflict in_progress_msg)), st2)
           | Ok (AwaitingResult execution_ref) \<Rightarrow>
               (case payments_get (en_store st2) execution_ref of
                  Ok p \<Rightarrow>
                    if is_terminal (pm_status p) then (Returns (Ok (Replayed (ev_to_value env p))), st2)
                    else (Returns (Err (PreconditionFailed retry_shortly_msg)), st2)
                | Err _ \<Rightarrow> (Returns (Err (PreconditionFailed retry_shortly_msg)), st2))
           | Ok (Claimed token) \<Rightarrow> execute_claimed env eng req token st2
           | Ok (TookOver token) \<Rightarrow> execute_claimed env eng req token st2))"

subsection \<open>Reading operations\<close>

definition engine_get :: "('c, 'w) engine_state \<Rightarrow> string \<Rightarrow> engine_error + payment" where
  "engine_get st i = payments_get (en_store st) i"

definition engine_list :: "('c, 'w) engine_state \<Rightarrow> payment list" where
  "engine_list st = payments_list (en_store st)"

record simulation_result =
  sr_sender :: string
  sr_recipient :: string
  sr_amount :: u64
  sr_asset :: asset_id
  sr_fee_stroops :: u64
  sr_chain :: string
  sr_estimated_confirmation_seconds :: u32

definition simulate ::
    "'v engine_env \<Rightarrow> ('c, 'v, 'w) engine \<Rightarrow> string \<Rightarrow> string \<Rightarrow> u64 \<Rightarrow> asset_id \<Rightarrow> urgency
       \<Rightarrow> ('c, 'w) engine_state \<Rightarrow> (engine_error + simulation_result) \<times> ('c, 'w) engine_state" where
  "simulate env eng sender recipient amount asset u st =
     (case bind_res (valid_amount amount) (\<lambda>_. valid_asset_id asset) of
        Err e \<Rightarrow> (Err e, st)
      | Ok _ \<Rightarrow>
          (case select (ev_rnd env) (eng_adapters eng) u (en_world st) of
             (Err e, w) \<Rightarrow> (Err e, st\<lparr>en_world := w\<rparr>)
           | (Ok route, w) \<Rightarrow>
               (Ok \<lparr>sr_sender = sender, sr_recipient = recipient, sr_amount = amount, sr_asset = asset,
                    sr_fee_stroops = ro_fee_stroops route, sr_chain = ad_name (ro_adapter route),
                    sr_estimated_confirmation_seconds = ro_estimated_seconds route\<rparr>,
                st\<lparr>en_world := w\<rparr>)))"

definition current_fees :: "('c, 'v, 'w) engine \<Rightarrow> ('c, 'w) engine_state \<Rightarrow> chain_fees list \<times> ('c, 'w) engine_state" where
  "current_fees eng st =
     (case all_fees (eng_adapters eng) (en_world st) of (fees, w) \<Rightarrow> (fees, st\<lparr>en_world := w\<rparr>))"

record health_status =
  hs_status :: string
  hs_chains :: "string list"
  hs_payments_in_store :: nat
  hs_provider_ready :: bool
  hs_durable_store_ready :: bool

definition health :: "('c, 'v, 'w) engine \<Rightarrow> ('c, 'w) engine_state \<Rightarrow> health_status \<times> ('c, 'w) engine_state" where
  "health eng st =
     (case all_fees (eng_adapters eng) (en_world st) of
        (fees, w) \<Rightarrow>
          let any_up = list_ex cf_available fees; durable = eng_ready eng (en_claims st) in
          (\<lparr>hs_status = (if any_up \<and> durable then ''ready'' else ''not_ready''),
            hs_chains = map cf_chain fees, hs_payments_in_store = payments_len (en_store st),
            hs_provider_ready = any_up, hs_durable_store_ready = durable\<rparr>, st\<lparr>en_world := w\<rparr>))"

subsection \<open>Lemmas: the outcome of an initiation\<close>

text \<open>What a submission result makes of the stored payment.\<close>

definition finished :: "payment \<Rightarrow> engine_error + string \<Rightarrow> string \<Rightarrow> payment" where
  "finished q r now =
     (case r of
        Ok h \<Rightarrow> q\<lparr>pm_status := Confirmed, pm_tx_hash := Some h, pm_updated_at := now\<rparr>
      | Err e \<Rightarrow> q\<lparr>pm_status := Failed, pm_error := Some (error_to_string e), pm_updated_at := now\<rparr>)"

definition submission_counter :: "engine_error + 'a \<Rightarrow> string" where
  "submission_counter r = (if is_ok r then SUBMISSION_ACCEPTED else SUBMISSION_FAILED)"

lemma retry_returns: "max_attempts cfg \<noteq> 0 \<Longrightarrow> \<exists>r ds w'. retry cfg f w = (Returns r, ds, w')"
  using retry_from_spec [of "unat (max_attempts cfg)" f w cfg "initial_delay_ms cfg"]
  by (auto simp: retry_def word_nonzero_unat)

lemma submit_phase_spec:
  assumes stored: "payments_get (en_store st) (pm_id p) = Ok q" and "max_attempts cfg \<noteq> 0"
  shows "\<exists>r now st'. submit_phase env cfg adapter p st = (Returns (Ok (finished q r now)), st') \<and>
     (\<forall>j. payments_get (en_store st') j =
        (if j = pm_id p then Ok (finished q r now) else payments_get (en_store st) j)) \<and>
     en_claims st' = en_claims st \<and> en_counters st' = counter (submission_counter r) (en_counters st)"
proof -
  obtain r ds w where retry: "retry cfg (ad_submit adapter p) (en_world st) = (Returns r, ds, w)"
    using retry_returns [OF assms(2), of "ad_submit adapter p" "en_world st"] by blast
  define now where "now = ev_now_utc env (en_tick st)"
  define f where "f = (\<lambda>q. finished q r now)"
  have upd: "(case r of Ok h \<Rightarrow> set_confirmed now (pm_id p) h (en_store st)
       | Err e \<Rightarrow> set_failed now (pm_id p) (error_to_string e) (en_store st)) = payments_modify (pm_id p) f (en_store st)"
    by (cases r) (simp_all add: store_ops_modify f_def finished_def)
  define store where "store = snd (payments_modify (pm_id p) f (en_store st))"
  have store: "payments_modify (pm_id p) f (en_store st) = (Ok (), store)"
    "\<forall>j. payments_get store j = (if j = pm_id p then Ok (f q) else payments_get (en_store st) j)"
    using payments.modify_present [OF stored, of f] by (simp_all add: store_def prod_eq_iff)
  define st' where "st' = st\<lparr>en_world := w, en_counters := counter (submission_counter r) (en_counters st),
      en_tick := Suc (en_tick st), en_store := store\<rparr>"
  have "submit_phase env cfg adapter p st = (Returns (Ok (f q)), st')"
    using retry store upd
    by (cases r) (simp_all add: submit_phase_def tick_def Let_def submission_counter_def now_def st'_def)
  moreover have "en_store st' = store" "en_claims st' = en_claims st"
    "en_counters st' = counter (submission_counter r) (en_counters st)"
    by (simp_all add: st'_def)
  ultimately show ?thesis using store(2) unfolding f_def by blast
qed

lemma pending_spec:
  "pending env sender recipient amount asset u fee st = (p, st1) \<Longrightarrow>
     pm_status p = Pending \<and> pm_tx_hash p = None \<and> pm_error p = None \<and> pm_sender p = sender \<and>
     pm_recipient p = recipient \<and> pm_amount p = amount \<and> pm_asset p = asset \<and> pm_urgency p = u \<and>
     pm_fee_stroops p = fee \<and> en_claims st1 = en_claims st \<and> en_counters st1 = en_counters st \<and>
     en_store st1 = payments_insert p (en_store st)"
  by (auto simp: pending_def Let_def tick_def)

lemma unrouted_spec:
  "unrouted env sender recipient amount asset u e st = (p, st1) \<Longrightarrow>
     pm_status p = Failed \<and> pm_tx_hash p = None \<and> pm_error p \<noteq> None \<and> pm_sender p = sender \<and>
     pm_recipient p = recipient \<and> pm_amount p = amount \<and> pm_asset p = asset \<and> pm_urgency p = u \<and>
     en_claims st1 = en_claims st \<and> en_counters st1 = en_counters st \<and>
     en_store st1 = payments_insert p (en_store st)"
  by (auto simp: unrouted_def Let_def tick_def)

text \<open>A payment as requested, in a final state that says how it ended.\<close>

definition settled :: "string \<Rightarrow> string \<Rightarrow> u64 \<Rightarrow> asset_id \<Rightarrow> urgency \<Rightarrow> payment \<Rightarrow> bool" where
  "settled sender recipient amount asset u p \<longleftrightarrow>
     pm_sender p = sender \<and> pm_recipient p = recipient \<and> pm_amount p = amount \<and> pm_asset p = asset \<and>
     pm_urgency p = u \<and>
     (pm_status p = Confirmed \<and> pm_tx_hash p \<noteq> None \<and> pm_error p = None \<or>
      pm_status p = Failed \<and> pm_tx_hash p = None \<and> pm_error p \<noteq> None)"

text \<open>The four ways an initiation of a valid request goes: no route, a refused checkpoint, a submission without or with a checkpoint.\<close>

definition stored_and_settled ::
    "string \<Rightarrow> string \<Rightarrow> u64 \<Rightarrow> asset_id \<Rightarrow> urgency \<Rightarrow> payment \<Rightarrow> ('c, 'w) engine_state \<Rightarrow> ('c, 'w) engine_state \<Rightarrow> bool" where
  "stored_and_settled sender recipient amount asset u p st st' \<longleftrightarrow>
     settled sender recipient amount asset u p \<and>
     (\<forall>j. payments_get (en_store st') j = (if j = pm_id p then Ok p else payments_get (en_store st) j))"

lemma run_initiation_spec:
  fixes st :: "('c, 'w) engine_state"
  assumes valid: "validate_request sender recipient amount asset = Ok ()"
    and attempts: "max_attempts (eng_retry eng) \<noteq> 0"
  shows "(\<exists>p st'. run_initiation env eng sender recipient amount asset u cp st = (Returns (Ok p), st') \<and>
        stored_and_settled sender recipient amount asset u p st st' \<and>
        en_claims st' = en_claims st \<and> en_counters st' = en_counters st) \<or>
     (\<exists>token ttl now i e st'. cp = Some (token, ttl) \<and>
        run_initiation env eng sender recipient amount asset u cp st = (Returns (Err e), st') \<and>
        eng_mark eng (en_claims st) now token i CLAIM_LEASE ttl = (Err e, en_claims st') \<and>
        en_counters st' = en_counters st) \<or>
     (\<exists>p r st'. run_initiation env eng sender recipient amount asset u cp st = (Returns (Ok p), st') \<and>
        stored_and_settled sender recipient amount asset u p st st' \<and>
        en_counters st' = counter (submission_counter (r :: engine_error + string)) (en_counters st) \<and>
        (case cp of None \<Rightarrow> en_claims st' = en_claims st
         | Some (token, ttl) \<Rightarrow> \<exists>now. eng_mark eng (en_claims st) now token (pm_id p) CLAIM_LEASE ttl = (Ok (), en_claims st')))"
proof -
  obtain sel w where sel: "select (ev_rnd env) (eng_adapters eng) u (en_world st) = (sel, w)"
    by (cases "select (ev_rnd env) (eng_adapters eng) u (en_world st)")
  show ?thesis
  proof (cases sel)
    case (Inl e)
    obtain p st1 where un: "unrouted env sender recipient amount asset u e (st\<lparr>en_world := w\<rparr>) = (p, st1)"
      by (cases "unrouted env sender recipient amount asset u e (st\<lparr>en_world := w\<rparr>)")
    have "run_initiation env eng sender recipient amount asset u cp st = (Returns (Ok p), st1)"
      using valid sel Inl un by (simp add: run_initiation_def)
    with unrouted_spec [OF un] show ?thesis
      by (auto simp: stored_and_settled_def settled_def payments_get_insert)
  next
    case (Inr route)
    obtain p st1 where pend: "pending env sender recipient amount asset u (ro_fee_stroops route) (st\<lparr>en_world := w\<rparr>) = (p, st1)"
      by (cases "pending env sender recipient amount asset u (ro_fee_stroops route) (st\<lparr>en_world := w\<rparr>)")
    note ps = pending_spec [OF pend]
    define now where "now = ev_now_utc env (en_tick st1)"
    define q where "q = p\<lparr>pm_status := Processing, pm_updated_at := now\<rparr>"
    have got: "payments_get (en_store st1) (pm_id p) = Ok p" using ps by (simp add: payments_get_insert)
    define store where "store = snd (set_status now (pm_id p) Processing (en_store st1))"
    have store: "set_status now (pm_id p) Processing (en_store st1) = (Ok (), store)"
      "\<forall>j. payments_get store j = (if j = pm_id p then Ok q else payments_get (en_store st) j)"
      using payments.modify_present [OF got] ps
      by (simp_all add: store_ops_modify store_def prod_eq_iff q_def payments_get_insert)
    define st2 where "st2 = (tick st1)\<lparr>en_store := store\<rparr>"
    have st2: "en_claims st2 = en_claims st" "en_counters st2 = en_counters st"
      using ps by (simp_all add: st2_def tick_def)
    have run: "run_initiation env eng sender recipient amount asset u cp st =
        (case cp of
           None \<Rightarrow> submit_phase env (eng_retry eng) (ro_adapter route) p st2
         | Some (token, ttl) \<Rightarrow>
             (case eng_mark eng (en_claims st2) (ev_now_ms env (en_tick st2)) token (pm_id p) CLAIM_LEASE ttl of
                (Err e, c) \<Rightarrow> (Returns (Err e), (tick st2)\<lparr>en_claims := c\<rparr>)
              | (Ok _, c) \<Rightarrow> submit_phase env (eng_retry eng) (ro_adapter route) p ((tick st2)\<lparr>en_claims := c\<rparr>)))"
      using valid sel Inr pend store(1) unfolding st2_def now_def by (simp add: run_initiation_def Let_def)
    have settle: "stored_and_settled sender recipient amount asset u (finished q r now') st st'"
      if "\<forall>j. payments_get (en_store st') j = (if j = pm_id p then Ok (finished q r now') else payments_get store j)"
      for r now' and st' :: "('c, 'w) engine_state"
      using that store(2) ps by (cases r) (auto simp: stored_and_settled_def settled_def finished_def q_def)
    have submitted: "\<exists>r now' st'. submit_phase env (eng_retry eng) (ro_adapter route) p st3 =
          (Returns (Ok (finished q r now')), st') \<and>
        stored_and_settled sender recipient amount asset u (finished q r now') st st' \<and>
        en_claims st' = en_claims st3 \<and> en_counters st' = counter (submission_counter r) (en_counters st3) \<and>
        pm_id (finished q r now') = pm_id p"
      if en: "en_store st3 = store" for st3 :: "('c, 'w) engine_state"
    proof -
      have "payments_get (en_store st3) (pm_id p) = Ok q" using store(2) en by simp
      from submit_phase_spec [OF this attempts, of env "ro_adapter route"] obtain r now' st'
        where s: "submit_phase env (eng_retry eng) (ro_adapter route) p st3 = (Returns (Ok (finished q r now')), st')"
          "\<forall>j. payments_get (en_store st') j = (if j = pm_id p then Ok (finished q r now') else payments_get store j)"
          "en_claims st' = en_claims st3" "en_counters st' = counter (submission_counter r) (en_counters st3)"
        unfolding en by blast
      have "pm_id (finished q r now') = pm_id p" by (cases r) (simp_all add: finished_def q_def)
      with s settle [OF s(2)] show ?thesis by blast
    qed
    show ?thesis
    proof (cases cp)
      case None
      from submitted [of st2] st2 run None show ?thesis by (fastforce simp: st2_def)
    next
      case (Some tt)
      obtain token ttl where cp: "cp = Some (token, ttl)" using Some by (cases tt) simp
      obtain res c where mark: "eng_mark eng (en_claims st2) (ev_now_ms env (en_tick st2)) token (pm_id p) CLAIM_LEASE ttl = (res, c)"
        by (cases "eng_mark eng (en_claims st2) (ev_now_ms env (en_tick st2)) token (pm_id p) CLAIM_LEASE ttl")
      show ?thesis
      proof (cases res)
        case (Inl e)
        with mark run cp st2 show ?thesis by (fastforce simp: tick_def)
      next
        case (Inr un)
        define st3 where "st3 = (tick st2)\<lparr>en_claims := c\<rparr>"
        have st3: "en_store st3 = store" "en_claims st3 = c" "en_counters st3 = en_counters st"
          using st2 by (simp_all add: st3_def st2_def tick_def)
        have runs: "run_initiation env eng sender recipient amount asset u cp st =
            submit_phase env (eng_retry eng) (ro_adapter route) p st3"
          using run cp mark Inr by (simp add: st3_def)
        from submitted [OF st3(1)] obtain r now' st' where s:
          "submit_phase env (eng_retry eng) (ro_adapter route) p st3 = (Returns (Ok (finished q r now')), st')"
          "stored_and_settled sender recipient amount asset u (finished q r now') st st'"
          "en_claims st' = c" "en_counters st' = counter (submission_counter r) (en_counters st)"
          "pm_id (finished q r now') = pm_id p"
          unfolding st3(2,3) by blast
        have "eng_mark eng (en_claims st) (ev_now_ms env (en_tick st2)) token (pm_id (finished q r now')) CLAIM_LEASE ttl
            = (Ok (), en_claims st')"
          using mark Inr st2(1) s(3,5) by simp
        with runs s cp show ?thesis by (intro disjI2) (auto intro!: exI)
      qed
    qed
  qed
qed

subsection \<open>Lemmas: an idempotent initiation is one worker\<close>

text \<open>
  The store operations of the engine, seen as steps of the worker that is identified by its owner
  id: what the store holds afterwards, that no other worker moved, and whether it submitted.
\<close>

definition worker_moves ::
    "('c, 'v, 'w) engine \<Rightarrow> 'c system \<Rightarrow> string \<Rightarrow> string \<Rightarrow> 'c \<Rightarrow> bool \<Rightarrow> bool" where
  "worker_moves eng s key w c submitted \<longleftrightarrow>
     (\<exists>s'. worker_run (eng_claim eng) (eng_mark eng) (eng_complete eng) s s' \<and> sys_store s' = c \<and>
        (\<forall>x. x \<noteq> w \<longrightarrow> sys_phase s' x = sys_phase s x) \<and>
        sys_submitted s' = (if submitted then (key, w) # sys_submitted s else sys_submitted s))"

lemma run_initiation_invalid:
  "validate_request sender recipient amount asset = Err e \<Longrightarrow>
     run_initiation env eng sender recipient amount asset u cp st = (Returns (Err e), st)"
  by (simp add: run_initiation_def)

lemma commit_moves:
  fixes st1 st' :: "('c, 'w) engine_state"
  assumes "sys_phase s w = Holding t \<or> sys_phase s w = Submitted t" and "sys_store s = en_claims st1"
    and "(case eng_complete eng (en_claims st1) t v x ttl of
             (Err e, c) \<Rightarrow> (Returns (Err e), st1\<lparr>en_claims := c\<rparr>)
           | (Ok _, c) \<Rightarrow> (Returns (Ok (Executed p)), st1\<lparr>en_claims := c\<rparr>)) = (r, st')"
  shows "worker_step (eng_claim eng) (eng_mark eng) (eng_complete eng) s
     (s\<lparr>sys_store := en_claims st', sys_phase := (sys_phase s)(w := Stopped)\<rparr>) \<and>
     en_counters st' = en_counters st1"
proof -
  obtain res c where c: "eng_complete eng (en_claims st1) t v x ttl = (res, c)"
    by (cases "eng_complete eng (en_claims st1) t v x ttl")
  with assms(3) have st': "en_claims st' = c" "en_counters st' = en_counters st1"
    by (auto split: sum.splits)
  have "worker_step (eng_claim eng) (eng_mark eng) (eng_complete eng) s
      (s\<lparr>sys_store := c, sys_phase := (sys_phase s)(w := Stopped)\<rparr>)"
    using c assms(2) by (intro worker_step.w_complete [OF assms(1)]) simp
  with st' show ?thesis by simp
qed

lemma execute_claimed_moves:
  fixes st st' :: "('c, 'w) engine_state"
  assumes attempts: "max_attempts (eng_retry eng) \<noteq> 0"
    and run: "execute_claimed env eng req t st = (r, st')"
    and hold: "sys_phase s w = Holding t" and store: "sys_store s = en_claims st"
  shows "\<exists>submitted. worker_moves eng s (ct_key t) w (en_claims st') submitted \<and>
     (en_counters st' \<noteq> en_counters st \<longrightarrow> submitted)"
proof (cases "validate_request (ir_sender req) (ir_recipient req) (ir_amount req) (ir_asset req)")
  case (Inl e)
  with run have "st' = st" by (simp add: execute_claimed_def run_initiation_invalid)
  moreover have "worker_moves eng s (ct_key t) w (en_claims st) False"
    unfolding worker_moves_def by (rule exI [of _ s]) (simp add: store run_refl)
  ultimately show ?thesis by blast
next
  case (Inr un)
  then have valid: "validate_request (ir_sender req) (ir_recipient req) (ir_amount req) (ir_asset req) = Ok ()"
    by simp
  let ?run = "run_initiation env eng (ir_sender req) (ir_recipient req) (ir_amount req) (ir_asset req)
      (ir_urgency req) (Some (t, ir_ttl req)) st"
  let ?step = "worker_step (eng_claim eng) (eng_mark eng) (eng_complete eng)"
  let ?commit = "\<lambda>(st1 :: ('c, 'w) engine_state) p. case eng_complete eng (en_claims st1) t (ev_to_value env p) (pm_tx_hash p) (ir_ttl req) of
             (Err e, c) \<Rightarrow> (Returns (Err e), st1\<lparr>en_claims := c\<rparr>)
           | (Ok _, c) \<Rightarrow> (Returns (Ok (Executed p)), st1\<lparr>en_claims := c\<rparr>)"
  have step1: "worker_moves eng s (ct_key t) w c False"
    if "?step s (s\<lparr>sys_store := c, sys_phase := (sys_phase s)(w := Stopped)\<rparr>)" for c
    using run_step [OF run_refl that] by (auto simp: worker_moves_def)
  from run_initiation_spec [OF valid attempts, of env "ir_urgency req" "Some (t, ir_ttl req)" st]
  consider (unrouted) p st1 where "?run = (Returns (Ok p), st1)" "en_claims st1 = en_claims st"
      "en_counters st1 = en_counters st"
    | (refused) now i e st1 where "?run = (Returns (Err e), st1)"
      "eng_mark eng (en_claims st) now t i CLAIM_LEASE (ir_ttl req) = (Err e, en_claims st1)"
      "en_counters st1 = en_counters st"
    | (submitted) p now st1 where "?run = (Returns (Ok p), st1)"
      "eng_mark eng (en_claims st) now t (pm_id p) CLAIM_LEASE (ir_ttl req) = (Ok (), en_claims st1)"
    by fastforce
  then show ?thesis
  proof cases
    case unrouted
    with run have commit: "?commit st1 p = (r, st')" by (simp add: execute_claimed_def)
    have "sys_store s = en_claims st1" using store unrouted by simp
    from commit_moves [OF disjI1 [OF hold] this commit] unrouted(3) step1 show ?thesis by auto
  next
    case refused
    have "?step s (s\<lparr>sys_store := en_claims st1, sys_phase := (sys_phase s)(w := Stopped)\<rparr>)"
      using refused(2) store by (intro worker_step.w_refused [OF hold]) simp
    moreover from run refused(1) have "st' = st1" by (simp add: execute_claimed_def)
    ultimately show ?thesis using step1 refused(3) by blast
  next
    case submitted
    let ?s1 = "s\<lparr>sys_store := en_claims st1, sys_phase := (sys_phase s)(w := Submitted t),
        sys_submitted := (ct_key t, w) # sys_submitted s\<rparr>"
    have first: "?step s ?s1"
      using submitted(2) store by (intro worker_step.w_submit [OF hold]) simp
    from run submitted(1) have commit: "?commit st1 p = (r, st')" by (simp add: execute_claimed_def)
    have "?step ?s1 (?s1\<lparr>sys_store := en_claims st', sys_phase := (sys_phase ?s1)(w := Stopped)\<rparr>)"
      by (rule commit_moves [OF disjI2 _ commit, THEN conjunct1]) simp_all
    from run_step [OF run_step [OF run_refl first] this]
    have "worker_moves eng s (ct_key t) w (en_claims st') True" by (auto simp: worker_moves_def)
    then show ?thesis by blast
  qed
qed

lemma worker_moves_claim:
  assumes fresh: "sys_phase s w = Fresh" and claim: "eng_claim eng (sys_store s) now key fp w lease ttl = (res, c)"
  shows "after_claim res = Holding t \<Longrightarrow>
      worker_moves eng (s\<lparr>sys_store := c, sys_phase := (sys_phase s)(w := Holding t)\<rparr>) key w c' b \<Longrightarrow>
      worker_moves eng s key w c' b"
    and "after_claim res = Stopped \<Longrightarrow> worker_moves eng s key w c False"
proof -
  note first = worker_step.w_claim [of s w "eng_claim eng" now key fp lease ttl res c "eng_mark eng" "eng_complete eng",
      OF fresh claim]
  show "worker_moves eng s key w c' b"
    if res: "after_claim res = Holding t"
      and later: "worker_moves eng (s\<lparr>sys_store := c, sys_phase := (sys_phase s)(w := Holding t)\<rparr>) key w c' b"
  proof -
    from later obtain s' where s': "worker_run (eng_claim eng) (eng_mark eng) (eng_complete eng)
          (s\<lparr>sys_store := c, sys_phase := (sys_phase s)(w := Holding t)\<rparr>) s'" "sys_store s' = c'"
        "\<forall>x. x \<noteq> w \<longrightarrow> sys_phase s' x = sys_phase s x"
        "sys_submitted s' = (if b then (key, w) # sys_submitted s else sys_submitted s)"
      by (auto simp: worker_moves_def)
    from worker_run_prepend [OF s'(1) first [unfolded res]] s'(2-4) show ?thesis
      unfolding worker_moves_def by blast
  qed
  show "after_claim res = Stopped \<Longrightarrow> worker_moves eng s key w c False"
    using run_step [OF run_refl first] by (auto simp: worker_moves_def)
qed

lemma initiate_idempotent_moves:
  fixes st st' :: "('c, 'w) engine_state"
  assumes attempts: "max_attempts (eng_retry eng) \<noteq> 0"
    and store: "claim_store (eng_claim eng) (eng_mark eng) (eng_complete eng) view invar" "invar (en_claims st)"
    and run: "initiate_idempotent env eng req st = (r, st')"
    and fresh: "sys_phase s (ev_uuid env (en_tick st)) = Fresh" and sys: "sys_store s = en_claims st"
  shows "\<exists>submitted. worker_moves eng s (namespace_key (ir_namespace req) (ir_client_key req))
       (ev_uuid env (en_tick st)) (en_claims st') submitted \<and> (en_counters st' \<noteq> en_counters st \<longrightarrow> submitted)"
proof -
  define key where "key = namespace_key (ir_namespace req) (ir_client_key req)"
  define w where "w = ev_uuid env (en_tick st)"
  define fp where "fp = ev_fingerprint env (ir_request_body req)"
  define now where "now = ev_now_ms env (en_tick (tick st))"
  obtain res c where claim: "eng_claim eng (en_claims st) now key fp w CLAIM_LEASE (ir_ttl req) = (res, c)"
    by (cases "eng_claim eng (en_claims st) now key fp w CLAIM_LEASE (ir_ttl req)")
  define st2 where "st2 = (tick (tick st))\<lparr>en_claims := c\<rparr>"
  have st2: "en_claims st2 = c" "en_counters st2 = en_counters st" by (simp_all add: st2_def tick_def)
  have "en_claims (tick st) = en_claims st" by (simp add: tick_def)
  with run claim have body: "(case res of
             Err e \<Rightarrow> (Returns (Err e), st2)
           | Ok (Replay response) \<Rightarrow> (Returns (Ok (Replayed response)), st2)
           | Ok Outcome_InFlight \<Rightarrow> (Returns (Err (Conflict in_progress_msg)), st2)
           | Ok (AwaitingResult execution_ref) \<Rightarrow>
               (case payments_get (en_store st2) execution_ref of
                  Ok p \<Rightarrow>
                    if is_terminal (pm_status p) then (Returns (Ok (Replayed (ev_to_value env p))), st2)
                    else (Returns (Err (PreconditionFailed retry_shortly_msg)), st2)
                | Err _ \<Rightarrow> (Returns (Err (PreconditionFailed retry_shortly_msg)), st2))
           | Ok (Claimed token) \<Rightarrow> execute_claimed env eng req token st2
           | Ok (TookOver token) \<Rightarrow> execute_claimed env eng req token st2) = (r, st')"
    unfolding initiate_idempotent_def Let_def key_def fp_def w_def now_def st2_def by simp
  note moves = worker_moves_claim [OF fresh, where eng = eng, folded w_def, of now key fp CLAIM_LEASE "ir_ttl req" res c]
  have claim': "eng_claim eng (sys_store s) now key fp w CLAIM_LEASE (ir_ttl req) = (res, c)"
    using claim sys by simp
  show ?thesis unfolding key_def [symmetric] w_def [symmetric]
  proof (cases "after_claim res")
    case (Holding t)
    have t: "t = \<lparr>ct_key = key, ct_owner = w\<rparr>"
      using claim_store.claim_Holding [OF store claim Holding] by simp
    have "execute_claimed env eng req t st2 = (r, st')"
      using body Holding by (cases res rule: after_claim.cases) auto
    from execute_claimed_moves [OF attempts this, of "s\<lparr>sys_store := c, sys_phase := (sys_phase s)(w := Holding t)\<rparr>" w] st2 t
    obtain b where "worker_moves eng (s\<lparr>sys_store := c, sys_phase := (sys_phase s)(w := Holding t)\<rparr>) key w (en_claims st') b"
        "en_counters st' \<noteq> en_counters st \<longrightarrow> b" by auto
    with moves(1) [OF claim' Holding] show "\<exists>b. worker_moves eng s key w (en_claims st') b \<and> (en_counters st' \<noteq> en_counters st \<longrightarrow> b)"
      by blast
  next
    case Stopped
    then have "st' = st2"
      using body by (cases res rule: after_claim.cases) (auto split: sum.splits if_splits)
    with moves(2) [OF claim' Stopped] st2
    show "\<exists>b. worker_moves eng s key w (en_claims st') b \<and> (en_counters st' \<noteq> en_counters st \<longrightarrow> b)" by auto
  qed (cases res rule: after_claim.cases; simp)+
qed

subsection \<open>Properties\<close>


text \<open>An engine over one mock adapter and the in-memory claim store, for concrete runs.\<close>

definition demo_env :: "payment engine_env" where
  "demo_env = \<lparr>ev_uuid = (\<lambda>n. ''0000000'' @ dec_of_nat n), ev_now_utc = (\<lambda>n. dec_of_nat n),
     ev_now_ms = (\<lambda>n. of_nat n), ev_rnd = (\<lambda>x. x), ev_to_value = (\<lambda>p. p), ev_fingerprint = (\<lambda>_. ''fp'')\<rparr>"

definition demo_engine :: "bool \<Rightarrow> (payment claim_state, payment, u32) engine" where
  "demo_engine fails = \<lparr>eng_adapters = [mock_object (if fails then mock_failing ''m'' else mock_new ''m'')],
     eng_retry = default_retry_config, eng_claim = memory_claim, eng_mark = memory_mark_submitting,
     eng_complete = memory_complete, eng_ready = memory_ready\<rparr>"

definition alice :: string where
  "alice = CHR ''G'' # replicate 55 (CHR ''A'')"

lemma demo_attempts: "max_attempts (eng_retry (demo_engine b)) \<noteq> 0"
  by (simp add: demo_engine_def default_retry_config_def)

lemma demo_valid: "validate_request alice alice 5 (native_asset ''testnet'') = Ok ()"
  by (simp add: validate_request_def res_simps is_g_address_def alice_def starts_with_def valid_amount_def
      is_ascii_alphanumeric_def valid_asset_id_Ok native_asset_def valid_symbol_def asset_coherent_def
      list_all_iff)



definition demo_request :: idempotent_request where
  "demo_request = \<lparr>ir_namespace = namespace_new None ''testnet'' ''payments.initiate'', ir_client_key = ''k'',
     ir_request_body = JNull, ir_ttl = 1000, ir_sender = alice, ir_recipient = alice, ir_amount = 5,
     ir_asset = native_asset ''testnet'', ir_urgency = Fast\<rparr>"


text \<open>
  The records a granted execution leaves: an executed request is completed under its key and
  fingerprint, over every store that keeps the contract.
\<close>

lemma execute_claimed_completes:
  fixes st st' :: "('c, 'w) engine_state"
  assumes attempts: "max_attempts (eng_retry eng) \<noteq> 0"
    and cs: "claim_store (eng_claim eng) (eng_mark eng) (eng_complete eng) view invar" and inv: "invar (en_claims st)"
    and run: "execute_claimed env eng req t st = (Returns (Ok (Executed p)), st')"
    and rec: "view (en_claims st) (ct_key t) = Some rec"
  shows "invar (en_claims st') \<and> (\<exists>rec' x. view (en_claims st') (ct_key t) = Some rec' \<and>
     cr_fingerprint rec' = cr_fingerprint rec \<and> cr_lifecycle rec' = Completed (ev_to_value env p) x)"
proof -
  let ?run = "run_initiation env eng (ir_sender req) (ir_recipient req) (ir_amount req) (ir_asset req)
      (ir_urgency req) (Some (t, ir_ttl req)) st"
  from run obtain st1 where st1: "?run = (Returns (Ok p), st1)"
      "eng_complete eng (en_claims st1) t (ev_to_value env p) (pm_tx_hash p) (ir_ttl req) = (Ok (), en_claims st')"
    by (auto simp: execute_claimed_def split: prod.splits outcome.splits sum.splits)
  have valid: "validate_request (ir_sender req) (ir_recipient req) (ir_amount req) (ir_asset req) = Ok ()"
    using st1(1) by (cases "validate_request (ir_sender req) (ir_recipient req) (ir_amount req) (ir_asset req)")
      (simp_all add: run_initiation_invalid)
  have mark: "eng_mark eng (en_claims st) now t e lease ttl = (Ok (), c) \<Longrightarrow> invar c \<and>
      (\<exists>rec1. view c (ct_key t) = Some rec1 \<and> cr_fingerprint rec1 = cr_fingerprint rec)" for now e lease ttl c
    using claim_store.mark_Ok [OF cs inv, of now t e lease ttl c] rec
      claim_store.mark_invar [OF cs inv, of now t e lease ttl]
    by (auto simp: claim_advanced_def)
  have "invar (en_claims st1) \<and>
      (\<exists>rec1. view (en_claims st1) (ct_key t) = Some rec1 \<and> cr_fingerprint rec1 = cr_fingerprint rec)"
    using run_initiation_spec [OF valid attempts, of env "ir_urgency req" "Some (t, ir_ttl req)" st] st1(1) rec inv
    by (auto dest!: mark)
  with claim_store.complete_Ok [OF cs _ st1(2)] claim_store.complete_invar [OF cs, of "en_claims st1" t
      "ev_to_value env p" "pm_tx_hash p" "ir_ttl req"] st1(2)
  show ?thesis by (auto simp: claim_advanced_def is_completed_def)
qed

lemma executed_request_completes:
  fixes st st' :: "('c, 'w) engine_state"
  assumes attempts: "max_attempts (eng_retry eng) \<noteq> 0"
    and cs: "claim_store (eng_claim eng) (eng_mark eng) (eng_complete eng) view invar" and inv: "invar (en_claims st)"
    and run: "initiate_idempotent env eng req st = (Returns (Ok (Executed p)), st')"
  obtains rec x where "invar (en_claims st')"
    "view (en_claims st') (namespace_key (ir_namespace req) (ir_client_key req)) = Some rec"
    "cr_fingerprint rec = ev_fingerprint env (ir_request_body req)"
    "cr_lifecycle rec = Completed (ev_to_value env p) x"
proof -
  define key where "key = namespace_key (ir_namespace req) (ir_client_key req)"
  define fp where "fp = ev_fingerprint env (ir_request_body req)"
  define w where "w = ev_uuid env (en_tick st)"
  define now where "now = ev_now_ms env (en_tick (tick st))"
  obtain res c where claim: "eng_claim eng (en_claims st) now key fp w CLAIM_LEASE (ir_ttl req) = (res, c)"
    by (cases "eng_claim eng (en_claims st) now key fp w CLAIM_LEASE (ir_ttl req)")
  define st2 where "st2 = (tick (tick st))\<lparr>en_claims := c\<rparr>"
  have "\<exists>t. after_claim res = Holding t \<and> execute_claimed env eng req t st2 = (Returns (Ok (Executed p)), st')"
    using run claim unfolding initiate_idempotent_def Let_def key_def fp_def w_def now_def st2_def
    by (cases res rule: after_claim.cases) (auto simp: tick_def split: sum.splits if_splits)
  then obtain t where t: "after_claim res = Holding t"
      "execute_claimed env eng req t st2 = (Returns (Ok (Executed p)), st')" by blast
  from claim_store.claim_Holding [OF cs inv claim t(1)] obtain rec where rec:
    "t = \<lparr>ct_key = key, ct_owner = w\<rparr>" "view c key = Some rec" "cr_fingerprint rec = fp"
    by (auto simp: claim_granted_def)
  have "invar (en_claims st2)" "view (en_claims st2) (ct_key t) = Some rec"
    using rec claim_store.claim_invar [OF cs inv, of now key fp w CLAIM_LEASE "ir_ttl req"] claim
    by (simp_all add: st2_def)
  from execute_claimed_completes [OF attempts cs this(1) t(2) this(2)] rec that
  show thesis by (auto simp: key_def fp_def)
qed


text \<open>The in-memory store does not fail: there the response is replayed.\<close>

lemma executed_request_is_replayed:
  assumes "max_attempts (eng_retry eng) \<noteq> 0"
    and "eng_claim eng = memory_claim" and "eng_mark eng = memory_mark_submitting"
    and "eng_complete eng = memory_complete"
    and "initiate_idempotent env eng req st = (Returns (Ok (Executed p)), st')"
    and "namespace_key (ir_namespace req') (ir_client_key req') = namespace_key (ir_namespace req) (ir_client_key req)"
    and "ev_fingerprint env (ir_request_body req') = ev_fingerprint env (ir_request_body req)"
  shows "\<exists>st''. initiate_idempotent env eng req' st' = (Returns (Ok (Replayed (ev_to_value env p))), st'') \<and>
     en_world st'' = en_world st' \<and> en_store st'' = en_store st' \<and> en_counters st'' = en_counters st'"
proof -
  have "claim_store (eng_claim eng) (eng_mark eng) (eng_complete eng) cs_records (\<lambda>_. True)"
    using memory.claim_store_axioms assms(2-4) by simp
  from executed_request_completes [OF assms(1) this TrueI assms(5)] obtain rec x where
    "cs_records (en_claims st') (namespace_key (ir_namespace req) (ir_client_key req)) = Some rec"
    "cr_fingerprint rec = ev_fingerprint env (ir_request_body req)" "cr_lifecycle rec = Completed (ev_to_value env p) x"
    by blast
  then show ?thesis
    using assms(2,6,7) by (auto simp: initiate_idempotent_def Let_def memory_claim_def tick_def)
qed

definition is_executed :: "(engine_error + 'v idempotent_initiation) outcome \<Rightarrow> bool" where
  "is_executed r = (case r of Returns (Ok (Executed _)) \<Rightarrow> True | _ \<Rightarrow> False)"

lemma demo_executes:
  "is_executed (fst (initiate_idempotent demo_env (demo_engine True) demo_request (engine_new memory_new 0)))"
proof -
  have sel: "select rnd [mock_object (mock_failing ''m'')] Fast w =
      (Err (AdapterError ''all chain adapters are unavailable''), w)" for rnd w
    by (simp add: select_def mock_object_def mock_fee_estimate_def mock_failing_def mock_new_def)
  show ?thesis
    by (simp add: initiate_idempotent_def Let_def engine_new_def tick_def demo_request_def demo_engine_def
        memory_claim_def memory_new_def execute_claimed_def run_initiation_def demo_valid
        sel unrouted_def memory_complete_def new_in_flight_def is_executed_def)
qed


subsection \<open>What a checkpoint does not bound\<close>

text \<open>
  The retries of a submission run under one checkpoint. An adapter whose first submission went
  through but whose answer was lost is given the payment again: one claim, one counted
  submission, and two that reached the chain.
\<close>

definition lossy_adapter :: "nat adapter" where
  "lossy_adapter = \<lparr>ad_name = ''lossy'',
     ad_submit = (\<lambda>_ n. (if n = 0 then Err (NetworkError ''timeout'') else Ok ''h'', Suc n)),
     ad_fee_estimate = (\<lambda>n. (Ok default_fee_estimate, n)), ad_is_confirmed = (\<lambda>_ n. (Ok True, n)),
     ad_is_ready = (\<lambda>n. (True, n))\<rparr>"

lemma retry_resubmits:
  assumes "en_world st = 0"
  shows "en_world (snd (submit_phase env default_retry_config lossy_adapter p st)) = 2"
proof -
  have "unat (3 :: u32) = 3" by simp
  then have "unat (3 :: u32) = Suc (Suc (Suc 0))" by (simp only: numeral_3_eq_3)
  then have "retry default_retry_config (ad_submit lossy_adapter p) 0 = (Returns (Ok ''h''), [500], 2)"
    by (simp add: retry_def default_retry_config_def lossy_adapter_def numeral_2_eq_2)
  then show ?thesis using assms by (simp add: submit_phase_def Let_def tick_def split: prod.splits)
qed

end
