(* ===== verification/Handlers.thy ===== *)
theory Handlers
  imports Engine Config
begin

text \<open>
  The remaining handlers: payments (\<^verbatim>\<open>src/api/payments.rs\<close>), fees, health and readiness
  (\<^verbatim>\<open>src/api/fees.rs\<close>, \<^verbatim>\<open>src/api/health.rs\<close>) and webhooks (\<^verbatim>\<open>src/api/webhooks.rs\<close>), and the
  response that an engine error becomes. A handler acts on the engine's state or on the webhook
  registry; a response is its status with the values of its body.

  The handler of an initiation without an idempotency key reads a field \<open>token\<close> that its request
  does not have; the model passes the field \<open>asset\<close>, as the engine expects. The branch with a key
  matches the result of the plain initiation against the outcomes of the idempotent one, which
  does not type-check, and is not modelled.
\<close>

subsection \<open>Errors\<close>

record error_response =
  er_status :: nat
  er_code :: string
  er_message :: string

fun error_code :: "engine_error \<Rightarrow> string" where
  "error_code (NotFound _) = ''NOT_FOUND''"
| "error_code (InvalidRequest _) = ''INVALID_REQUEST''"
| "error_code (Conflict _) = ''CONFLICT''"
| "error_code (AdapterError _) = ''ADAPTER_ERROR''"
| "error_code (NetworkError _) = ''NETWORK_ERROR''"
| "error_code (Internal _) = ''INTERNAL_ERROR''"
| "error_code (PreconditionFailed _) = ''PRECONDITION_FAILED''"

definition into_response :: "engine_error \<Rightarrow> error_response" where
  "into_response e =
     \<lparr>er_status = (let s = http_status e in if s = 404 \<or> s = 400 \<or> s = 409 \<or> s = 412 then s else 500),
      er_code = error_code e, er_message = error_to_string e\<rparr>"

subsection \<open>Payments\<close>

record initiate_request =
  iq_sender :: string
  iq_recipient :: string
  iq_amount :: u64
  iq_asset :: asset_id
  iq_urgency :: urgency
  iq_idempotency_key :: "string option"

definition api_initiate_plain ::
  "'v engine_env \<Rightarrow> ('c, 'v, 'w) engine \<Rightarrow> initiate_request \<Rightarrow> ('c, 'w) engine_state \<Rightarrow>
     (engine_error + nat \<times> payment) outcome \<times> ('c, 'w) engine_state" where
  "api_initiate_plain env eng req st =
     (case initiate env eng (iq_sender req) (iq_recipient req) (iq_amount req) (iq_asset req) (iq_urgency req) st of
        (res, st') \<Rightarrow> (bind_out res (\<lambda>r. try_out r (\<lambda>p. Returns (Ok (201, p)))), st'))"

definition api_payment_get :: "('c, 'w) engine_state \<Rightarrow> string \<Rightarrow> engine_error + payment" where
  "api_payment_get st i = engine_get st i"

definition api_payment_list :: "('c, 'w) engine_state \<Rightarrow> payment list" where
  "api_payment_list st = engine_list st"

record simulate_request =
  sq_sender :: string
  sq_recipient :: string
  sq_amount :: u64
  sq_asset :: asset_id
  sq_urgency :: urgency

definition api_simulate ::
  "'v engine_env \<Rightarrow> ('c, 'v, 'w) engine \<Rightarrow> simulate_request \<Rightarrow> ('c, 'w) engine_state \<Rightarrow>
     (engine_error + simulation_result) \<times> ('c, 'w) engine_state" where
  "api_simulate env eng req =
     simulate env eng (sq_sender req) (sq_recipient req) (sq_amount req) (sq_asset req) (sq_urgency req)"

record receipt =
  rc_payment_id :: string
  rc_tx_hash :: string
  rc_sender :: string
  rc_recipient :: string
  rc_amount :: u64
  rc_asset :: asset_id
  rc_chain :: string
  rc_confirmed_at :: string

definition api_receipt :: "('c, 'w) engine_state \<Rightarrow> string \<Rightarrow> engine_error + receipt" where
  "api_receipt st i =
     bind_res (engine_get st i) (\<lambda>p.
     bind_res (ok_or (pm_tx_hash p) (InvalidRequest (''payment '' @ i @ '' is not yet confirmed''))) (\<lambda>tx_hash.
     Ok \<lparr>rc_payment_id = pm_id p, rc_tx_hash = tx_hash, rc_sender = pm_sender p, rc_recipient = pm_recipient p,
         rc_amount = pm_amount p, rc_asset = pm_asset p, rc_chain = ''stellar'', rc_confirmed_at = pm_updated_at p\<rparr>))"

subsection \<open>Fees, health and readiness\<close>

definition api_fees :: "('c, 'v, 'w) engine \<Rightarrow> ('c, 'w) engine_state \<Rightarrow> chain_fees list \<times> ('c, 'w) engine_state" where
  "api_fees eng st = current_fees eng st"

definition healthz :: "nat \<times> string" where
  "healthz = (200, ''alive'')"

definition readyz ::
  "('c, 'v, 'w) engine \<Rightarrow> config \<Rightarrow> ('c, 'w) engine_state \<Rightarrow> (nat \<times> health_status \<times> string list) \<times> ('c, 'w) engine_state" where
  "readyz eng cfg st =
     (case health eng st of
        (h, st') \<Rightarrow>
          let static_failures = static_readiness cfg in
          ((if hs_status h = ''ready'' \<and> static_failures = [] then 200 else 503, h, static_failures), st'))"

subsection \<open>Webhooks\<close>

record register_request =
  gq_url :: string
  gq_secret :: string
  gq_events :: "webhook_event list"

text \<open>A refusal is the status, the code and the message of its body.\<close>

definition api_register ::
  "string \<Rightarrow> string \<Rightarrow> register_request \<Rightarrow> webhook_store \<Rightarrow> (error_response + nat \<times> webhook) \<times> webhook_store" where
  "api_register uuid now req st =
     (if gq_url req = [] \<or> gq_secret req = [] then
        (Err \<lparr>er_status = 400, er_code = ''INVALID_REQUEST'', er_message = ''url and secret are required''\<rparr>, st)
      else (case register uuid now (gq_url req) (gq_secret req) (gq_events req) st of
              (hook, st') \<Rightarrow> (Ok (201, hook), st')))"

definition api_webhook_list :: "webhook_store \<Rightarrow> webhook list" where
  "api_webhook_list st = webhooks_list st"

definition api_webhook_delete :: "string \<Rightarrow> webhook_store \<Rightarrow> (engine_error + nat) \<times> webhook_store" where
  "api_webhook_delete i = bind_st (webhooks_delete i) (\<lambda>_. lift_res (Ok 204))"

definition api_webhook_toggle :: "string \<Rightarrow> webhook_store \<Rightarrow> (engine_error + webhook) \<times> webhook_store" where
  "api_webhook_toggle i st =
     (case webhooks_get st i of
        Err e \<Rightarrow> (Err e, st)
      | Ok hook \<Rightarrow>
          (case set_active i (\<not> wh_active hook) st of
             (Err e, st') \<Rightarrow> (Err e, st')
           | (Ok _, st') \<Rightarrow> (webhooks_get st' i, st')))"

subsection \<open>Lemmas\<close>

text \<open>The status of an error response is the one of the error: the fallback is never a surprise.\<close>

lemma into_response_status: "er_status (into_response e) = http_status e"
  by (cases e) (simp_all add: into_response_def)

lemma hs_status_ready:
  "hs_status (fst (health eng st)) = ''ready'' \<longleftrightarrow>
     list_ex cf_available (fst (all_fees (eng_adapters eng) (en_world st))) \<and> eng_ready eng (en_claims st)"
  by (auto simp: health_def Let_def split: prod.splits)

lemma toggle_spec:
  assumes "webhooks_get st i = Ok hook"
  shows "fst (api_webhook_toggle i st) = Ok (hook\<lparr>wh_active := \<not> wh_active hook\<rparr>)"
    and "webhooks_get (snd (api_webhook_toggle i st)) j =
      (if j = i then Ok (hook\<lparr>wh_active := \<not> wh_active hook\<rparr>) else webhooks_get st j)"
proof -
  let ?f = "\<lambda>h. h\<lparr>wh_active := \<not> wh_active hook\<rparr>"
  have "set_active i (\<not> wh_active hook) st = webhooks_modify i ?f st"
    by (simp add: set_active_def webhooks_modify_def)
  with webhooks.modify_present [OF assms, of ?f] assms
  show "fst (api_webhook_toggle i st) = Ok (hook\<lparr>wh_active := \<not> wh_active hook\<rparr>)"
    "webhooks_get (snd (api_webhook_toggle i st)) j =
      (if j = i then Ok (hook\<lparr>wh_active := \<not> wh_active hook\<rparr>) else webhooks_get st j)"
    by (auto simp: api_webhook_toggle_def split: prod.splits sum.splits)
qed

lemma toggle_twice:
  assumes "webhooks_get st i = Ok hook"
  shows "webhooks_get (snd (api_webhook_toggle i (snd (api_webhook_toggle i st)))) j = webhooks_get st j"
proof -
  have "webhooks_get (snd (api_webhook_toggle i st)) i = Ok (hook\<lparr>wh_active := \<not> wh_active hook\<rparr>)"
    by (simp add: toggle_spec(2) [OF assms])
  from toggle_spec(2) [OF this, of j] show ?thesis by (simp add: toggle_spec(2) [OF assms] assms)
qed

text \<open>A registered hook is listed as given, active, and found under its identifier.\<close>

lemma registered_is_found:
  assumes "api_register uuid now req st = (Ok (status, hook), st')"
  shows "status = 201 \<and> webhooks_get st' uuid = Ok hook \<and> wh_active hook \<and> wh_url hook = gq_url req \<and>
    wh_url hook \<noteq> [] \<and> wh_secret hook \<noteq> []"
  using assms
  by (auto simp: api_register_def register_def Let_def webhooks_get_def update_conv' split: if_splits)

lemma initiate_stores:
  assumes "max_attempts (eng_retry eng) \<noteq> 0"
    and "initiate env eng sender recipient amount asset u st = (Returns (Ok p), st')"
  shows "settled sender recipient amount asset u p" and "engine_get st' (pm_id p) = Ok p"
proof -
  have valid: "validate_request sender recipient amount asset = Ok ()"
  proof (cases "validate_request sender recipient amount asset")
    case (Inl e)
    with assms(2) show ?thesis by (simp add: initiate_def run_initiation_invalid)
  qed simp
  from run_initiation_spec [OF valid assms(1), of env u None st] assms(2)
  show "settled sender recipient amount asset u p" "engine_get st' (pm_id p) = Ok p"
    by (auto simp: initiate_def stored_and_settled_def engine_get_def)
qed

subsection \<open>Properties\<close>

text \<open>
  C21. The engine reports itself ready exactly when it can work: the readiness probe answers 200
  just when some chain has fees, the claim store is ready, the deployment runs on the network, the
  manifest and the contract version that it is expected to run on, a pool is configured and
  reconciliation is not behind; in every other case it answers 503 and names the static failures.\<close>

theorem ready_exactly_when:
  "fst (fst (readyz eng cfg st)) =
     (if list_ex cf_available (fst (all_fees (eng_adapters eng) (en_world st))) \<and> eng_ready eng (en_claims st) \<and>
         cf_network cfg = cf_expected_network cfg \<and> cf_manifest cfg \<noteq> [] \<and> cf_manifest cfg = cf_expected_manifest cfg \<and>
         cf_contract_spec cfg \<noteq> [] \<and> cf_contract_spec cfg = cf_supported_contract_spec cfg \<and>
         cf_pool cfg \<noteq> None \<and> cf_reconciliation_lag_seconds cfg \<le> cf_reconciliation_lag_max_seconds cfg
      then 200 else 503)"
  using hs_status_ready [of eng st] static_readiness_Nil [of cfg]
  by (auto simp: readyz_def Let_def split: prod.splits)

text \<open>
  C36. After an initiation over the API a receipt is had exactly for a payment that was confirmed,
  and it names the hash of its transaction and the parties, amount and asset of the request.\<close>

theorem receipt_after_initiation:
  assumes "max_attempts (eng_retry eng) \<noteq> 0"
    and "api_initiate_plain env eng req st = (Returns (Ok (status, p)), st')"
  shows "status = 201 \<and> (is_ok (api_receipt st' (pm_id p)) \<longleftrightarrow> pm_status p = Confirmed) \<and>
    (pm_status p = Confirmed \<or> pm_status p = Failed) \<and>
    (\<forall>r. api_receipt st' (pm_id p) = Ok r \<longrightarrow> rc_payment_id r = pm_id p \<and> pm_tx_hash p = Some (rc_tx_hash r) \<and>
       rc_sender r = iq_sender req \<and> rc_recipient r = iq_recipient req \<and> rc_amount r = iq_amount req \<and>
       rc_asset r = iq_asset req)"
proof -
  from assms(2) have status: "status = 201" and run: "initiate env eng (iq_sender req) (iq_recipient req)
      (iq_amount req) (iq_asset req) (iq_urgency req) st = (Returns (Ok p), st')"
    by (auto simp: api_initiate_plain_def res_simps split: prod.splits)
  from initiate_stores [OF assms(1) run] status show ?thesis
    by (auto simp: api_receipt_def settled_def res_simps is_ok_iff)
qed

definition demo_initiate :: initiate_request where
  "demo_initiate = \<lparr>iq_sender = alice, iq_recipient = alice, iq_amount = 5, iq_asset = native_asset ''testnet'',
     iq_urgency = Fast, iq_idempotency_key = None\<rparr>"

theorem receipt_after_initiation_witness:
  "\<exists>p st'. api_initiate_plain Engine.demo_env (demo_engine False) demo_initiate (engine_new memory_new 0) = (Returns (Ok (201, p)), st') \<and>
     (is_ok (api_receipt st' (pm_id p)) \<longleftrightarrow> pm_status p = Confirmed)"
proof -
  obtain p st' where "initiate Engine.demo_env (demo_engine False) alice alice 5 (native_asset ''testnet'') Fast
      (engine_new memory_new 0) = (Returns (Ok p), st')"
    using run_initiation_spec [OF demo_valid demo_attempts [of False], where env = Engine.demo_env and u = Fast and cp = None and
      st = "engine_new memory_new 0"]
    by (auto simp: initiate_def)
  then have run: "api_initiate_plain Engine.demo_env (demo_engine False) demo_initiate (engine_new memory_new 0) =
      (Returns (Ok (201, p)), st')"
    by (simp add: api_initiate_plain_def demo_initiate_def)
  from receipt_after_initiation [OF demo_attempts run] run show ?thesis by blast
qed

end
