(* ===== verification/Rates.thy ===== *)
theory Rates
  imports Adapters Auth Complex_Main
begin

text \<open>
  Dollar prices, \<^verbatim>\<open>src/rates.rs\<close>, and their handler, \<^verbatim>\<open>src/api/rates.rs\<close>. The price feed is
  a parameter: an HTTP client on a world that also has the clock, the reading of the price field,
  a finite double and hence a rational, and the rounding of a product to a double. The property
  says what a price that is returned rests on.
\<close>

subsection \<open>The cache and the feed\<close>

definition RATE_TTL :: duration where
  "RATE_TTL = from_secs 60"

definition COINGECKO_BASE :: string where
  "COINGECKO_BASE = ''https://api.coingecko.com/api/v3''"

record cached_rate =
  rt_micro :: u64
  rt_fetched_at :: instant

type_synonym rate_cache = "string \<rightharpoonup> cached_rate"

definition rates_new :: rate_cache where
  "rates_new = Map.empty"

record ('w, 'j) price_feed =
  pf_get :: "string \<Rightarrow> 'w \<Rightarrow> (string + 'j http_response) \<times> 'w"
  pf_status_text :: "nat \<Rightarrow> string"
  pf_usd :: "'j \<Rightarrow> string \<Rightarrow> rat option"
  pf_rnd :: "rat \<Rightarrow> rat"
  pf_now :: "'w \<Rightarrow> instant"

text \<open>The feed's identifier of an asset: by canonical key, then by symbol.\<close>

definition coingecko_id :: "asset_id \<Rightarrow> string option" where
  "coingecko_id asset =
     (let key = canonical_key asset; symb = to_uppercase (ast_symbol asset) in
      if key = ''CCW67TSZV3SSS2HXMBQ5JFGCKJNXKZM7UQUWUZPUTHXSTZLEO7SJMI75'' then Some ''usd-coin''
      else if key = ''native'' then Some ''stellar''
      else if symb = ''XLM'' then Some ''stellar''
      else if symb = ''USDC'' then Some ''usd-coin''
      else if symb = ''BTC'' \<or> symb = ''WBTC'' then Some ''bitcoin''
      else if symb = ''ETH'' \<or> symb = ''WETH'' then Some ''ethereum''
      else None)"

text \<open>To the nearest integer, halves away from zero, then saturating to 64 bits.\<close>

definition round_half_away :: "rat \<Rightarrow> int" where
  "round_half_away x = (if x < 0 then - \<lfloor>1/2 - x\<rfloor> else \<lfloor>x + 1/2\<rfloor>)"

definition to_micro :: "(rat \<Rightarrow> rat) \<Rightarrow> rat \<Rightarrow> u64" where
  "to_micro rnd price = of_int (max 0 (min (2 ^ 64 - 1) (round_half_away (rnd (price * 1000000)))))"

definition fetch_from_coingecko :: "('w, 'j) price_feed \<Rightarrow> asset_id \<Rightarrow> 'w \<Rightarrow> (engine_error + u64) \<times> 'w" where
  "fetch_from_coingecko feed asset w =
     (case coingecko_id asset of
        None \<Rightarrow>
          (Err (NotFound (''no CoinGecko mapping for asset '' @ [CHR 0x27] @ ast_symbol asset @ [CHR 0x27] @ '' (key: '' @
             [CHR 0x27] @ canonical_key asset @ [CHR 0x27] @ '')'')), w)
      | Some i \<Rightarrow>
          (case pf_get feed (COINGECKO_BASE @ ''/simple/price?ids='' @ i @ ''&vs_currencies=usd'') w of
             (Err e, w') \<Rightarrow> (Err (NetworkError e), w')
           | (Ok resp, w') \<Rightarrow>
               (if \<not> is_success (resp_status resp) then
                  Err (NetworkError (''CoinGecko returned '' @ pf_status_text feed (resp_status resp)))
                else
                  bind_res (map_err (resp_json resp) NetworkError) (\<lambda>body.
                  bind_res (ok_or (pf_usd feed body i)
                              (NotFound (''no price data for '' @ [CHR 0x27] @ ast_symbol asset @ [CHR 0x27]))) (\<lambda>price.
                  Ok (to_micro (pf_rnd feed) price))), w')))"

text \<open>A price in micro-dollars as a rational.\<close>

definition micro_price :: "u64 \<Rightarrow> (engine_error + rational_price) outcome" where
  "micro_price micro = bind_out (rational_price_new (ucast micro) 1000000) (\<lambda>p. Returns (Ok p))"

definition usd_price ::
  "('w, 'j) price_feed \<Rightarrow> asset_id \<Rightarrow> rate_cache \<times> 'w \<Rightarrow> (engine_error + rational_price) outcome \<times> rate_cache \<times> 'w" where
  "usd_price feed asset = (\<lambda>(cache, w).
     let cache_key = canonical_key asset;
         refetch = (case fetch_from_coingecko feed asset w of
             (Err e, w') \<Rightarrow> (Returns (Err e), (cache, w'))
           | (Ok micro, w') \<Rightarrow>
               (micro_price micro, (cache(cache_key \<mapsto> \<lparr>rt_micro = micro, rt_fetched_at = pf_now feed w'\<rparr>), w'))) in
     case cache cache_key of
       Some entry \<Rightarrow>
         if elapsed (pf_now feed w) (rt_fetched_at entry) < RATE_TTL then (micro_price (rt_micro entry), (cache, w))
         else refetch
     | None \<Rightarrow> refetch)"

record token_rate =
  tr_asset :: asset_id
  tr_usd_price :: rational_price
  tr_available :: bool

fun rates_for ::
  "('w, 'j) price_feed \<Rightarrow> asset_id list \<Rightarrow> rate_cache \<times> 'w \<Rightarrow> token_rate list outcome \<times> rate_cache \<times> 'w" where
  "rates_for feed [] st = (Returns [], st)"
| "rates_for feed (asset # assets) st =
     (case usd_price feed asset st of
        (Panic, st1) \<Rightarrow> (Panic, st1)
      | (Returns rate, st1) \<Rightarrow>
          (case rates_for feed assets st1 of
             (rest, st2) \<Rightarrow>
               (bind_out rest (\<lambda>rs. Returns (
                  \<lparr>tr_asset = asset, tr_usd_price = (case rate of Ok p \<Rightarrow> p | Err _ \<Rightarrow> rational_price_zero),
                   tr_available = is_ok rate\<rparr> # rs)), st2)))"

subsection \<open>The handler\<close>

text \<open>
  Either the rates, or the body of an error. The pieces of the query are read by \<open>from_json\<close>; the
  error is answered with the default status.
\<close>

datatype rates_response = Rates "token_rate list" | Rates_Error nat string string

fun parse_assets :: "(string \<Rightarrow> string + asset_id) \<Rightarrow> string list \<Rightarrow> rates_response + asset_id list" where
  "parse_assets from_json [] = Ok []"
| "parse_assets from_json (part # parts) =
     (case from_json part of
        Err e \<Rightarrow> Err (Rates_Error 200 ''INVALID_REQUEST'' ([CHR 0x27] @ ''assets'' @ [CHR 0x27] @
          '' entry is not a valid AssetId JSON: '' @ e @ [CHR 0x0A] @ ''value: '' @ part))
      | Ok a \<Rightarrow> bind_res (parse_assets from_json parts) (\<lambda>as. Ok (a # as)))"

definition query_parts :: "string \<Rightarrow> string list" where
  "query_parts raw = filter (\<lambda>s. s \<noteq> []) (map trim (split_on (CHR '','') raw))"

definition api_rates ::
  "(string \<Rightarrow> string + asset_id) \<Rightarrow> network \<Rightarrow> ('w, 'j) price_feed \<Rightarrow> string option \<Rightarrow> rate_cache \<times> 'w \<Rightarrow>
     rates_response outcome \<times> rate_cache \<times> 'w" where
  "api_rates from_json net feed assets st =
     (let raw = (case assets of Some s \<Rightarrow> s | None \<Rightarrow> []) in
      case (if raw = [] then Ok [native_asset (network_name net)] else parse_assets from_json (query_parts raw)) of
        Err response \<Rightarrow> (Returns response, st)
      | Ok as \<Rightarrow>
          (case rates_for feed as st of
             (rs, st') \<Rightarrow> (bind_out rs (\<lambda>rs. Returns (Rates rs)), st')))"

subsection \<open>Lemmas\<close>

lemma micro_price_value:
  "\<exists>p. micro_price micro = Returns (Ok p) \<and> price_num p * 1000000 = unat micro * price_den p \<and> 1 \<le> price_den p"
proof -
  obtain p where "rational_price_new (ucast micro) 1000000 = Returns p"
    "price_num p * unat (1000000 :: u128) = unat (ucast micro :: u128) * price_den p" "1 \<le> price_den p"
    using rational_price_reduced [of 1000000 "ucast micro"] by auto
  moreover have "unat (ucast micro :: u128) = unat micro"
    by (rule unat_ucast_fits, rule less_trans [OF unsigned_less]) simp
  ultimately show ?thesis by (auto simp: micro_price_def)
qed

lemma usd_price_Returns: "\<exists>r st'. usd_price feed asset st = (Returns r, st')"
  using micro_price_value
  by (cases st) (auto simp: usd_price_def Let_def split: option.splits prod.splits sum.splits; metis)

lemma rates_for_Returns:
  "\<exists>rs st'. rates_for feed assets st = (Returns rs, st') \<and> map tr_asset rs = assets"
proof (induction assets arbitrary: st)
  case (Cons a assets)
  obtain r st1 where "usd_price feed a st = (Returns r, st1)" using usd_price_Returns by blast
  with Cons [of st1] show ?case by (auto split: prod.splits)
qed simp

text \<open>The price is reduced: its denominator is not the million that the documentation promises.\<close>

lemma rate_denominator_reduced: "micro_price 500000 = Returns (Ok \<lparr>rp_numerator = ''1'', rp_denominator = ''2''\<rparr>)"
  by (simp add: micro_price_def rational_price_new_Returns) code_simp

text \<open>
  The pieces of a query contain no comma, but the JSON text of an asset, an object of several
  members, does: a query that names an asset is always refused.
\<close>

lemma trim_subset: "set (trim s) \<subseteq> set s"
  by (auto simp: trim_def dest!: set_dropWhileD)

lemma asset_queries_refused:
  assumes "\<And>s a. from_json s = Ok a \<Longrightarrow> CHR '','' \<in> set s" and "query_parts raw \<noteq> []"
  shows "\<exists>message. api_rates from_json net feed (Some raw) st = (Returns (Rates_Error 200 ''INVALID_REQUEST'' message), st)"
proof -
  obtain part parts where p: "query_parts raw = part # parts" using assms(2) by (cases "query_parts raw") auto
  then have "part \<in> set (query_parts raw)" by simp
  then obtain piece where "part = trim piece" "piece \<in> set (split_on (CHR '','') raw)"
    by (auto simp: query_parts_def)
  then have "CHR '','' \<notin> set part" using split_on_pieces [of piece] trim_subset [of piece] by auto
  with assms(1) obtain e where "from_json part = Err e" by (cases "from_json part") auto
  moreover have "raw \<noteq> []" using assms(2) by (auto simp: query_parts_def trim_def)
  ultimately show ?thesis by (simp add: api_rates_def p)
qed

subsection \<open>Properties\<close>

text \<open>
  C28. A price that is served is current and exact: it is the rational of a whole number of
  micro-dollars that the cache then holds for the asset, and this number was read less than sixty
  seconds before, with nothing fetched, or was fetched for this request and entered at the time
  of the answer, with no other entry changed.\<close>

theorem served_rate_is_current:
  assumes "usd_price feed asset (cache, w) = (Returns (Ok p), cache', w')"
  shows "\<exists>micro t. cache' (canonical_key asset) = Some \<lparr>rt_micro = micro, rt_fetched_at = t\<rparr> \<and>
    price_num p * 1000000 = unat micro * price_den p \<and> 1 \<le> price_den p \<and>
    (cache' = cache \<and> w' = w \<and> elapsed (pf_now feed w) t < from_secs 60 \<or>
     fetch_from_coingecko feed asset w = (Ok micro, w') \<and> t = pf_now feed w' \<and>
     cache' = cache(canonical_key asset \<mapsto> \<lparr>rt_micro = micro, rt_fetched_at = t\<rparr>))"
proof -
  have price: "price_num p * 1000000 = unat micro * price_den p \<and> 1 \<le> price_den p"
    if "micro_price micro = Returns (Ok p)" for micro
    using micro_price_value [of micro] that by auto
  show ?thesis
  proof (cases "\<exists>e. cache (canonical_key asset) = Some e \<and> elapsed (pf_now feed w) (rt_fetched_at e) < RATE_TTL")
    case True
    then obtain e where "cache (canonical_key asset) = Some e" "elapsed (pf_now feed w) (rt_fetched_at e) < RATE_TTL"
      by blast
    with assms price show ?thesis
      by (intro exI [of _ "rt_micro e"] exI [of _ "rt_fetched_at e"]) (auto simp: usd_price_def Let_def RATE_TTL_def)
  next
    case False
    with assms price show ?thesis
      by (auto simp: usd_price_def Let_def split: option.splits if_splits prod.splits sum.splits)
  qed
qed

definition demo_feed :: "(unit, unit) price_feed" where
  "demo_feed = \<lparr>pf_get = (\<lambda>_ w. (Ok \<lparr>resp_status = 200, resp_json = Ok ()\<rparr>, w)), pf_status_text = dec_of_nat,
     pf_usd = (\<lambda>_ _. Some (1 / 8)), pf_rnd = (\<lambda>x. x), pf_now = (\<lambda>_. 7)\<rparr>"

theorem served_rate_is_current_witness:
  "\<exists>p cache. usd_price demo_feed (native_asset ''mainnet'') (rates_new, ()) = (Returns (Ok p), cache, ()) \<and>
     price_num p * 1000000 = 125000 * price_den p"
proof -
  have fetch: "fetch_from_coingecko demo_feed (native_asset ''mainnet'') () = (Ok 125000, ())"
  proof -
    have "coingecko_id (native_asset ''mainnet'') = Some ''stellar''" by code_simp
    moreover have "\<lfloor>250001 / 2 :: rat\<rfloor> = 125000" by (simp add: floor_eq_iff)
    ultimately show ?thesis
      by (simp add: fetch_from_coingecko_def demo_feed_def is_success_def to_micro_def round_half_away_def)
  qed
  obtain p where p: "micro_price 125000 = Returns (Ok p)" using micro_price_value by blast
  then have run: "usd_price demo_feed (native_asset ''mainnet'') (rates_new, ()) =
      (Returns (Ok p), rates_new(canonical_key (native_asset ''mainnet'') \<mapsto> \<lparr>rt_micro = 125000, rt_fetched_at = 7\<rparr>), ())"
    using fetch by (simp add: usd_price_def rates_new_def) (simp add: demo_feed_def)
  from served_rate_is_current [OF run] fetch have "price_num p * 1000000 = 125000 * price_den p" by auto
  with run show ?thesis by blast
qed

end
