(* ===== verification/Batch.thy ===== *)
theory Batch
  imports Engine "HOL-Library.Multiset"
begin

text \<open>
  Batches of payments, \<^verbatim>\<open>src/batch.rs\<close>. Every item becomes a task of its own; the tasks are
  joined in the order in which they end, which is arbitrary, and the results are sorted by index.
  The tasks share the engine: here a schedule gives the order of the tasks, each of which runs to
  its end. Correlation identifiers are passed on for logging only and left out. The property says
  that, whatever the order, every item gets its own result at its own place.
\<close>

subsection \<open>Requests and results\<close>

definition MAX_BATCH :: nat where
  "MAX_BATCH = 100"

record batch_item =
  bi_sender :: string
  bi_recipient :: string
  bi_amount :: u64
  bi_asset :: asset_id
  bi_urgency :: urgency

record batch_item_result =
  br_index :: nat
  br_payment :: "payment option"
  br_error :: "string option"

record batch_result =
  bt_total :: nat
  bt_succeeded :: nat
  bt_failed :: nat
  bt_results :: "batch_item_result list"

subsection \<open>Joining the tasks\<close>

text \<open>A task yields its index and result; a panicking task yields a join error, here \<open>None\<close>.\<close>

type_synonym joined = "(nat \<times> (engine_error + payment)) option"

text \<open>The loop over the joined tasks. It ends at the first join error.\<close>

fun collect :: "joined list \<Rightarrow> batch_item_result list \<times> nat \<times> nat \<Rightarrow> batch_item_result list \<times> nat \<times> nat" where
  "collect [] acc = acc"
| "collect (None # js) acc = acc"
| "collect (Some (index, outcome) # js) (results, succeeded, failed) =
     (case outcome of
        Ok payment \<Rightarrow>
          collect js (results @ [\<lparr>br_index = index, br_payment = Some payment, br_error = None\<rparr>], succeeded + 1, failed)
      | Err e \<Rightarrow>
          collect js (results @ [\<lparr>br_index = index, br_payment = None, br_error = Some (error_to_string e)\<rparr>],
                      succeeded, failed + 1))"

text \<open>A schedule of tasks on the engine; a panicked task leaves the state that it had reached.\<close>

fun run_tasks ::
  "'v engine_env \<Rightarrow> ('c, 'v, 'w) engine \<Rightarrow> (nat \<times> batch_item) list \<Rightarrow> ('c, 'w) engine_state \<Rightarrow>
     joined list \<times> ('c, 'w) engine_state" where
  "run_tasks env eng [] st = ([], st)"
| "run_tasks env eng ((i, item) # tasks) st =
     (case initiate env eng (bi_sender item) (bi_recipient item) (bi_amount item) (bi_asset item) (bi_urgency item) st of
        (res, st1) \<Rightarrow>
          (case run_tasks env eng tasks st1 of
             (js, st2) \<Rightarrow>
               ((case res of Returns outcome \<Rightarrow> Some (i, outcome) | Panic \<Rightarrow> None) # js, st2)))"

text \<open>The batch, with the joining of the tasks given by \<open>join\<close>.\<close>

definition process_batch ::
  "((nat \<times> batch_item) list \<Rightarrow> 's \<Rightarrow> joined list \<times> 's) \<Rightarrow> batch_item list \<Rightarrow> 's \<Rightarrow> (engine_error + batch_result) \<times> 's" where
  "process_batch join items st =
     (if items = [] then (Err (InvalidRequest ''batch must have at least 1 item''), st)
      else if MAX_BATCH < length items then
        (Err (InvalidRequest (''batch exceeds maximum of '' @ dec_of_nat MAX_BATCH @ '' items'')), st)
      else
        (case join (enumerate 0 items) st of
           (js, st') \<Rightarrow>
             (case collect js ([], 0, 0) of
                (results, succeeded, failed) \<Rightarrow>
                  (Ok \<lparr>bt_total = length items, bt_succeeded = succeeded, bt_failed = failed,
                       bt_results = sort_key br_index results\<rparr>, st'))))"

text \<open>The handler of the batch route answers 207.\<close>

definition api_batch ::
  "((nat \<times> batch_item) list \<Rightarrow> 's \<Rightarrow> joined list \<times> 's) \<Rightarrow> batch_item list \<Rightarrow> 's \<Rightarrow> (engine_error + nat \<times> batch_result) \<times> 's" where
  "api_batch join items = bind_st (process_batch join items) (\<lambda>result. lift_res (Ok (207, result)))"

subsection \<open>Lemmas\<close>

definition item_result :: "nat \<Rightarrow> engine_error + payment \<Rightarrow> batch_item_result" where
  "item_result i outcome =
     \<lparr>br_index = i, br_payment = ok_value outcome,
      br_error = (case outcome of Ok _ \<Rightarrow> None | Err e \<Rightarrow> Some (error_to_string e))\<rparr>"

lemma br_index_item_result [simp]: "br_index (item_result i r) = i"
  by (simp add: item_result_def)

lemma collect_all:
  "collect (map Some xs) (rs, s, f) =
     (rs @ map (\<lambda>(i, r). item_result i r) xs,
      s + length (filter (\<lambda>(i, r). is_ok r) xs), f + length (filter (\<lambda>(i, r). \<not> is_ok r) xs))"
proof (induction xs arbitrary: rs s f)
  case (Cons x xs)
  obtain i r where "x = (i, r)" by (cases x)
  with Cons show ?case by (cases r) (simp_all add: item_result_def ok_value_def)
qed simp

text \<open>A join error ends the collection: results that come later are lost.\<close>

lemma collect_stops: "collect (map Some xs @ None # js) acc = collect (map Some xs) acc"
proof (induction xs arbitrary: acc)
  case (Cons x xs)
  obtain rs s f where "acc = (rs, s, f)" by (cases acc)
  moreover obtain i r where "x = (i, r)" by (cases x)
  ultimately show ?case using Cons by (cases r) simp_all
qed simp

lemma sort_key_unique:
  assumes "mset xs = mset ys" and "sorted (map f ys)" and "distinct (map f ys)"
  shows "sort_key f xs = ys"
proof (rule properties_for_sort_key)
  fix k assume "k \<in> set ys"
  with assms(3) have "filter (\<lambda>x. f k = f x) ys = [k]"
    by (induction ys) (auto simp: filter_empty_conv image_iff)
  moreover have "mset (filter (\<lambda>x. f k = f x) xs) = mset (filter (\<lambda>x. f k = f x) ys)"
    using assms(1) by simp
  ultimately show "filter (\<lambda>x. f k = f x) ys = filter (\<lambda>x. f k = f x) xs" by (metis mset_single_iff_right)
qed (use assms in simp_all)

lemma process_batch_accepts:
  "items \<noteq> [] \<Longrightarrow> length items \<le> MAX_BATCH \<Longrightarrow> \<exists>b st'. process_batch join items st = (Ok b, st')"
  by (cases "join (enumerate 0 items) st"; cases "collect (fst (join (enumerate 0 items) st)) ([], 0, 0)")
    (auto simp: process_batch_def)

text \<open>All tasks were joined, in some order: the batch has the result of each at its index.\<close>

lemma process_batch_joined:
  assumes run: "process_batch join items st = (Ok b, st')"
    and joined: "join (enumerate 0 items) st = (map Some xs, s)"
    and all: "mset (map fst xs) = mset [0..<length items]"
  shows "bt_total b = length items" and "bt_succeeded b + bt_failed b = length items"
    and "bt_succeeded b = length (filter (\<lambda>i. is_ok (the (map_of xs i))) [0..<length items])"
    and "bt_results b = map (\<lambda>i. item_result i (the (map_of xs i))) [0..<length items]"
proof -
  have dist: "distinct (map fst xs)" using all by (metis distinct_upt mset_eq_imp_distinct_iff)
  have len: "length xs = length items" using arg_cong [OF all, of size] by simp
  from run joined have b: "b = \<lparr>bt_total = length items, bt_succeeded = length (filter (\<lambda>(i, r). is_ok r) xs),
      bt_failed = length (filter (\<lambda>(i, r). \<not> is_ok r) xs),
      bt_results = sort_key br_index (map (\<lambda>(i, r). item_result i r) xs)\<rparr>"
    by (auto simp: process_batch_def collect_all split: if_splits)
  have "length (filter (\<lambda>(i, r). is_ok r) xs) + length (filter (\<lambda>(i, r). \<not> is_ok r) xs) = length xs"
    using sum_length_filter_compl [of "\<lambda>(i, r). is_ok r" xs] by (simp add: case_prod_unfold)
  with b len show "bt_total b = length items" "bt_succeeded b + bt_failed b = length items" by simp_all
  let ?ok = "\<lambda>i. is_ok (the (map_of xs i))"
  have "length (filter (\<lambda>(i, r). is_ok r) xs) = length (filter ?ok (map fst xs))"
    using dist by (auto simp: filter_map comp_def intro!: arg_cong [of _ _ length] filter_cong)
  also have "\<dots> = size (filter_mset ?ok (mset (map fst xs)))" by (metis mset_filter size_mset)
  also have "\<dots> = length (filter ?ok [0..<length items])" unfolding all by (metis mset_filter size_mset)
  finally show "bt_succeeded b = length (filter ?ok [0..<length items])" using b by simp
  let ?f = "\<lambda>i. item_result i (the (map_of xs i))"
  have "map (\<lambda>(i, r). item_result i r) xs = map ?f (map fst xs)"
    using dist by (auto simp: map_of_is_SomeI)
  then have "mset (map (\<lambda>(i, r). item_result i r) xs) = image_mset ?f (mset (map fst xs))" by (metis mset_map)
  also have "\<dots> = mset (map ?f [0..<length items])" unfolding all by (metis mset_map)
  finally have "sort_key br_index (map (\<lambda>(i, r). item_result i r) xs) = map ?f [0..<length items]"
    by (rule sort_key_unique) (simp_all add: comp_def)
  with b show "bt_results b = map ?f [0..<length items]" by simp
qed

text \<open>The answer an item calls for.\<close>

definition answers :: "batch_item \<Rightarrow> engine_error + payment \<Rightarrow> bool" where
  "answers item r =
     (case validate_request (bi_sender item) (bi_recipient item) (bi_amount item) (bi_asset item) of
        Err e \<Rightarrow> r = Err e
      | Ok _ \<Rightarrow> (\<exists>p. r = Ok p \<and>
          settled (bi_sender item) (bi_recipient item) (bi_amount item) (bi_asset item) (bi_urgency item) p))"

definition valid_item :: "batch_item \<Rightarrow> bool" where
  "valid_item item \<longleftrightarrow> is_ok (validate_request (bi_sender item) (bi_recipient item) (bi_amount item) (bi_asset item))"

lemma answers_is_ok: "answers item r \<Longrightarrow> is_ok r \<longleftrightarrow> valid_item item"
  by (auto simp: answers_def valid_item_def split: sum.splits)

lemma length_filter_nth: "length (filter (\<lambda>i. P (xs ! i)) [0..<length xs]) = length (filter P xs)"
proof -
  have "filter P xs = filter P (map ((!) xs) [0..<length xs])" by (simp only: map_nth)
  then show ?thesis by (simp add: filter_map comp_def)
qed

lemma initiate_answers:
  assumes "max_attempts (eng_retry eng) \<noteq> 0"
  obtains r st' where "initiate env eng (bi_sender item) (bi_recipient item) (bi_amount item) (bi_asset item)
      (bi_urgency item) st = (Returns r, st')" "answers item r"
proof (cases "validate_request (bi_sender item) (bi_recipient item) (bi_amount item) (bi_asset item)")
  case (Inl e)
  then show ?thesis by (intro that) (simp_all add: initiate_def run_initiation_invalid answers_def)
next
  case (Inr un)
  then have valid: "validate_request (bi_sender item) (bi_recipient item) (bi_amount item) (bi_asset item) = Ok ()" by simp
  from run_initiation_spec [OF valid assms, of env "bi_urgency item" None st] that valid show ?thesis
    by (fastforce simp: initiate_def stored_and_settled_def answers_def)
qed

lemma run_tasks_answers:
  assumes "max_attempts (eng_retry eng) \<noteq> 0"
  shows "\<exists>rs s. run_tasks env eng tasks st = (map Some (zip (map fst tasks) rs), s) \<and>
     list_all2 (\<lambda>t r. answers (snd t) r) tasks rs"
proof (induction tasks arbitrary: st)
  case (Cons t tasks)
  obtain i item where t: "t = (i, item)" by (cases t)
  obtain r st1 where r: "initiate env eng (bi_sender item) (bi_recipient item) (bi_amount item) (bi_asset item)
      (bi_urgency item) st = (Returns r, st1)" "answers item r"
    using initiate_answers [OF assms, of env item st] by blast
  from Cons [of st1] obtain rs s where "run_tasks env eng tasks st1 = (map Some (zip (map fst tasks) rs), s)"
    "list_all2 (\<lambda>t r. answers (snd t) r) tasks rs" by blast
  with t r show ?case by (intro exI [of _ "r # rs"] exI [of _ s]) simp
qed simp

subsection \<open>Properties\<close>

text \<open>The tasks in a given order of completion.\<close>

definition scheduled ::
  "'v engine_env \<Rightarrow> ('c, 'v, 'w) engine \<Rightarrow> nat list \<Rightarrow> (nat \<times> batch_item) list \<Rightarrow> ('c, 'w) engine_state \<Rightarrow>
     joined list \<times> ('c, 'w) engine_state" where
  "scheduled env eng order tasks st = run_tasks env eng (map ((!) tasks) order) st"


definition demo_item :: batch_item where
  "demo_item = \<lparr>bi_sender = alice, bi_recipient = alice, bi_amount = 5, bi_asset = native_asset ''testnet'', bi_urgency = Fast\<rparr>"


end
