(* ===== verification/Redis_Claims.thy ===== *)
theory Redis_Claims
  imports Claim_Protocol Fingerprint
begin

text \<open>
  The durable claim store, \<open>RedisClaimStore\<close> of \<^verbatim>\<open>src/idempotency.rs\<close>: the three Lua
  scripts as functions on the server's key space, the Rust methods that invoke them over a
  connection that may fail before or after the script ran, and the interpretation of their
  replies. The server and the JSON codecs are not part of the repository: \<open>GET\<close> and
  \<open>SET ... PX\<close>, the \<open>cjson\<close> codec of the scripts and the response codec of \<open>serde_json\<close> are
  parameters, and the locale \<open>redis_server\<close> states what is used of them. From it follows the
  contract \<open>claim_store\<close>, and with it the exactly-once guarantee, for every interleaving and
  every pattern of connection failures.
\<close>

subsection \<open>The scripts\<close>

text \<open>
  The table a script works on. A field that is \<open>nil\<close> in Lua is \<open>None\<close>.
\<close>

record lua_claim =
  lua_fingerprint :: "string option"
  lua_owner :: "string option"
  lua_lease_expires_at_ms :: "int option"
  lua_created_at_ms :: "int option"
  lua_lifecycle :: "string option"
  lua_execution_ref :: "string option"
  lua_response :: "string option"

text \<open>
  The server: reading a key, writing it with an expiry in milliseconds (an error for an expiry
  the command refuses), and the codec of the stored text.
\<close>

record ('db, 'b) redis_api =
  r_get :: "'db \<Rightarrow> string \<Rightarrow> 'b option"
  r_set_px :: "'db \<Rightarrow> string \<Rightarrow> 'b \<Rightarrow> int \<Rightarrow> 'db option"
  cjson_encode :: "lua_claim \<Rightarrow> 'b"
  cjson_decode :: "'b \<Rightarrow> lua_claim option"

text \<open>
  A script returns its reply and the key space, or fails (\<open>None\<close>): undecodable data, a comparison
  with \<open>nil\<close>, a refused \<open>SET\<close>. A failing script of this kind has written nothing.
\<close>

definition claim_lua ::
    "('db, 'b) redis_api \<Rightarrow> 'db \<Rightarrow> string \<Rightarrow> string \<Rightarrow> string \<Rightarrow> int \<Rightarrow> int \<Rightarrow> int
       \<Rightarrow> (string list \<times> 'db) option" where
  "claim_lua api db key fp owner lease_ms ttl_ms now_ms =
     (case r_get api db key of
        None \<Rightarrow>
          let rec = \<lparr>lua_fingerprint = Some fp, lua_owner = Some owner,
                     lua_lease_expires_at_ms = Some (now_ms + lease_ms),
                     lua_created_at_ms = Some now_ms, lua_lifecycle = Some ''in_flight'',
                     lua_execution_ref = None, lua_response = None\<rparr> in
          map_option (\<lambda>db'. ([''claimed''], db')) (r_set_px api db key (cjson_encode api rec) ttl_ms)
      | Some raw \<Rightarrow>
          (case cjson_decode api raw of
             None \<Rightarrow> None
           | Some rec \<Rightarrow>
               if lua_fingerprint rec \<noteq> Some fp then Some ([''mismatch''], db)
               else if lua_lifecycle rec = Some ''completed'' then
                 Some (''replay'' # (case lua_response rec of Some r \<Rightarrow> [r] | None \<Rightarrow> []), db)
               else if lua_lifecycle rec = Some ''submitting'' then
                 Some (''awaiting'' # (case lua_execution_ref rec of Some r \<Rightarrow> [r] | None \<Rightarrow> []), db)
               else
                 (case lua_lease_expires_at_ms rec of
                    None \<Rightarrow> None
                  | Some expires \<Rightarrow>
                      if now_ms < expires then Some ([''in_flight''], db)
                      else
                        let rec' = rec\<lparr>lua_owner := Some owner,
                                       lua_lease_expires_at_ms := Some (now_ms + lease_ms)\<rparr> in
                        map_option (\<lambda>db'. ([''took_over''], db'))
                          (r_set_px api db key (cjson_encode api rec') ttl_ms))))"

definition mark_submitting_lua ::
    "('db, 'b) redis_api \<Rightarrow> 'db \<Rightarrow> string \<Rightarrow> string \<Rightarrow> string \<Rightarrow> int \<Rightarrow> int \<Rightarrow> int
       \<Rightarrow> (string list \<times> 'db) option" where
  "mark_submitting_lua api db key owner execution_ref lease_ms now_ms ttl_ms =
     (case r_get api db key of
        None \<Rightarrow> Some ([''gone''], db)
      | Some raw \<Rightarrow>
          (case cjson_decode api raw of
             None \<Rightarrow> None
           | Some rec \<Rightarrow>
               if lua_owner rec \<noteq> Some owner then Some ([''conflict''], db)
               else
                 let rec' = rec\<lparr>lua_lifecycle := Some ''submitting'',
                                lua_execution_ref := Some execution_ref,
                                lua_lease_expires_at_ms := Some (now_ms + lease_ms)\<rparr> in
                 map_option (\<lambda>db'. ([''ok''], db')) (r_set_px api db key (cjson_encode api rec') ttl_ms)))"

definition complete_lua ::
    "('db, 'b) redis_api \<Rightarrow> 'db \<Rightarrow> string \<Rightarrow> string \<Rightarrow> string \<Rightarrow> string \<Rightarrow> int
       \<Rightarrow> (string list \<times> 'db) option" where
  "complete_lua api db key owner response_json execution_ref ttl_ms =
     (case r_get api db key of
        None \<Rightarrow> Some ([''gone''], db)
      | Some raw \<Rightarrow>
          (case cjson_decode api raw of
             None \<Rightarrow> None
           | Some rec \<Rightarrow>
               if lua_owner rec \<noteq> Some owner then Some ([''conflict''], db)
               else
                 let rec1 = rec\<lparr>lua_lifecycle := Some ''completed'', lua_response := Some response_json\<rparr>;
                     rec' = (if execution_ref \<noteq> '''' then rec1\<lparr>lua_execution_ref := Some execution_ref\<rparr>
                             else rec1) in
                 map_option (\<lambda>db'. ([''ok''], db')) (r_set_px api db key (cjson_encode api rec') ttl_ms)))"

subsection \<open>The connection\<close>

text \<open>
  What happens to one invocation: it is delivered and answered, it never reaches the server, or
  the server runs it and the reply is lost. The failures to come are part of the state, so that
  a run is a function of it; once the list is used up, invocations are delivered.
\<close>

datatype link = Delivered | Not_sent string | Reply_lost string

record 'db redis_state =
  rs_db :: 'db
  rs_links :: "link list"
  rs_counters :: counters

fun next_link :: "link list \<Rightarrow> link" where
  "next_link [] = Delivered"
| "next_link (l # _) = l"

text \<open>\<open>invoke_async\<close>: the reply, or the description of the failure.\<close>

definition invoke_async ::
    "'db redis_state \<Rightarrow> ('db \<Rightarrow> (string list \<times> 'db) option) \<Rightarrow> (string + string list) \<times> 'db redis_state" where
  "invoke_async st script =
     (let st' = st\<lparr>rs_links := tl (rs_links st)\<rparr> in
      case next_link (rs_links st) of
        Not_sent e \<Rightarrow> (Err e, st')
      | Reply_lost e \<Rightarrow>
          (case script (rs_db st) of
             None \<Rightarrow> (Err e, st')
           | Some (_, db') \<Rightarrow> (Err e, st'\<lparr>rs_db := db'\<rparr>))
      | Delivered \<Rightarrow>
          (case script (rs_db st) of
             None \<Rightarrow> (Err ''script error'', st')
           | Some (parts, db') \<Rightarrow> (Ok parts, st'\<lparr>rs_db := db'\<rparr>)))"

definition redis_count :: "string \<Rightarrow> 'db redis_state \<Rightarrow> 'db redis_state" where
  "redis_count name st = st\<lparr>rs_counters := counter name (rs_counters st)\<rparr>"

definition store_failure :: "string \<Rightarrow> string \<Rightarrow> 'db redis_state \<Rightarrow> engine_error \<times> 'db redis_state" where
  "store_failure op e st =
     (Internal (''idempotency store '' @ op @ '' failed: '' @ e), redis_count STORE_FAILURES st)"

subsection \<open>The methods of the store\<close>

text \<open>\<open>lease.as_millis() as i64\<close>, and the same for a time to live of at least one.\<close>

definition millis_arg :: "duration \<Rightarrow> int" where
  "millis_arg d = sint (of_nat d :: i64)"

definition ttl_arg :: "duration \<Rightarrow> int" where
  "ttl_arg d = sint (of_nat (max d 1) :: i64)"

definition debug_opt :: "string option \<Rightarrow> string" where
  "debug_opt x = (case x of None \<Rightarrow> ''None'' | Some s \<Rightarrow> ''Some('' @ debug_str s @ '')'')"

definition first_part :: "string list \<Rightarrow> string option" where
  "first_part parts = (case parts of [] \<Rightarrow> None | p # _ \<Rightarrow> Some p)"

text \<open>The dispatch on the reply of the claim script; \<open>parse\<close> reads a stored response.\<close>

definition interpret_claim ::
    "(string \<Rightarrow> string + 'v) \<Rightarrow> string \<Rightarrow> string \<Rightarrow> string list \<Rightarrow> 'db redis_state
       \<Rightarrow> (engine_error + 'v claim_outcome) \<times> 'db redis_state" where
  "interpret_claim parse key owner parts st =
     (let token = \<lparr>ct_key = key, ct_owner = owner\<rparr>; tag = first_part parts in
      if tag = Some ''claimed'' then (Ok (Claimed token), redis_count CLAIMS st)
      else if tag = Some ''took_over'' then
        (Ok (TookOver token), redis_count STALE_LEASE_TAKEOVERS (redis_count CLAIMS st))
      else if tag = Some ''in_flight'' then (Ok Outcome_InFlight, st)
      else if tag = Some ''mismatch'' then (Err (Conflict reused_msg), redis_count CONFLICTS st)
      else if tag = Some ''awaiting'' then
        (Ok (AwaitingResult (if 1 < length parts then parts ! 1 else '''')), redis_count AWAITING_RESULT st)
      else if tag = Some ''replay'' then
        (case parse (if 1 < length parts then parts ! 1 else ''null'') of
           Err e \<Rightarrow> (Err (Internal (''stored idempotency response is corrupt: '' @ e)), redis_count REPLAYS st)
         | Ok response \<Rightarrow> (Ok (Replay response), redis_count REPLAYS st))
      else (Err (Internal (''unexpected idempotency claim result: '' @ debug_opt tag)), st))"

definition redis_claim ::
    "('db, 'b) redis_api \<Rightarrow> (string \<Rightarrow> string + 'v) \<Rightarrow> 'db redis_state \<Rightarrow> i64 \<Rightarrow> string \<Rightarrow> string \<Rightarrow> string
       \<Rightarrow> duration \<Rightarrow> duration \<Rightarrow> (engine_error + 'v claim_outcome) \<times> 'db redis_state" where
  "redis_claim api parse st now key fingerprint owner lease ttl =
     (case invoke_async st (\<lambda>db. claim_lua api db key fingerprint owner (millis_arg lease) (ttl_arg ttl) (sint now)) of
        (Err e, st') \<Rightarrow> (case store_failure ''claim'' e st' of (er, st'') \<Rightarrow> (Err er, st''))
      | (Ok parts, st') \<Rightarrow> interpret_claim parse key owner parts st')"

definition gone_msg :: string where
  "gone_msg = ''idempotency claim expired before it could be committed''"

definition interpret_write ::
    "string option \<Rightarrow> 'db redis_state \<Rightarrow> (engine_error + unit) \<times> 'db redis_state" where
  "interpret_write tag st =
     (if tag = Some ''ok'' then (Ok (), st)
      else if tag = Some ''conflict'' then (Err (Conflict taken_over_msg), redis_count CONFLICTS st)
      else if tag = Some ''gone'' then (Err (PreconditionFailed gone_msg), st)
      else (Err (Internal (''unexpected idempotency write result: '' @ debug_opt tag)), st))"

definition redis_mark_submitting ::
    "('db, 'b) redis_api \<Rightarrow> 'db redis_state \<Rightarrow> i64 \<Rightarrow> claim_token \<Rightarrow> string \<Rightarrow> duration \<Rightarrow> duration
       \<Rightarrow> (engine_error + unit) \<times> 'db redis_state" where
  "redis_mark_submitting api st now token execution_ref lease ttl =
     (case invoke_async st (\<lambda>db. mark_submitting_lua api db (ct_key token) (ct_owner token) execution_ref
                              (millis_arg lease) (sint now) (ttl_arg ttl)) of
        (Err e, st') \<Rightarrow> (case store_failure ''mark_submitting'' e st' of (er, st'') \<Rightarrow> (Err er, st''))
      | (Ok parts, st') \<Rightarrow> interpret_write (first_part parts) st')"

text \<open>\<open>print\<close> serialises the response.\<close>

definition redis_complete ::
    "('db, 'b) redis_api \<Rightarrow> ('v \<Rightarrow> string + string) \<Rightarrow> 'db redis_state \<Rightarrow> claim_token \<Rightarrow> 'v \<Rightarrow> string option
       \<Rightarrow> duration \<Rightarrow> (engine_error + unit) \<times> 'db redis_state" where
  "redis_complete api print st token response execution_ref ttl =
     (case print response of
        Err e \<Rightarrow> (Err (Internal (''cannot serialize idempotency response: '' @ e)), st)
      | Ok response_json \<Rightarrow>
          (case invoke_async st (\<lambda>db. complete_lua api db (ct_key token) (ct_owner token) response_json
                                   (case execution_ref of None \<Rightarrow> '''' | Some x \<Rightarrow> x) (ttl_arg ttl)) of
             (Err e, st') \<Rightarrow> (case store_failure ''complete'' e st' of (er, st'') \<Rightarrow> (Err er, st''))
           | (Ok parts, st') \<Rightarrow> interpret_write (first_part parts) st'))"

text \<open>\<open>PING\<close>: whether the next invocation is answered.\<close>

definition redis_ready :: "'db redis_state \<Rightarrow> bool \<times> 'db redis_state" where
  "redis_ready st = (next_link (rs_links st) = Delivered, st\<lparr>rs_links := tl (rs_links st)\<rparr>)"


subsection \<open>The records the server holds\<close>

definition lua_record :: "(string \<Rightarrow> string + 'v) \<Rightarrow> lua_claim \<Rightarrow> 'v claim_record option" where
  "lua_record parse rec =
     (case (lua_fingerprint rec, lua_owner rec, lua_lease_expires_at_ms rec, lua_created_at_ms rec) of
        (Some fp, Some owner, Some expires, Some created) \<Rightarrow>
          let r = (\<lambda>l. \<lparr>cr_fingerprint = fp, cr_owner = owner,
                       cr_lease_expires_at_ms = word_of_int expires,
                       cr_created_at_ms = word_of_int created, cr_lifecycle = l\<rparr>) in
          if lua_lifecycle rec = Some ''in_flight'' then Some (r InFlight)
          else if lua_lifecycle rec = Some ''submitting'' then
            map_option (\<lambda>e. r (Submitting e)) (lua_execution_ref rec)
          else if lua_lifecycle rec = Some ''completed'' then
            (case map_option parse (lua_response rec) of
               Some (Ok v) \<Rightarrow> Some (r (Completed v (lua_execution_ref rec)))
             | _ \<Rightarrow> None)
          else None
      | _ \<Rightarrow> None)"

definition db_view :: "('db, 'b) redis_api \<Rightarrow> (string \<Rightarrow> string + 'v) \<Rightarrow> 'db \<Rightarrow> string \<rightharpoonup> 'v claim_record" where
  "db_view api parse db k =
     Option.bind (r_get api db k) (\<lambda>raw. Option.bind (cjson_decode api raw) (lua_record parse))"

definition redis_view ::
    "('db, 'b) redis_api \<Rightarrow> (string \<Rightarrow> string + 'v) \<Rightarrow> 'db redis_state \<Rightarrow> string \<rightharpoonup> 'v claim_record" where
  "redis_view api parse st = db_view api parse (rs_db st)"

text \<open>Every stored value is a record the scripts wrote.\<close>

definition db_ok :: "('db, 'b) redis_api \<Rightarrow> (string \<Rightarrow> string + 'v) \<Rightarrow> 'db \<Rightarrow> bool" where
  "db_ok api parse db \<longleftrightarrow> (\<forall>k. r_get api db k \<noteq> None \<longrightarrow> db_view api parse db k \<noteq> None)"

definition redis_ok :: "('db, 'b) redis_api \<Rightarrow> (string \<Rightarrow> string + 'v) \<Rightarrow> 'db redis_state \<Rightarrow> bool" where
  "redis_ok api parse st = db_ok api parse (rs_db st)"

lemma lua_record_eq_Some:
  "lua_record parse rec = Some r \<longleftrightarrow>
     lua_fingerprint rec = Some (cr_fingerprint r) \<and> lua_owner rec = Some (cr_owner r) \<and>
     (\<exists>n. lua_lease_expires_at_ms rec = Some n \<and> cr_lease_expires_at_ms r = word_of_int n) \<and>
     (\<exists>n. lua_created_at_ms rec = Some n \<and> cr_created_at_ms r = word_of_int n) \<and>
     (case cr_lifecycle r of
        InFlight \<Rightarrow> lua_lifecycle rec = Some ''in_flight''
      | Submitting e \<Rightarrow> lua_lifecycle rec = Some ''submitting'' \<and> lua_execution_ref rec = Some e
      | Completed v x \<Rightarrow> lua_lifecycle rec = Some ''completed'' \<and> lua_execution_ref rec = x \<and>
          (\<exists>j. lua_response rec = Some j \<and> parse j = Ok v))"
  by (cases r) (auto simp: lua_record_def Let_def split: option.splits if_splits sum.splits
      claim_lifecycle.splits)

lemma invoke_async_cases:
  assumes "invoke_async st script = (res, st')"
  shows "rs_db st' = rs_db st \<and> (\<exists>e. res = Err e) \<or>
     (\<exists>parts. script (rs_db st) = Some (parts, rs_db st') \<and> (res = Ok parts \<or> (\<exists>e. res = Err e)))"
  using assms by (auto simp: invoke_async_def Let_def split: link.splits option.splits)

lemma redis_count_db [simp]: "rs_db (redis_count n st) = rs_db st"
  by (simp add: redis_count_def)

lemma interpret_claim_db [simp]: "rs_db (snd (interpret_claim parse key owner parts st)) = rs_db st"
  by (auto simp: interpret_claim_def Let_def split: sum.splits)

lemma interpret_write_db [simp]: "rs_db (snd (interpret_write tag st)) = rs_db st"
  by (auto simp: interpret_write_def)

lemma redis_claim_cases:
  assumes "redis_claim api parse st now key fp w lease ttl = (res, st')"
  shows "rs_db st' = rs_db st \<and> (\<exists>e. res = Err e) \<or>
     (\<exists>parts. claim_lua api (rs_db st) key fp w (millis_arg lease) (ttl_arg ttl) (sint now)
        = Some (parts, rs_db st') \<and>
        (res = fst (interpret_claim parse key w parts st) \<or> (\<exists>e. res = Err e)))"
proof -
  let ?script = "\<lambda>db. claim_lua api db key fp w (millis_arg lease) (ttl_arg ttl) (sint now)"
  obtain res1 st1 where inv: "invoke_async st ?script = (res1, st1)" by (cases "invoke_async st ?script")
  have "fst (interpret_claim parse key w parts st1) = fst (interpret_claim parse key w parts st)" for parts
    by (auto simp: interpret_claim_def Let_def split: sum.splits)
  with invoke_async_cases [OF inv] assms inv show ?thesis
    by (cases res1) (auto simp: redis_claim_def store_failure_def prod_eq_iff)
qed

lemma redis_write_cases:
  assumes "(case invoke_async st script of
        (Err e, st') \<Rightarrow> (case store_failure op e st' of (er, st'') \<Rightarrow> (Err er, st''))
      | (Ok parts, st') \<Rightarrow> interpret_write (first_part parts) st') = (res, st')"
  shows "rs_db st' = rs_db st \<and> (\<exists>e. res = Err e) \<or>
     (\<exists>parts. script (rs_db st) = Some (parts, rs_db st') \<and>
        (res = Ok () \<longrightarrow> first_part parts = Some ''ok''))"
proof -
  obtain res1 st1 where inv: "invoke_async st script = (res1, st1)" by (cases "invoke_async st script")
  have ok: "fst (interpret_write tag st1) = Ok () \<Longrightarrow> tag = Some ''ok''" for tag
    by (auto simp: interpret_write_def split: if_splits)
  have db: "rs_db (snd (interpret_write tag st1)) = rs_db st1" for tag by simp
  from invoke_async_cases [OF inv] assms inv show ?thesis
    using ok db by (cases res1) (fastforce simp: store_failure_def prod_eq_iff)+
qed

subsection \<open>The contract of the server, and of the store over it\<close>

text \<open>
  What is used of the server and of the codecs: a write
  that succeeds is read back and touches no other key; text fields survive the codec, numbers
  stay numbers (they may be rounded: Lua numbers are doubles and are printed with fourteen
  digits); a response that was serialised is parsed back to itself.
\<close>

locale redis_server =
  fixes api :: "('db, 'b) redis_api"
    and parse :: "string \<Rightarrow> string + 'v"
    and print :: "'v \<Rightarrow> string + string"
  assumes get_set: "r_set_px api db k b px = Some db' \<Longrightarrow> r_get api db' = (r_get api db)(k \<mapsto> b)"
    and codec: "\<exists>n. cjson_decode api (cjson_encode api rec) =
        Some (rec\<lparr>lua_lease_expires_at_ms := map_option n (lua_lease_expires_at_ms rec),
                  lua_created_at_ms := map_option n (lua_created_at_ms rec)\<rparr>)"
    and parse_print: "print v = Ok j \<Longrightarrow> parse j = Ok v"
begin

abbreviation view :: "'db \<Rightarrow> string \<rightharpoonup> 'v claim_record" where
  "view \<equiv> db_view api parse"

lemma view_set:
  assumes "r_set_px api db k (cjson_encode api rec) px = Some db'" and "lua_record parse rec = Some r"
  obtains r' where "view db' = (view db)(k \<mapsto> r')" "cr_fingerprint r' = cr_fingerprint r"
    "cr_owner r' = cr_owner r" "cr_lifecycle r' = cr_lifecycle r"
proof -
  obtain n where n: "cjson_decode api (cjson_encode api rec) =
      Some (rec\<lparr>lua_lease_expires_at_ms := map_option n (lua_lease_expires_at_ms rec),
                lua_created_at_ms := map_option n (lua_created_at_ms rec)\<rparr>)" (is "_ = Some ?rec")
    using codec by blast
  obtain a b where ab: "lua_lease_expires_at_ms rec = Some a" "lua_created_at_ms rec = Some b"
    using assms(2) by (auto simp: lua_record_eq_Some)
  define r' where "r' = r\<lparr>cr_lease_expires_at_ms := word_of_int (n a), cr_created_at_ms := word_of_int (n b)\<rparr>"
  have "lua_record parse ?rec = Some r'"
    using assms(2) ab by (cases "cr_lifecycle r") (simp_all add: lua_record_eq_Some r'_def)
  then have "view db' = (view db)(k \<mapsto> r')"
    using n get_set [OF assms(1)] by (auto simp: db_view_def fun_eq_iff)
  then show thesis by (rule that) (simp_all add: r'_def)
qed

lemma ok_set:
  assumes "db_ok api parse db" and "r_set_px api db k (cjson_encode api rec) px = Some db'"
    and "lua_record parse rec = Some r"
  shows "db_ok api parse db'"
proof -
  obtain r' where "view db' = (view db)(k \<mapsto> r')" using view_set [OF assms(2,3)] by blast
  with get_set [OF assms(2)] assms(1) show ?thesis by (simp add: db_ok_def)
qed

lemma stored:
  assumes "db_ok api parse db" and "r_get api db k = Some raw" and "cjson_decode api raw = Some rec"
  obtains r where "lua_record parse rec = Some r" "view db k = Some r"
  using assms by (fastforce simp: db_ok_def db_view_def)

lemma undecodable:
  assumes "db_ok api parse db" and "r_get api db k = Some raw"
  shows "cjson_decode api raw \<noteq> None"
proof
  assume "cjson_decode api raw = None"
  with assms(2) have "view db k = None" by (simp add: db_view_def)
  with assms show False by (auto simp: db_ok_def)
qed

lemma claim_lua_effect:
  assumes ok: "db_ok api parse db"
    and run: "claim_lua api db k fp w lease ttl now = Some (parts, db')"
  shows "db_ok api parse db' \<and>
     (db' = db \<and> first_part parts \<notin> {Some ''claimed'', Some ''took_over''} \<or>
      claim_granted view db k fp w db' \<and> parts \<in> {[''claimed''], [''took_over'']})"
proof (cases "r_get api db k")
  case None
  let ?rec = "\<lparr>lua_fingerprint = Some fp, lua_owner = Some w,
      lua_lease_expires_at_ms = Some (now + lease), lua_created_at_ms = Some now,
      lua_lifecycle = Some ''in_flight'', lua_execution_ref = None, lua_response = None\<rparr>"
  let ?r = "\<lparr>cr_fingerprint = fp, cr_owner = w, cr_lease_expires_at_ms = word_of_int (now + lease),
      cr_created_at_ms = word_of_int now, cr_lifecycle = InFlight\<rparr>"
  from None run have set: "r_set_px api db k (cjson_encode api ?rec) ttl = Some db'" "parts = [''claimed'']"
    by (auto simp: claim_lua_def)
  have rec: "lua_record parse ?rec = Some ?r" by (simp add: lua_record_eq_Some)
  have "view db k = None" using None by (simp add: db_view_def)
  then have "claim_granted view db k fp w db'"
    using view_set [OF set(1) rec] by (auto simp: claim_granted_def)
  with ok_set [OF ok set(1) rec] set(2) show ?thesis by simp
next
  case (Some raw)
  with undecodable [OF ok] obtain rec where dec: "cjson_decode api raw = Some rec" by blast
  obtain r where r: "lua_record parse rec = Some r" "view db k = Some r"
    using stored [OF ok Some dec] by blast
  let ?rec = "rec\<lparr>lua_owner := Some w, lua_lease_expires_at_ms := Some (now + lease)\<rparr>"
  consider "db' = db" "first_part parts \<notin> {Some ''claimed'', Some ''took_over''}"
    | "lua_fingerprint rec = Some fp" "lua_lifecycle rec \<noteq> Some ''completed''"
      "lua_lifecycle rec \<noteq> Some ''submitting''"
      "r_set_px api db k (cjson_encode api ?rec) ttl = Some db'" "parts = [''took_over'']"
    using run Some dec
    by (auto simp: claim_lua_def first_part_def split: if_splits option.splits)
  then show ?thesis
  proof cases
    case 1
    with ok show ?thesis by blast
  next
    case 2
    let ?r = "r\<lparr>cr_owner := w, cr_lease_expires_at_ms := word_of_int (now + lease)\<rparr>"
    have old: "cr_fingerprint r = fp" "cr_lifecycle r = InFlight"
      using r(1) 2(1-3) by (auto simp: lua_record_eq_Some split: claim_lifecycle.splits)
    have rec: "lua_record parse ?rec = Some ?r"
      using r(1) old by (simp add: lua_record_eq_Some)
    have "claim_granted view db k fp w db'"
      using view_set [OF 2(4) rec] old r(2) by (auto simp: claim_granted_def)
    with ok_set [OF ok 2(4) rec] 2(5) show ?thesis by simp
  qed
qed

lemma claim_lua_completed:
  assumes ok: "db_ok api parse db" and r: "view db k = Some r" "cr_fingerprint r = fp"
      "cr_lifecycle r = Completed v x"
  shows "\<exists>j. claim_lua api db k fp w lease ttl now = Some ([''replay'', j], db) \<and> parse j = Ok v"
  using r by (auto simp: db_view_def bind_eq_Some_conv lua_record_eq_Some claim_lua_def)

lemma write_lua_effect:
  assumes ok: "db_ok api parse db" and get: "r_get api db k = Some raw"
    and dec: "cjson_decode api raw = Some rec" "lua_owner rec = Some (ct_owner t)" "k = ct_key t"
    and set: "r_set_px api db k (cjson_encode api rec') px = Some db'"
    and rec': "lua_fingerprint rec' = lua_fingerprint rec" "lua_owner rec' = lua_owner rec"
      "lua_record parse rec' = Some r'" "stage (cr_lifecycle r')"
  shows "db_ok api parse db' \<and> claim_advanced view db t stage db'"
proof -
  obtain r where r: "lua_record parse rec = Some r" "view db k = Some r"
    using stored [OF ok get dec(1)] by blast
  have same: "cr_fingerprint r' = cr_fingerprint r" "cr_owner r' = cr_owner r" "cr_owner r = ct_owner t"
    using r(1) rec' dec(2) by (auto simp: lua_record_eq_Some)
  obtain r2 where "view db' = (view db)(k \<mapsto> r2)" "cr_fingerprint r2 = cr_fingerprint r'"
      "cr_owner r2 = cr_owner r'" "cr_lifecycle r2 = cr_lifecycle r'"
    using view_set [OF set rec'(3)] by blast
  with same r(2) rec'(4) dec(3) have "claim_advanced view db t stage db'"
    unfolding claim_advanced_def by (intro exI [of _ r] exI [of _ r2]) simp
  with ok_set [OF ok set rec'(3)] show ?thesis by simp
qed

lemma mark_submitting_lua_effect:
  assumes ok: "db_ok api parse db"
    and run: "mark_submitting_lua api db (ct_key t) (ct_owner t) e lease now ttl = Some (parts, db')"
  shows "db_ok api parse db' \<and>
     (db' = db \<and> first_part parts \<noteq> Some ''ok'' \<or> claim_advanced view db t (is_submitting e) db')"
proof (cases "db' = db \<and> first_part parts \<noteq> Some ''ok''")
  case False
  with run obtain raw rec where rec: "r_get api db (ct_key t) = Some raw" "cjson_decode api raw = Some rec"
      "lua_owner rec = Some (ct_owner t)"
      and set: "r_set_px api db (ct_key t) (cjson_encode api (rec\<lparr>lua_lifecycle := Some ''submitting'',
         lua_execution_ref := Some e, lua_lease_expires_at_ms := Some (now + lease)\<rparr>)) ttl = Some db'"
    by (auto simp: mark_submitting_lua_def first_part_def Let_def split: option.splits if_splits)
  obtain r where r: "lua_record parse rec = Some r" using stored [OF ok rec(1,2)] by blast
  have "lua_record parse (rec\<lparr>lua_lifecycle := Some ''submitting'', lua_execution_ref := Some e,
      lua_lease_expires_at_ms := Some (now + lease)\<rparr>) =
      Some (r\<lparr>cr_lifecycle := Submitting e, cr_lease_expires_at_ms := word_of_int (now + lease)\<rparr>)"
    using r by (simp add: lua_record_eq_Some)
  from write_lua_effect [OF ok rec refl set _ _ this, of "is_submitting e"]
  show ?thesis by (simp add: is_submitting_def)
qed (use ok in auto)

lemma complete_lua_effect:
  assumes ok: "db_ok api parse db" and j: "parse j = Ok v"
    and run: "complete_lua api db (ct_key t) (ct_owner t) j e ttl = Some (parts, db')"
  shows "db_ok api parse db' \<and>
     (db' = db \<and> first_part parts \<noteq> Some ''ok'' \<or> claim_advanced view db t (is_completed v) db')"
proof (cases "db' = db \<and> first_part parts \<noteq> Some ''ok''")
  case False
  define upd where "upd rec = (let rec1 = rec\<lparr>lua_lifecycle := Some ''completed'', lua_response := Some j\<rparr> in
      if e \<noteq> '''' then rec1\<lparr>lua_execution_ref := Some e\<rparr> else rec1)" for rec :: lua_claim
  from False run obtain raw rec where rec: "r_get api db (ct_key t) = Some raw" "cjson_decode api raw = Some rec"
      "lua_owner rec = Some (ct_owner t)"
      and set: "r_set_px api db (ct_key t) (cjson_encode api (upd rec)) ttl = Some db'"
    by (auto simp: complete_lua_def upd_def first_part_def Let_def split: option.splits if_splits)
  obtain r where r: "lua_record parse rec = Some r" using stored [OF ok rec(1,2)] by blast
  have "lua_record parse (upd rec) = Some (r\<lparr>cr_lifecycle := Completed v (lua_execution_ref (upd rec))\<rparr>)"
    using r j by (simp add: lua_record_eq_Some upd_def Let_def)
  from write_lua_effect [OF ok rec refl set _ _ this, of "is_completed v"]
  show ?thesis by (simp add: is_completed_def upd_def Let_def)
qed (use ok in auto)

end

text \<open>A write that ran a script with a known effect, or did not reach the server.\<close>

lemma redis_write_effect:
  assumes "rs_db st' = rs_db st \<and> (\<exists>e. res = Err e) \<or>
     (\<exists>parts. script (rs_db st) = Some (parts, rs_db st') \<and>
        (res = Ok () \<longrightarrow> first_part parts = Some ''ok''))"
    and "\<And>parts db'. script (rs_db st) = Some (parts, db') \<Longrightarrow> db_ok api parse db' \<and>
     (db' = rs_db st \<and> first_part parts \<noteq> Some ''ok'' \<or>
      claim_advanced (db_view api parse) (rs_db st) t stage db')"
    and "redis_ok api parse st"
  shows "redis_ok api parse st' \<and>
     (redis_view api parse st' = redis_view api parse st \<and> res \<noteq> Ok () \<or>
      claim_advanced (redis_view api parse) st t stage st')"
  using assms(1)
proof (elim disjE exE conjE)
  fix parts assume run: "script (rs_db st) = Some (parts, rs_db st')"
    and "res = Ok () \<longrightarrow> first_part parts = Some ''ok''"
  with assms(2) [OF run] show ?thesis
    by (auto simp: redis_ok_def redis_view_def claim_advanced_def)
qed (use assms(3) in \<open>simp add: redis_ok_def redis_view_def\<close>)

context redis_server
begin

lemma redis_claim_effect:
  assumes ok: "redis_ok api parse st"
    and run: "redis_claim api parse st now k fp w lease ttl = (res, st')"
  shows "redis_ok api parse st' \<and>
     (redis_view api parse st' = redis_view api parse st \<and> (\<forall>t. after_claim res \<noteq> Holding t) \<or>
      claim_granted (redis_view api parse) st k fp w st' \<and>
        (\<forall>t. after_claim res = Holding t \<longrightarrow> t = \<lparr>ct_key = k, ct_owner = w\<rparr>))"
proof -
  have token: "after_claim (fst (interpret_claim parse k w parts st)) = Holding t \<Longrightarrow>
      t = \<lparr>ct_key = k, ct_owner = w\<rparr> \<and> first_part parts \<in> {Some ''claimed'', Some ''took_over''}" for parts t
    by (auto simp: interpret_claim_def Let_def split: if_splits sum.splits)
  from redis_claim_cases [OF run] show ?thesis
  proof (elim disjE exE conjE)
    fix e assume "rs_db st' = rs_db st" "res = Err e"
    with ok show ?thesis by (simp add: redis_ok_def redis_view_def)
  next
    fix parts
    assume lua: "claim_lua api (rs_db st) k fp w (millis_arg lease) (ttl_arg ttl) (sint now) = Some (parts, rs_db st')"
      and "res = fst (interpret_claim parse k w parts st)"
    with claim_lua_effect [OF _ lua] ok token [of parts]
    show ?thesis by (auto simp: redis_ok_def redis_view_def claim_granted_def)
  next
    fix parts e
    assume lua: "claim_lua api (rs_db st) k fp w (millis_arg lease) (ttl_arg ttl) (sint now) = Some (parts, rs_db st')"
      and "res = Err e"
    with claim_lua_effect [OF _ lua] ok
    show ?thesis by (auto simp: redis_ok_def redis_view_def claim_granted_def)
  qed
qed

lemma redis_mark_effect:
  assumes ok: "redis_ok api parse st"
    and run: "redis_mark_submitting api st now t e lease ttl = (res, st')"
  shows "redis_ok api parse st' \<and>
     (redis_view api parse st' = redis_view api parse st \<and> res \<noteq> Ok () \<or>
      claim_advanced (redis_view api parse) st t (is_submitting e) st')"
  by (rule redis_write_effect [where script = "\<lambda>db. mark_submitting_lua api db (ct_key t) (ct_owner t) e
        (millis_arg lease) (sint now) (ttl_arg ttl)",
        OF redis_write_cases [OF run [unfolded redis_mark_submitting_def]] _ ok])
    (rule mark_submitting_lua_effect, use ok in \<open>simp_all add: redis_ok_def\<close>)

lemma redis_complete_effect:
  assumes ok: "redis_ok api parse st"
    and run: "redis_complete api print st t v x ttl = (res, st')"
  shows "redis_ok api parse st' \<and>
     (redis_view api parse st' = redis_view api parse st \<and> res \<noteq> Ok () \<or>
      claim_advanced (redis_view api parse) st t (is_completed v) st')"
proof (cases "print v")
  case (Inl er)
  with run ok show ?thesis by (auto simp: redis_complete_def)
next
  case (Inr j)
  show ?thesis
    by (rule redis_write_effect [where script = "\<lambda>db. complete_lua api db (ct_key t) (ct_owner t) j
          (case x of None \<Rightarrow> [] | Some x \<Rightarrow> x) (ttl_arg ttl)",
          OF redis_write_cases [OF run [unfolded redis_complete_def Inr sum.case]] _ ok])
      (rule complete_lua_effect, use ok parse_print [OF Inr] in \<open>simp_all add: redis_ok_def\<close>)
qed

lemma redis_claim_completed:
  assumes ok: "redis_ok api parse st" and r: "redis_view api parse st k = Some r" "cr_fingerprint r = fp"
      "cr_lifecycle r = Completed v x"
    and out: "fst (redis_claim api parse st now k fp w lease ttl) = Ok out"
  shows "out = Replay v"
proof -
  obtain j where j: "claim_lua api (rs_db st) k fp w (millis_arg lease) (ttl_arg ttl) (sint now) =
      Some ([''replay'', j], rs_db st)" "parse j = Ok v"
    using claim_lua_completed [of "rs_db st" k r fp v x w "millis_arg lease" "ttl_arg ttl" "sint now"] ok r
    by (auto simp: redis_ok_def redis_view_def)
  have "fst (interpret_claim parse k w [''replay'', j] st) = Ok (Replay v)"
    by (simp add: interpret_claim_def first_part_def j(2))
  with redis_claim_cases [OF prod.collapse [symmetric], of api parse st now k fp w lease ttl] out j(1)
  show ?thesis by auto
qed

end

sublocale redis_server \<subseteq> durable: claim_store "redis_claim api parse" "redis_mark_submitting api"
    "redis_complete api print" "redis_view api parse" "redis_ok api parse"
proof unfold_locales
  fix s now k fp w lease ttl
  show "redis_ok api parse s \<Longrightarrow> redis_ok api parse (snd (redis_claim api parse s now k fp w lease ttl))"
    using redis_claim_effect [OF _ prod.collapse [symmetric]] by blast
next
  fix s now t e lease ttl
  show "redis_ok api parse s \<Longrightarrow> redis_ok api parse (snd (redis_mark_submitting api s now t e lease ttl))"
    using redis_mark_effect [OF _ prod.collapse [symmetric]] by blast
next
  fix s t v x ttl
  show "redis_ok api parse s \<Longrightarrow> redis_ok api parse (snd (redis_complete api print s t v x ttl))"
    using redis_complete_effect [OF _ prod.collapse [symmetric]] by blast
qed (blast dest: redis_claim_effect redis_mark_effect redis_complete_effect redis_claim_completed)+

context redis_server
begin

lemmas at_most_one_submission = durable.at_most_one_submission
lemmas committed_is_replayed = durable.committed_is_replayed

end

subsection \<open>Refinement of the in-memory store\<close>

text \<open>
  A server that prints numbers exactly, accepts every positive expiry, and holds leases in the
  range of a 64-bit integer.
\<close>

definition exact_server :: "('db, 'b) redis_api \<Rightarrow> 'db \<Rightarrow> bool" where
  "exact_server api db \<longleftrightarrow>
     (\<forall>rec. cjson_decode api (cjson_encode api rec) = Some rec) \<and>
     (\<forall>db k b px. 0 < px \<longrightarrow> r_set_px api db k b px \<noteq> None) \<and>
     (\<forall>k raw rec n. r_get api db k = Some raw \<longrightarrow> cjson_decode api raw = Some rec \<longrightarrow>
        lua_lease_expires_at_ms rec = Some n \<longrightarrow> sint (word_of_int n :: i64) = n)"

lemma lease_words: "word_of_int (millis_arg lease) = (of_nat lease :: i64)"
  by (simp add: millis_arg_def)

context redis_server
begin

lemma exact_set:
  assumes "exact_server api db" and "0 < px" and "lua_record parse rec = Some r"
  obtains db' where "r_set_px api db k (cjson_encode api rec) px = Some db'" "view db' = (view db)(k \<mapsto> r)"
proof -
  obtain db' where db': "r_set_px api db k (cjson_encode api rec) px = Some db'"
    using assms(1,2) unfolding exact_server_def by (meson not_None_eq)
  then have "view db' = (view db)(k \<mapsto> r)"
    using assms get_set [OF db'] by (auto simp: db_view_def fun_eq_iff exact_server_def)
  with db' show thesis by (rule that)
qed

lemma delivered_claim:
  assumes "next_link (rs_links st) = Delivered"
    and "claim_lua api (rs_db st) k fp w (millis_arg lease) (ttl_arg ttl) (sint now) = Some (parts, db')"
  shows "redis_claim api parse st now k fp w lease ttl =
     interpret_claim parse k w parts (st\<lparr>rs_links := tl (rs_links st), rs_db := db'\<rparr>)"
  using assms by (simp add: redis_claim_def invoke_async_def Let_def)

definition same_claim ::
    "(engine_error + 'v claim_outcome) \<times> 'db redis_state \<Rightarrow>
     (engine_error + 'v claim_outcome) \<times> 'v claim_state \<Rightarrow> bool" where
  "same_claim a b \<longleftrightarrow> fst a = fst b \<and> redis_view api parse (snd a) = cs_records (snd b)
     \<and> rs_counters (snd a) = cs_counters (snd b)"

lemma claim_refines:
  assumes ok: "redis_ok api parse st" and link: "next_link (rs_links st) = Delivered"
    and exact: "exact_server api (rs_db st)" and ttl: "0 < ttl_arg ttl"
    and m: "cs_records m = redis_view api parse st" "cs_counters m = rs_counters st"
  shows "same_claim (redis_claim api parse st now k fp w lease ttl) (memory_claim m now k fp w lease ttl)"
proof (cases "r_get api (rs_db st) k")
  case None
  let ?rec = "\<lparr>lua_fingerprint = Some fp, lua_owner = Some w,
      lua_lease_expires_at_ms = Some (sint now + millis_arg lease), lua_created_at_ms = Some (sint now),
      lua_lifecycle = Some ''in_flight'', lua_execution_ref = None, lua_response = None\<rparr>"
  have rec: "lua_record parse ?rec = Some (new_in_flight now fp w lease)"
    by (simp add: lua_record_eq_Some new_in_flight_def lease_words)
  obtain db' where db': "r_set_px api (rs_db st) k (cjson_encode api ?rec) (ttl_arg ttl) = Some db'"
      "view db' = (view (rs_db st))(k \<mapsto> new_in_flight now fp w lease)"
    using exact_set [OF exact ttl rec] by blast
  have "cs_records m k = None" using None m by (simp add: redis_view_def db_view_def)
  with m db' None delivered_claim [OF link, of k fp w lease ttl now "[''claimed'']" db'] show ?thesis
    by (simp add: same_claim_def claim_lua_def interpret_claim_def first_part_def memory_claim_def
        redis_view_def redis_count_def)
next
  case (Some raw)
  have db: "db_ok api parse (rs_db st)" using ok by (simp add: redis_ok_def)
  with undecodable [OF _ Some] obtain rec where dec: "cjson_decode api raw = Some rec" by blast
  obtain r where r: "lua_record parse rec = Some r" "view (rs_db st) k = Some r"
    using stored [OF db Some dec] by blast
  obtain n where n: "lua_lease_expires_at_ms rec = Some n" "cr_lease_expires_at_ms r = word_of_int n"
    using r(1) by (auto simp: lua_record_eq_Some)
  have sint_n: "sint (cr_lease_expires_at_ms r) = n"
    using exact Some dec n by (auto simp: exact_server_def)
  have mk: "cs_records m k = Some r" using m r by (simp add: redis_view_def)
  note simps = same_claim_def claim_lua_def interpret_claim_def first_part_def memory_claim_def
    redis_view_def redis_count_def Some dec mk m r(2)
  note call = delivered_claim [OF link, of k fp w lease ttl now]
  show ?thesis
  proof (cases "cr_fingerprint r = fp")
    case False
    with r(1) call [of "[''mismatch'']" "rs_db st"] show ?thesis by (simp add: lua_record_eq_Some simps)
  next
    case fp: True
    show ?thesis
    proof (cases "cr_lifecycle r")
      case (Completed v x)
      with r(1) obtain j where "lua_response rec = Some j" "parse j = Ok v" by (auto simp: lua_record_eq_Some)
      with r(1) Completed fp call [of "[''replay'', j]" "rs_db st"] show ?thesis
        by (simp add: lua_record_eq_Some simps)
    next
      case (Submitting e)
      with r(1) fp call [of "[''awaiting'', e]" "rs_db st"] show ?thesis
        by (simp add: lua_record_eq_Some simps)
    next
      case InFlight
      show ?thesis
      proof (cases "sint now < n")
        case True
        with r(1) n InFlight fp sint_n call [of "[''in_flight'']" "rs_db st"] show ?thesis
          by (simp add: lua_record_eq_Some simps lease_expired_def)
      next
        case False
        let ?rec = "rec\<lparr>lua_owner := Some w, lua_lease_expires_at_ms := Some (sint now + millis_arg lease)\<rparr>"
        let ?r = "r\<lparr>cr_owner := w, cr_lease_expires_at_ms := now + of_nat lease\<rparr>"
        have "lua_record parse ?rec = Some ?r"
          using r(1) InFlight by (simp add: lua_record_eq_Some lease_words)
        from exact_set [OF exact ttl this] obtain db'
          where db': "r_set_px api (rs_db st) k (cjson_encode api ?rec) (ttl_arg ttl) = Some db'"
            "view db' = (view (rs_db st))(k \<mapsto> ?r)" by blast
        with False r(1) n InFlight fp sint_n call [of "[''took_over'']" db'] show ?thesis
          by (simp add: lua_record_eq_Some simps lease_expired_def)
      qed
    qed
  qed
qed

end

subsection \<open>A concrete server\<close>

text \<open>
  A key space as a map from keys to tables, used to run the scripts on concrete inputs; it
  refuses expiries that are not positive, and responses are kept as they are.
\<close>

definition map_server :: "(string \<rightharpoonup> lua_claim, lua_claim) redis_api" where
  "map_server = \<lparr>r_get = (\<lambda>db. db), r_set_px = (\<lambda>db k b px. if 0 < px then Some (db(k \<mapsto> b)) else None),
     cjson_encode = (\<lambda>rec. rec), cjson_decode = Some\<rparr>"

definition text_codec :: "string \<Rightarrow> string + string" where
  "text_codec s = Ok s"

interpretation map_server: redis_server map_server text_codec text_codec
proof unfold_locales
  show "\<exists>n. cjson_decode map_server (cjson_encode map_server rec) =
      Some (rec\<lparr>lua_lease_expires_at_ms := map_option n (lua_lease_expires_at_ms rec),
                lua_created_at_ms := map_option n (lua_created_at_ms rec)\<rparr>)" for rec
    by (intro exI [of _ "\<lambda>x. x"]) (simp add: map_server_def option.map_ident)
qed (auto simp: map_server_def text_codec_def split: if_splits)

definition fresh_server :: "link list \<Rightarrow> (string \<rightharpoonup> lua_claim) redis_state" where
  "fresh_server links = \<lparr>rs_db = Map.empty, rs_links = links, rs_counters = no_counters\<rparr>"

lemma empty_server_ok:
  assumes "r_get api (rs_db st) = Map.empty"
  shows "redis_ok api parse st" and "redis_view api parse st = Map.empty"
  using assms by (auto simp: redis_ok_def db_ok_def redis_view_def db_view_def fun_eq_iff)

subsection \<open>Properties\<close>



text \<open>
  A run over a lossy connection: the reply to the claim of \<open>a\<close> is lost, \<open>b\<close> takes over the expired
  lease and submits, its commit does not reach the server, and \<open>c\<close> is told to wait.
\<close>

definition lossy_race :: "(string \<rightharpoonup> lua_claim) redis_state system" where
  "lossy_race = run_schedule (redis_claim map_server text_codec) (redis_mark_submitting map_server)
     (redis_complete map_server text_codec)
     [Do_claim ''a'' 0 ''k'' ''fp'' 10 100, Do_claim ''b'' 50 ''k'' ''fp'' 10 100,
      Do_submit ''b'' 51 ''tx'' 10 100, Do_complete ''b'' ''done'' None 100,
      Do_claim ''c'' 99 ''k'' ''fp'' 10 100, Do_submit ''c'' 99 ''tx3'' 10 100]
     (initial_system (fresh_server [Reply_lost ''io'', Delivered, Delivered, Not_sent ''io'']))"

lemma lossy_race_submits: "sys_submitted lossy_race = [(''k'', ''b'')]"
  by code_simp


text \<open>
  As long as no record expires: once a commit is acknowledged, every later claim of the key with the same
  fingerprint that is answered at all replays exactly that response, whatever happened in
  between.\<close>

lemma redis_committed_response_replayed:
  assumes "redis_server api parse print"
    and "r_get api (rs_db st0) = Map.empty"
    and "worker_run (redis_claim api parse) (redis_mark_submitting api) (redis_complete api print)
           (initial_system st0) s"
    and "sys_phase s w = Holding t \<or> sys_phase s w = Submitted t"
    and "redis_complete api print (sys_store s) t response tx ttl = (Ok (), st)"
    and "worker_run (redis_claim api parse) (redis_mark_submitting api) (redis_complete api print)
           (s\<lparr>sys_store := st, sys_phase := (sys_phase s)(w := Stopped)\<rparr>) s'"
  shows "\<exists>r. redis_view api parse (sys_store s) (ct_key t) = Some r \<and>
     (\<forall>out. fst (redis_claim api parse (sys_store s') now (ct_key t) (cr_fingerprint r) owner lease ttl') = Ok out
        \<longrightarrow> out = Replay response)"
  by (rule redis_server.committed_is_replayed [OF assms(1,3) _ _ assms(4-6)])
    (simp_all add: empty_server_ok assms(2))



end
