(* ===== verification/Server.thy ===== *)
theory Server
  imports Pool_Api Handlers Rates Batch Redis_Claims "HOL-Library.Sublist"
begin

text \<open>
  The server, \<^verbatim>\<open>src/main.rs\<close>, with the request middleware of \<^verbatim>\<open>src/middleware.rs\<close> and the choice
  of the claim store of \<^verbatim>\<open>src/idempotency.rs\<close>: what is built at start-up, which routes exist and
  which scope each demands, and the layers that a request passes before a handler runs. The web
  framework matches a request to its route and calls the layers in their order; it is not
  modelled, nor is the limit on concurrent requests, which delays a request and changes nothing.
  The properties compose authentication, rate limit and handlers.
\<close>

subsection \<open>The claim store\<close>

datatype claim_backend = Durable_Claims string | Memory_Claims

text \<open>\<open>open_store\<close> connects to Redis; \<open>ready\<close> asks a connected store.\<close>

definition create_claim_store ::
  "(string \<Rightarrow> engine_error + unit) \<Rightarrow> (string \<Rightarrow> bool) \<Rightarrow> string option \<Rightarrow> network \<Rightarrow> engine_error + claim_backend" where
  "create_claim_store open_store ready redis_url net =
     (case redis_url of
        Some url \<Rightarrow>
          bind_res (open_store url) (\<lambda>_.
          if \<not> ready url then Err (Internal ''idempotency: REDIS_URL is set but the store is unreachable'')
          else Ok (Durable_Claims url))
      | None \<Rightarrow>
          if net = Mainnet then
            Err (Internal (''idempotency: REDIS_URL is mandatory on mainnet '' @ em_dash @ '' refusing an in-memory fallback''))
          else Ok Memory_Claims)"

subsection \<open>Cross-origin requests\<close>

definition ALLOWED_HEADERS :: "string list" where
  "ALLOWED_HEADERS = [''content-type'', ''x-request-id'', ''x-nodus-key-id'', ''x-nodus-timestamp'', ''x-nodus-nonce'',
     ''x-nodus-signature'', ''x-nodus-scope'', ''x-nodus-network'']"

record cors_layer =
  co_origins :: "string list"
  co_methods :: "string list"
  co_headers :: "string list"

text \<open>\<open>header_value\<close> says which texts are header values.\<close>

definition build_cors :: "(string \<Rightarrow> bool) \<Rightarrow> string list \<Rightarrow> cors_layer option" where
  "build_cors header_value allowed_origins =
     (if allowed_origins = [] then None
      else let origins = filter header_value allowed_origins in
        if origins = [] then None
        else Some \<lparr>co_origins = origins, co_methods = [''GET'', ''POST'', ''PUT'', ''DELETE''],
                   co_headers = ALLOWED_HEADERS\<rparr>)"

subsection \<open>Start-up\<close>

record server_parts =
  sp_config :: config
  sp_identity :: metrics_identity
  sp_horizon :: string
  sp_breaker :: "breaker_config \<times> circuit"
  sp_retry :: retry_config
  sp_claims :: claim_backend
  sp_pool :: "(pool_config \<times> network) option"
  sp_nonces :: nonce_backend
  sp_nonce_eviction :: bool
  sp_auth :: auth_config
  sp_cors :: "cors_layer option"

text \<open>What the start-up asks of the outside: the host of an address, Redis and header syntax.\<close>

record start_lib =
  sl_host :: "string \<Rightarrow> string option"
  sl_open_claims :: "string \<Rightarrow> engine_error + unit"
  sl_claims_ready :: "string \<Rightarrow> bool"
  sl_open_nonces :: "string \<Rightarrow> engine_error + unit"
  sl_header_value :: "string \<Rightarrow> bool"

definition auth_config_of :: "config \<Rightarrow> auth_config" where
  "auth_config_of cfg =
     \<lparr>ac_keys = cf_auth_keys cfg, ac_network = cf_network cfg,
      ac_clock_skew = from_secs (unat (cf_auth_clock_skew_secs cfg)),
      ac_replay_window = from_secs (unat (cf_auth_replay_window_secs cfg))\<rparr>"

definition start_up ::
  "(string \<Rightarrow> string + asset_id) \<Rightarrow> auth_lib \<Rightarrow> start_lib \<Rightarrow> environment \<Rightarrow> server_parts outcome" where
  "start_up from_json lib outside env =
     bind_out (from_env from_json lib env) (\<lambda>cfg.
     bind_out (validate_config cfg) (\<lambda>_.
     case create_claim_store (sl_open_claims outside) (sl_claims_ready outside) (cf_redis_url cfg) (cf_network cfg) of
       Err e \<Rightarrow> Panic
     | Ok claims \<Rightarrow>
         (case create_nonce_store (sl_open_nonces outside) (cf_redis_url cfg) of
            (nonces, eviction) \<Rightarrow>
              Returns
                \<lparr>sp_config = cfg,
                 sp_identity = \<lparr>id_network = network_name (cf_network cfg),
                    id_provider = (case sl_host outside (cf_horizon_url cfg) of Some h \<Rightarrow> h | None \<Rightarrow> ''unknown''),
                    id_release = cf_release cfg, id_manifest = cf_manifest cfg, id_contract = cf_contract_spec cfg\<rparr>,
                 sp_horizon = stellar_new (cf_horizon_url cfg),
                 sp_breaker = breaker_new 5 30,
                 sp_retry = retry_config_new (cf_max_retry_attempts cfg) (cf_retry_initial_delay_ms cfg),
                 sp_claims = claims,
                 sp_pool = map_option (\<lambda>p. (p, cf_network cfg)) (cf_pool cfg),
                 sp_nonces = nonces, sp_nonce_eviction = eviction,
                 sp_auth = auth_config_of cfg,
                 sp_cors = build_cors (sl_header_value outside) (cf_cors_allowed_origins cfg)\<rparr>)))"

subsection \<open>Routes\<close>

datatype http_method = GET | POST | PUT | DELETE

text \<open>A route is a method, a path with its named segments, and the handler's name.\<close>

type_synonym route = "http_method \<times> string \<times> string"

definition open_routes :: "route list" where
  "open_routes = [(GET, ''/healthz'', ''health::healthz''), (GET, ''/readyz'', ''health::readyz''),
     (GET, ''/metrics'', ''health::metrics'')]"

record route_group =
  rg_routes :: "route list"
  rg_scope :: scope
  rg_max_concurrent :: nat

definition route_groups :: "route_group list" where
  "route_groups =
     [\<lparr>rg_routes =
         [(GET, ''/api/v1/payments'', ''payments::list''),
          (GET, ''/api/v1/payments/:id'', ''payments::get''),
          (GET, ''/api/v1/payments/:id/receipt'', ''payments::receipt''),
          (GET, ''/api/v1/fees/current'', ''fees::current''),
          (GET, ''/api/v1/rates'', ''rates::get''),
          (GET, ''/api/v1/pool/reserves'', ''pool::reserves''),
          (GET, ''/api/v1/pool/quote'', ''pool::quote''),
          (GET, ''/api/v1/pool/reverse-quote'', ''pool::reverse_quote''),
          (GET, ''/api/v1/pool/lp-balance'', ''pool::lp_balance''),
          (GET, ''/api/v1/pool/stats'', ''pool::pool_stats''),
          (GET, ''/api/v1/pool/simulate/add-liquidity'', ''pool::simulate_add_liquidity''),
          (GET, ''/api/v1/pool/simulate/remove-liquidity'', ''pool::simulate_remove_liquidity'')],
       rg_scope = Read, rg_max_concurrent = 100\<rparr>,
      \<lparr>rg_routes =
         [(POST, ''/api/v1/payments/simulate'', ''payments::simulate''),
          (POST, ''/api/v1/pool/build/swap'', ''pool::build_swap''),
          (POST, ''/api/v1/pool/build/add-liquidity'', ''pool::build_add_liquidity''),
          (POST, ''/api/v1/pool/build/remove-liquidity'', ''pool::build_remove_liquidity''),
          (POST, ''/api/v1/pool/validate'', ''pool::validate'')],
       rg_scope = TxConstruct, rg_max_concurrent = 50\<rparr>,
      \<lparr>rg_routes =
         [(POST, ''/api/v1/payments'', ''payments::initiate''),
          (POST, ''/api/v1/payments/batch'', ''batch::submit''),
          (POST, ''/api/v1/pool/submit'', ''pool::submit'')],
       rg_scope = TxSubmit, rg_max_concurrent = 20\<rparr>,
      \<lparr>rg_routes =
         [(POST, ''/api/v1/webhooks'', ''webhooks::register''),
          (GET, ''/api/v1/webhooks'', ''webhooks::list''),
          (DELETE, ''/api/v1/webhooks/:id'', ''webhooks::delete''),
          (PUT, ''/api/v1/webhooks/:id/toggle'', ''webhooks::toggle'')],
       rg_scope = Admin, rg_max_concurrent = 20\<rparr>]"

text \<open>The scope that a route demands; a probe demands none.\<close>

definition route_scopes :: "(route \<times> scope option) list" where
  "route_scopes = map (\<lambda>r. (r, None)) open_routes @
     concat (map (\<lambda>g. map (\<lambda>r. (r, Some (rg_scope g))) (rg_routes g)) route_groups)"

subsection \<open>The layers of a scoped route\<close>

record ('n, 's) server_state =
  sv_nonces :: 'n
  sv_limiter :: rate_limiter
  sv_app :: 's

datatype 'r served = Rejected rejection | Limited rate_limit_error | Handled "service_identity option" 'r

text \<open>
  Authentication is the outer layer, unless it is disabled; then the rate limit, on the budget of
  the identity, then the handler. The two layers read the clock one after the other.
\<close>

definition scoped ::
  "auth_lib \<Rightarrow> ('n \<Rightarrow> instant \<Rightarrow> string \<Rightarrow> duration \<Rightarrow> (engine_error + bool) \<times> 'n) \<Rightarrow> auth_config \<Rightarrow> bool \<Rightarrow> scope \<Rightarrow>
     ('s \<Rightarrow> 'r \<times> 's) \<Rightarrow> request \<Rightarrow> i64 \<Rightarrow> instant \<Rightarrow> instant \<Rightarrow> ('n, 's) server_state \<Rightarrow> 'r served \<times> ('n, 's) server_state" where
  "scoped lib check_and_set auth auth_disabled scope handler req clock now now_limit st =
     (case (if auth_disabled then (Ok None, sv_nonces st)
            else case require_scope lib check_and_set auth scope req clock now (sv_nonces st) of
                   (r, nonces) \<Rightarrow> (bind_res r (\<lambda>i. Ok (Some i)), nonces)) of
        (Err rejection, nonces) \<Rightarrow> (Rejected rejection, st\<lparr>sv_nonces := nonces\<rparr>)
      | (Ok identity, nonces) \<Rightarrow>
          (case enforce (sv_limiter st) now_limit scope identity of
             (Err e, limiter) \<Rightarrow> (Limited e, st\<lparr>sv_nonces := nonces, sv_limiter := limiter\<rparr>)
           | (Ok _, limiter) \<Rightarrow>
               (case handler (sv_app st) of
                  (r, app) \<Rightarrow>
                    (Handled identity r, st\<lparr>sv_nonces := nonces, sv_limiter := limiter, sv_app := app\<rparr>))))"

subsection \<open>The request middleware\<close>

record 'b reply =
  hr_status :: nat
  hr_headers :: "(string \<times> string) list"
  hr_body :: 'b

text \<open>The identifier of a request: a header of the caller's that is text and not empty, or a fresh one.\<close>

definition request_id :: "auth_lib \<Rightarrow> string \<Rightarrow> (string \<times> string) list \<Rightarrow> string" where
  "request_id lib uuid headers =
     (let value = (case map_of headers ''x-correlation-id'' of Some v \<Rightarrow> Some v | None \<Rightarrow> map_of headers ''x-request-id'') in
      case Option.bind value (al_to_str lib) of
        Some s \<Rightarrow> if s = [] then uuid else s
      | None \<Rightarrow> uuid)"

definition set_header :: "string \<Rightarrow> string \<Rightarrow> (string \<times> string) list \<Rightarrow> (string \<times> string) list" where
  "set_header name value headers = filter (\<lambda>(n, _). n \<noteq> name) headers @ [(name, value)]"

definition inject_request_id ::
  "auth_lib \<Rightarrow> 'f f64_ops \<Rightarrow> (string \<Rightarrow> bool) \<Rightarrow> string \<Rightarrow> 'f \<Rightarrow> (string \<Rightarrow> request \<Rightarrow> 'f metrics \<times> 's \<Rightarrow> 'b reply \<times> 'f metrics \<times> 's) \<Rightarrow>
     request \<Rightarrow> 'f metrics \<times> 's \<Rightarrow> 'b reply \<times> 'f metrics \<times> 's" where
  "inject_request_id lib ops header_value uuid latency next_layer req = (\<lambda>(m, s).
     let ep = endpoint_of (rq_path req); i = request_id lib uuid (rq_headers req) in
     case next_layer i req (request_started ops m, s) of
       (resp, m', s') \<Rightarrow>
         (if header_value i
          then resp\<lparr>hr_headers := set_header ''x-request-id'' i (set_header ''x-correlation-id'' i (hr_headers resp))\<rparr>
          else resp,
          request_finished ops latency (\<not> is_success (hr_status resp)) ep m', s'))"

subsection \<open>Sequences of requests\<close>

record ('s, 'r) arrival =
  ar_scope :: scope
  ar_request :: request
  ar_clock :: i64
  ar_time :: instant
  ar_limit_time :: instant
  ar_handler :: "'s \<Rightarrow> 'r \<times> 's"

fun serve_all ::
  "auth_lib \<Rightarrow> ('n \<Rightarrow> instant \<Rightarrow> string \<Rightarrow> duration \<Rightarrow> (engine_error + bool) \<times> 'n) \<Rightarrow> auth_config \<Rightarrow>
     ('s, 'r) arrival list \<Rightarrow> ('n, 's) server_state \<Rightarrow> 'r served list \<times> ('n, 's) server_state" where
  "serve_all lib check_and_set auth [] st = ([], st)"
| "serve_all lib check_and_set auth (a # as) st =
     (case scoped lib check_and_set auth False (ar_scope a) (ar_handler a) (ar_request a) (ar_clock a) (ar_time a)
             (ar_limit_time a) st of
        (out, st1) \<Rightarrow>
          (case serve_all lib check_and_set auth as st1 of (outs, st2) \<Rightarrow> (out # outs, st2)))"

definition handled_for :: "string \<Rightarrow> 'r served \<Rightarrow> bool" where
  "handled_for key_id out = (case out of Handled (Some i) _ \<Rightarrow> si_key_id i = key_id | _ \<Rightarrow> False)"

text \<open>How many of the requests of one scope a handler answered for one key.\<close>

definition handled_count :: "string \<Rightarrow> scope \<Rightarrow> ('s, 'r) arrival list \<Rightarrow> 'r served list \<Rightarrow> nat" where
  "handled_count key_id scope as outs =
     length (filter (\<lambda>(a, out). ar_scope a = scope \<and> handled_for key_id out) (zip as outs))"

subsection \<open>Lemmas: the layers\<close>

lemma scoped_cases:
  assumes "scoped lib check auth False scope handler req clock now now_limit st = (out, st')"
  obtains (rejected) rej nonces where "require_scope lib check auth scope req clock now (sv_nonces st) = (Err rej, nonces)"
      "out = Rejected rej" "st' = st\<lparr>sv_nonces := nonces\<rparr>"
  | (limited) i nonces limiter e where "require_scope lib check auth scope req clock now (sv_nonces st) = (Ok i, nonces)"
      "allow (sv_limiter st) now_limit (limiter_key (Some i) scope) (default_limit_for scope) = (False, limiter)"
      "enforce (sv_limiter st) now_limit scope (Some i) = (Err e, limiter)" "out = Limited e"
      "st' = st\<lparr>sv_nonces := nonces, sv_limiter := limiter\<rparr>"
  | (handled) i nonces limiter r app where "require_scope lib check auth scope req clock now (sv_nonces st) = (Ok i, nonces)"
      "allow (sv_limiter st) now_limit (limiter_key (Some i) scope) (default_limit_for scope) = (True, limiter)"
      "enforce (sv_limiter st) now_limit scope (Some i) = (Ok (), limiter)" "handler (sv_app st) = (r, app)"
      "out = Handled (Some i) r" "st' = st\<lparr>sv_nonces := nonces, sv_limiter := limiter, sv_app := app\<rparr>"
proof -
  obtain res nonces where req: "require_scope lib check auth scope req clock now (sv_nonces st) = (res, nonces)"
    by (cases "require_scope lib check auth scope req clock now (sv_nonces st)")
  show thesis
  proof (cases res)
    case (Inl rej)
    with req assms show ?thesis by (intro rejected) (auto simp: scoped_def)
  next
    case (Inr i)
    obtain b limiter where allow: "allow (sv_limiter st) now_limit (limiter_key (Some i) scope) (default_limit_for scope) =
        (b, limiter)"
      by (cases "allow (sv_limiter st) now_limit (limiter_key (Some i) scope) (default_limit_for scope)")
    obtain r app where handler: "handler (sv_app st) = (r, app)" by (cases "handler (sv_app st)")
    show ?thesis
    proof (cases b)
      case True
      with Inr req allow handler assms show ?thesis by (intro handled) (auto simp: scoped_def enforce_def)
    next
      case False
      with Inr req allow assms show ?thesis by (intro limited) (auto simp: scoped_def enforce_def)
    qed
  qed
qed

text \<open>On one key, the budget depends on the bucket of this key only.\<close>

lemma allow_cong: "st k = st' k \<Longrightarrow> fst (allow st now k budget) = fst (allow st' now k budget) \<and>
    snd (allow st now k budget) k = snd (allow st' now k budget) k"
  by (simp add: allow_def Let_def)

lemma admitted_cong: "st k = st' k \<Longrightarrow> admitted budget es st k = admitted budget es st' k"
proof (induction es arbitrary: st st')
  case (Cons e es)
  obtain t k' where e: "e = (t, k')" by (cases e)
  let ?a = "allow st t k' budget" and ?a' = "allow st' t k' budget"
  have same: "snd ?a k = snd ?a' k \<and> (k' = k \<longrightarrow> fst ?a = fst ?a')"
    using allow_cong [of st k st' t budget] allow_other [of k' k] Cons.prems by (cases "k' = k") simp_all
  then have "admitted budget es (snd ?a) k = admitted budget es (snd ?a') k" by (intro Cons.IH) simp
  with same show ?case by (auto simp: e case_prod_beta)
qed simp

lemma handled_as_admitted:
  assumes "serve_all lib check auth as st = (outs, st')"
  shows "\<exists>es. subseq (map fst es) (map ar_limit_time as) \<and>
    handled_count key_id scope as outs =
      admitted (default_limit_for scope) es (sv_limiter st) (limiter_key (Some \<lparr>si_key_id = key_id\<rparr>) scope)"
  using assms
proof (induction as arbitrary: st outs st')
  case Nil
  then show ?case by (intro exI [of _ "[]"]) (simp add: handled_count_def)
next
  case (Cons a as)
  let ?k = "limiter_key (Some \<lparr>si_key_id = key_id\<rparr>) scope" and ?budget = "default_limit_for scope"
  obtain out st1 outs' where step: "scoped lib check auth False (ar_scope a) (ar_handler a) (ar_request a) (ar_clock a)
      (ar_time a) (ar_limit_time a) st = (out, st1)"
    and rest: "serve_all lib check auth as st1 = (outs', st')" and outs: "outs = out # outs'"
    using Cons.prems by (auto split: prod.splits)
  from Cons.IH [OF rest] obtain es where es: "subseq (map fst es) (map ar_limit_time as)"
    "handled_count key_id scope as outs' = admitted ?budget es (sv_limiter st1) ?k" by blast
  have count: "handled_count key_id scope (a # as) outs =
      (if ar_scope a = scope \<and> handled_for key_id out then 1 else 0) + handled_count key_id scope as outs'"
    by (simp add: handled_count_def outs)
  have skip: ?case if "\<not> (ar_scope a = scope \<and> handled_for key_id out)" "sv_limiter st1 ?k = sv_limiter st ?k"
  proof (intro exI [of _ es] conjI)
    show "handled_count key_id scope (a # as) outs = admitted ?budget es (sv_limiter st) ?k"
      using that es(2) admitted_cong [of "sv_limiter st1" ?k "sv_limiter st"] by (simp add: count)
  qed (use es(1) in \<open>simp add: list_emb_Cons\<close>)
  have spend: ?case if i: "si_key_id i = key_id" "ar_scope a = scope"
    and allow: "allow (sv_limiter st) (ar_limit_time a) (limiter_key (Some i) (ar_scope a)) (default_limit_for (ar_scope a)) =
      (handled_for key_id out, sv_limiter st1)" for i
  proof -
    have "limiter_key (Some i) scope = ?k" using i(1) by (simp add: limiter_key_def)
    with es allow i(2) have "handled_count key_id scope (a # as) outs =
        admitted ?budget ((ar_limit_time a, ?k) # es) (sv_limiter st) ?k"
      by (simp add: count)
    then show ?thesis using es(1) by (intro exI [of _ "(ar_limit_time a, ?k) # es"]) simp
  qed
  have other: "sv_limiter st1 ?k = sv_limiter st ?k"
    if "\<not> (si_key_id i = key_id \<and> ar_scope a = scope)"
      "allow (sv_limiter st) (ar_limit_time a) (limiter_key (Some i) (ar_scope a)) (default_limit_for (ar_scope a)) =
        (b, sv_limiter st1)" for i b
  proof -
    have "limiter_key (Some i) (ar_scope a) \<noteq> ?k" using that(1) budgets_are_separate [of i] by simp
    from allow_other [OF this] that(2) show ?thesis by (metis snd_conv)
  qed
  from step show ?case
  proof (cases rule: scoped_cases)
    case (rejected rej nonces)
    then show ?thesis by (intro skip) (simp_all add: handled_for_def)
  next
    case (limited i nonces limiter e)
    show ?thesis
    proof (cases "si_key_id i = key_id \<and> ar_scope a = scope")
      case True
      with limited show ?thesis by (intro spend [of i]) (simp_all add: handled_for_def)
    next
      case False
      with limited other [of i False] show ?thesis by (intro skip) (simp_all add: handled_for_def)
    qed
  next
    case (handled i nonces limiter r app)
    show ?thesis
    proof (cases "si_key_id i = key_id \<and> ar_scope a = scope")
      case True
      with handled show ?thesis by (intro spend [of i]) (simp_all add: handled_for_def)
    next
      case False
      with handled other [of i True] show ?thesis by (intro skip) (auto simp: handled_for_def)
    qed
  qed
qed

lemma sorted_subseq: "subseq xs ys \<Longrightarrow> sorted ys \<Longrightarrow> sorted xs"
  by (induction rule: list_emb.induct) (auto dest: list_emb_set)

lemma scoped_authorised:
  assumes "require_scope lib check auth scope req clock now s = (Ok i, s')"
  obtains key where "ac_keys auth (si_key_id i) = Some key" "scope \<in> set (sk_scopes key)"
  using assms by (auto simp: require_scope_Ok elim: verify_request_Ok)

lemma create_claim_store_Ok:
  "create_claim_store open_store ready redis_url Mainnet = Ok claims \<longleftrightarrow>
     (\<exists>url. redis_url = Some url \<and> open_store url = Ok () \<and> ready url \<and> claims = Durable_Claims url)"
  by (auto simp: create_claim_store_def res_simps split: option.splits if_splits)

lemma start_up_Returns:
  assumes "start_up from_json lib outside env = Returns parts"
  obtains cfg claims where "from_env from_json lib env = Returns cfg" "validate_config cfg = Returns ()"
    "create_claim_store (sl_open_claims outside) (sl_claims_ready outside) (cf_redis_url cfg) (cf_network cfg) = Ok claims"
    "sp_config parts = cfg" "sp_auth parts = auth_config_of cfg" "sp_claims parts = claims"
proof -
  from assms obtain cfg where cfg: "from_env from_json lib env = Returns cfg" "validate_config cfg = Returns ()"
    by (auto simp: start_up_def bind_out_eq_Returns)
  then obtain claims where claims: "create_claim_store (sl_open_claims outside) (sl_claims_ready outside)
      (cf_redis_url cfg) (cf_network cfg) = Ok claims"
    using assms by (cases "create_claim_store (sl_open_claims outside) (sl_claims_ready outside)
      (cf_redis_url cfg) (cf_network cfg)") (simp_all add: start_up_def)
  show thesis
    by (rule that [OF cfg claims])
      (use assms cfg claims in \<open>auto simp: start_up_def split: prod.splits\<close>)
qed

text \<open>Every route but the three probes demands a scope, no route is declared twice, and only the four groups exist.\<close>

lemmas route_defs = route_scopes_def open_routes_def route_groups_def

lemma route_count: "length route_scopes = 27"
  by (simp add: route_defs)

lemma open_routes_only: "map fst (filter (\<lambda>(_, s). s = None) route_scopes) = open_routes"
  by (simp add: route_defs)

lemma routes_distinct: "distinct (map (\<lambda>((m, p, _), _). (m, p)) route_scopes)"
  by (simp add: route_defs)

text \<open>Only a route of the submission scope reaches a handler that submits to a chain.\<close>

lemma submission_routes:
  "map (\<lambda>((_, _, h), _). h) (filter (\<lambda>(_, s). s = Some TxSubmit) route_scopes) =
     [''payments::initiate'', ''batch::submit'', ''pool::submit'']"
  by (simp add: route_defs)

subsection \<open>Properties\<close>

text \<open>
  C9. A handler runs only for an admitted request. Where authentication is on, a request that is
  rejected leaves the application and the budgets alone, one that is limited leaves the
  application alone, and one that is handled was verified for a registered key that holds the
  scope of the route, spent a fresh nonce and a unit of the budget of this key and scope, and the
  handler acted on the state of the application once.\<close>

theorem handled_only_if_admitted:
  assumes "scoped lib check_and_set auth False scope handler req clock now now_limit st = (out, st')"
  shows "case out of
      Rejected rej \<Rightarrow> sv_app st' = sv_app st \<and> sv_limiter st' = sv_limiter st
    | Limited e \<Rightarrow> sv_app st' = sv_app st \<and> rle_status e = 429
    | Handled identity r \<Rightarrow> \<exists>i key. identity = Some i \<and>
        require_scope lib check_and_set auth scope req clock now (sv_nonces st) = (Ok i, sv_nonces st') \<and>
        ac_keys auth (si_key_id i) = Some key \<and> scope \<in> set (sk_scopes key) \<and>
        enforce (sv_limiter st) now_limit scope (Some i) = (Ok (), sv_limiter st') \<and>
        handler (sv_app st) = (r, sv_app st')"
  using assms
proof (cases rule: scoped_cases)
  case (limited i nonces limiter e)
  then have "rle_status e = 429" by (auto simp: enforce_def)
  with limited show ?thesis by simp
next
  case (handled i nonces limiter r app)
  from handled(1) obtain key where "ac_keys auth (si_key_id i) = Some key" "scope \<in> set (sk_scopes key)"
    by (rule scoped_authorised)
  with handled show ?thesis by auto
qed simp

definition demo_state :: "(nonce_map, nat) server_state" where
  "demo_state = \<lparr>sv_nonces = nonce_memory_new, sv_limiter = limiter_new, sv_app = 0\<rparr>"

lemma demo_handled:
  "fst (scoped demo_lib memory_check_and_set demo_auth False Read (\<lambda>n. (''ok'', Suc n)) Auth.demo_request 1000 0 0 demo_state) =
     Handled (Some \<lparr>si_key_id = ''backend''\<rparr>) ''ok''"
  by (simp add: scoped_def demo_state_def demo_admitted enforce_def allow_def limiter_new_def per_minute_def
      elapsed_def from_secs_def)

theorem handled_only_if_admitted_witness:
  "\<exists>key st'. ac_keys demo_auth ''backend'' = Some key \<and> Read \<in> set (sk_scopes key) \<and>
     enforce limiter_new 0 Read (Some \<lparr>si_key_id = ''backend''\<rparr>) = (Ok (), st')"
proof -
  obtain st' where "scoped demo_lib memory_check_and_set demo_auth False Read (\<lambda>n. (''ok'', Suc n)) Auth.demo_request
      1000 0 0 demo_state = (Handled (Some \<lparr>si_key_id = ''backend''\<rparr>) ''ok'', st')"
    using demo_handled by (metis prod.collapse)
  from handled_only_if_admitted [OF this] show ?thesis by (auto simp: demo_state_def)
qed

text \<open>
  C10. No key gets more than its share, whatever else arrives. In every sequence of requests of any
  keys, scopes and handlers, signed or not, the requests of one scope that handlers answer for one
  key within an interval of a minute are at most twice the limit of the scope, and at most the
  limit when the key had no budget running.\<close>

theorem handled_requests_bounded:
  assumes "sorted (map ar_limit_time as)"
    and "\<forall>a \<in> set as. start \<le> ar_limit_time a \<and> ar_limit_time a < start + from_secs 60"
    and "case sv_limiter st (limiter_key (Some \<lparr>si_key_id = key_id\<rparr>) scope) of
           None \<Rightarrow> True | Some b \<Rightarrow> bucket_count b \<le> rl_limit (default_limit_for scope)"
    and "serve_all lib check_and_set auth as st = (outs, st')"
  shows "handled_count key_id scope as outs \<le> 2 * unat (rl_limit (default_limit_for scope)) \<and>
    (sv_limiter st (limiter_key (Some \<lparr>si_key_id = key_id\<rparr>) scope) = None \<longrightarrow>
       handled_count key_id scope as outs \<le> unat (rl_limit (default_limit_for scope)))"
proof -
  let ?k = "limiter_key (Some \<lparr>si_key_id = key_id\<rparr>) scope" and ?budget = "default_limit_for scope"
  obtain es where es: "subseq (map fst es) (map ar_limit_time as)"
    "handled_count key_id scope as outs = admitted ?budget es (sv_limiter st) ?k"
    using handled_as_admitted [OF assms(4)] by blast
  have window: "rl_window ?budget = from_secs 60" by (cases scope) (simp_all add: per_minute_def)
  have "set (map fst es) \<subseteq> ar_limit_time ` set as" using list_emb_set [OF es(1)] by auto
  with assms(2) have "\<forall>t \<in> set (map fst es). start \<le> t \<and> t < start + rl_window ?budget"
    unfolding window by blast
  then have "\<forall>(t, k') \<in> set es. start \<le> t \<and> t < start + rl_window ?budget" by auto
  from admitted_two_windows [of ?budget "sv_limiter st" ?k es start] assms(3) sorted_subseq [OF es(1) assms(1)] this es(2)
  show ?thesis by (auto split: option.splits)
qed

definition demo_arrival :: "(nat, string) arrival" where
  "demo_arrival = \<lparr>ar_scope = Read, ar_request = Auth.demo_request, ar_clock = 1000, ar_time = 0, ar_limit_time = 0,
     ar_handler = (\<lambda>n. (''ok'', Suc n))\<rparr>"

theorem handled_requests_bounded_witness:
  "handled_count ''backend'' Read [demo_arrival, demo_arrival]
     (fst (serve_all demo_lib memory_check_and_set demo_auth [demo_arrival, demo_arrival] demo_state)) \<le> 600"
proof -
  let ?as = "[demo_arrival, demo_arrival]"
  have sorted: "sorted (map ar_limit_time ?as)" by simp
  have times: "\<forall>a \<in> set ?as. 0 \<le> ar_limit_time a \<and> ar_limit_time a < 0 + from_secs 60"
    by (simp add: demo_arrival_def from_secs_def)
  have fresh: "sv_limiter demo_state k = None" for k by (simp add: demo_state_def limiter_new_def)
  have budget: "case sv_limiter demo_state (limiter_key (Some \<lparr>si_key_id = ''backend''\<rparr>) Read) of
      None \<Rightarrow> True | Some b \<Rightarrow> bucket_count b \<le> rl_limit (default_limit_for Read)"
    by (simp add: fresh)
  have limit: "unat (rl_limit (default_limit_for Read)) = 600" by (simp add: per_minute_def)
  note bounded = handled_requests_bounded [OF sorted times budget prod.collapse [symmetric], of demo_lib
      memory_check_and_set demo_auth]
  from mp [OF conjunct2 [OF bounded] fresh] show ?thesis by (simp only: limit)
qed

text \<open>
  C20. A server that starts from an environment naming mainnet is guarded and durable:
  authentication is on with at least one key, each with a secret of sixteen bytes or more and with
  scopes, and is set up for mainnet; its claims are kept in the Redis store of the configured
  address, which answered; and transport is protected upstream or plain transport was accepted.\<close>

theorem mainnet_server_is_guarded:
  assumes "start_up from_json lib outside env = Returns parts" and "env ''NETWORK'' = Some ''mainnet''"
  shows "\<not> cf_auth_disabled (sp_config parts) \<and> ac_network (sp_auth parts) = Mainnet \<and>
    (\<exists>key_id key. ac_keys (sp_auth parts) key_id = Some key) \<and>
    (\<forall>key_id key. ac_keys (sp_auth parts) key_id = Some key \<longrightarrow> 16 \<le> length (sk_secret key) \<and> sk_scopes key \<noteq> []) \<and>
    (\<exists>url. env ''REDIS_URL'' = Some url \<and> sp_claims parts = Durable_Claims url \<and>
       sl_open_claims outside url = Ok () \<and> sl_claims_ready outside url) \<and>
    (env_flag env ''TLS_TERMINATED_UPSTREAM'' \<or> env_flag env ''ENGINE_ALLOW_INSECURE_TRANSPORT'')"
proof -
  from assms(1) obtain cfg claims where cfg: "from_env from_json lib env = Returns cfg" "validate_config cfg = Returns ()"
    and claims: "create_claim_store (sl_open_claims outside) (sl_claims_ready outside) (cf_redis_url cfg) (cf_network cfg) =
      Ok claims"
    and parts: "sp_config parts = cfg" "sp_auth parts = auth_config_of cfg" "sp_claims parts = claims"
    by (rule start_up_Returns)
  note fields = from_env_fields [OF cfg(1)]
  have net: "cf_network cfg = Mainnet" using fields(1) assms(2) by (simp add: env_network_def env_text_def)
  from mainnet_config_guarded [OF cfg assms(2)] fields claims parts net show ?thesis
    by (auto simp: auth_config_of_def create_claim_store_Ok)
qed

definition demo_outside :: start_lib where
  "demo_outside = \<lparr>sl_host = (\<lambda>_. None), sl_open_claims = (\<lambda>_. Ok ()), sl_claims_ready = (\<lambda>_. True),
     sl_open_nonces = (\<lambda>_. Ok ()), sl_header_value = (\<lambda>_. True)\<rparr>"

theorem mainnet_server_is_guarded_witness:
  "\<exists>parts. start_up (\<lambda>_. Err ''no json'') demo_lib demo_outside Config.demo_env = Returns parts \<and>
     sp_claims parts = Durable_Claims ''redis://r''"
proof -
  obtain cfg where cfg: "from_env (\<lambda>_. Err ''no json'') demo_lib Config.demo_env = Returns cfg"
    "validate_config cfg = Returns ()"
    using demo_starts by blast
  have url: "cf_redis_url cfg = Some ''redis://r''" using from_env_fields(3) [OF cfg(1)] by (simp add: Config.demo_env_def)
  obtain parts where parts: "start_up (\<lambda>_. Err ''no json'') demo_lib demo_outside Config.demo_env = Returns parts"
    using cfg url
    by (cases "create_nonce_store (\<lambda>_. Ok ()) (Some ''redis://r'')")
      (simp add: start_up_def create_claim_store_def demo_outside_def)
  from mainnet_server_is_guarded [OF parts] parts show ?thesis by (auto simp: Config.demo_env_def)
qed

end
