(* ===== verification/Claim_Expiry.thy ===== *)
theory Claim_Expiry
  imports Redis_Claims
begin

text \<open>
  Claims that expire. The durable store gives every record a time to live (\<open>SET ... PX\<close> in the
  scripts of \<^verbatim>\<open>src/idempotency.rs\<close>), so a record may be gone when a worker comes back to its key.
  Here the runs of \<open>worker_step\<close> are interleaved with the passing of the server's time, which may
  remove records that are past their deadline. What remains of the guarantees is a matter of that
  time: two submissions of one key are at least the time to live apart, and a committed response
  is replayed for at least that long. A key that is presented later is submitted again.
\<close>

subsection \<open>Runs with time\<close>

text \<open>A deployment has one time to live for all its records (\<open>idempotency_ttl_secs\<close>).\<close>

definition lasting_claim :: "duration \<Rightarrow> ('s, 'v) claim_fn \<Rightarrow> ('s, 'v) claim_fn" where
  "lasting_claim life claim = (\<lambda>s now key fp owner lease _. claim s now key fp owner lease life)"

definition lasting_mark :: "duration \<Rightarrow> 's mark_fn \<Rightarrow> 's mark_fn" where
  "lasting_mark life mark = (\<lambda>s now token execution_ref lease _. mark s now token execution_ref lease life)"

definition lasting_complete :: "duration \<Rightarrow> ('s, 'v) complete_fn \<Rightarrow> ('s, 'v) complete_fn" where
  "lasting_complete life complete = (\<lambda>s token response tx _. complete s token response tx life)"

lemmas lasting_defs = lasting_claim_def lasting_mark_def lasting_complete_def

text \<open>\<open>ex_times\<close> are the server's times of the submissions, the latest first as in \<open>sys_submitted\<close>.\<close>

record 's expiring =
  ex_system :: "'s system"
  ex_times :: "nat list"

definition initial_expiring :: "'s \<Rightarrow> 's expiring" where
  "initial_expiring st = \<lparr>ex_system = initial_system st, ex_times = []\<rparr>"

definition submissions :: "'s expiring \<Rightarrow> ((string \<times> string) \<times> nat) list" where
  "submissions x = zip (sys_submitted (ex_system x)) (ex_times x)"

inductive expiring_step ::
    "duration \<Rightarrow> ('s, 'v) claim_fn \<Rightarrow> 's mark_fn \<Rightarrow> ('s, 'v) complete_fn \<Rightarrow> ('s \<Rightarrow> nat) \<Rightarrow> (nat \<Rightarrow> 's \<Rightarrow> 's) \<Rightarrow>
       's expiring \<Rightarrow> 's expiring \<Rightarrow> bool"
  for life claim mark complete clock elapse where
  x_work: "worker_step (lasting_claim life claim) (lasting_mark life mark) (lasting_complete life complete)
       (ex_system x) s \<Longrightarrow>
     ts = (if sys_submitted s = sys_submitted (ex_system x) then ex_times x else clock (sys_store s) # ex_times x) \<Longrightarrow>
     expiring_step life claim mark complete clock elapse x \<lparr>ex_system = s, ex_times = ts\<rparr>"
| x_elapse: "expiring_step life claim mark complete clock elapse x
     (x\<lparr>ex_system := (ex_system x)\<lparr>sys_store := elapse d (sys_store (ex_system x))\<rparr>\<rparr>)"

inductive expiring_run ::
    "duration \<Rightarrow> ('s, 'v) claim_fn \<Rightarrow> 's mark_fn \<Rightarrow> ('s, 'v) complete_fn \<Rightarrow> ('s \<Rightarrow> nat) \<Rightarrow> (nat \<Rightarrow> 's \<Rightarrow> 's) \<Rightarrow>
       's expiring \<Rightarrow> 's expiring \<Rightarrow> bool"
  for life claim mark complete clock elapse where
  xr_refl: "expiring_run life claim mark complete clock elapse x x"
| xr_step: "expiring_run life claim mark complete clock elapse x y \<Longrightarrow>
     expiring_step life claim mark complete clock elapse y z \<Longrightarrow>
     expiring_run life claim mark complete clock elapse x z"

text \<open>A schedule as data: actions of workers, and time passing.\<close>

datatype 'v expiring_action = Work "'v action" | Wait nat

fun expiring_act ::
    "duration \<Rightarrow> ('s, 'v) claim_fn \<Rightarrow> 's mark_fn \<Rightarrow> ('s, 'v) complete_fn \<Rightarrow> ('s \<Rightarrow> nat) \<Rightarrow> (nat \<Rightarrow> 's \<Rightarrow> 's) \<Rightarrow>
       'v expiring_action \<Rightarrow> 's expiring \<Rightarrow> 's expiring" where
  "expiring_act life claim mark complete clock elapse (Work a) x =
     (let s = act (lasting_claim life claim) (lasting_mark life mark) (lasting_complete life complete) a (ex_system x) in
      \<lparr>ex_system = s,
       ex_times = (if sys_submitted s = sys_submitted (ex_system x) then ex_times x
                   else clock (sys_store s) # ex_times x)\<rparr>)"
| "expiring_act life claim mark complete clock elapse (Wait d) x =
     x\<lparr>ex_system := (ex_system x)\<lparr>sys_store := elapse d (sys_store (ex_system x))\<rparr>\<rparr>"

lemma expiring_act_run:
  "expiring_run life claim mark complete clock elapse x y \<Longrightarrow>
     expiring_run life claim mark complete clock elapse x (expiring_act life claim mark complete clock elapse a y)"
proof (cases a)
  case (Work b)
  assume run: "expiring_run life claim mark complete clock elapse x y"
  let ?act = "act (lasting_claim life claim) (lasting_mark life mark) (lasting_complete life complete) b (ex_system y)"
  from act_step [of "lasting_claim life claim" "lasting_mark life mark" "lasting_complete life complete" b "ex_system y"]
  show ?thesis
  proof
    assume "?act = ex_system y"
    with run Work show ?thesis by (cases y) (simp add: Let_def)
  next
    assume "worker_step (lasting_claim life claim) (lasting_mark life mark) (lasting_complete life complete) (ex_system y) ?act"
    from xr_step [OF run x_work [OF this refl, of clock elapse]] Work show ?thesis by (simp add: Let_def)
  qed
qed (auto intro: xr_step x_elapse)

lemma expiring_schedule_run:
  "expiring_run life claim mark complete clock elapse x y \<Longrightarrow>
     expiring_run life claim mark complete clock elapse x (fold (expiring_act life claim mark complete clock elapse) as y)"
  by (induction as arbitrary: y) (auto intro: expiring_act_run)

lemmas expiring_schedule_from = expiring_schedule_run [OF xr_refl]

subsection \<open>Records that are kept until a deadline\<close>

text \<open>\<open>until\<close> is the time before which the record of a key cannot be removed.\<close>

definition kept ::
    "('s \<Rightarrow> string \<rightharpoonup> 'v claim_record) \<Rightarrow> ('s \<Rightarrow> string \<Rightarrow> nat) \<Rightarrow> nat \<Rightarrow> string \<Rightarrow> ('v claim_record \<Rightarrow> bool) \<Rightarrow> 's \<Rightarrow> bool" where
  "kept view until deadline k P s \<longleftrightarrow> (\<exists>r. view s k = Some r \<and> P r \<and> deadline \<le> until s k)"

text \<open>Operations leave the clock alone, and a deadline that they change becomes the clock plus the time to live.\<close>

definition renewed :: "('s \<Rightarrow> nat) \<Rightarrow> ('s \<Rightarrow> string \<Rightarrow> nat) \<Rightarrow> duration \<Rightarrow> 's \<Rightarrow> 's \<Rightarrow> bool" where
  "renewed clock until life s s' \<longleftrightarrow> clock s' = clock s \<and> (\<forall>k. until s' k = until s k \<or> clock s + life \<le> until s' k)"

lemma renewed_until:
  assumes "renewed clock until life s s'" and "deadline \<le> until s k" and "deadline \<le> clock s + life"
  shows "deadline \<le> until s' k"
proof -
  from assms(1) have "until s' k = until s k \<or> clock s + life \<le> until s' k" by (simp add: renewed_def)
  with assms(2,3) show ?thesis by linarith
qed

lemma kept_same:
  assumes "kept view until deadline k P s" and "renewed clock until life s s'" and "deadline \<le> clock s + life"
    and "view s' = view s"
  shows "kept view until deadline k P s'"
  using assms renewed_until [OF assms(2) _ assms(3)] by (auto simp: kept_def)

text \<open>A grant replaces in-flight records only.\<close>

lemma kept_granted:
  assumes "kept view until deadline k P s" and "renewed clock until life s s'" and "deadline \<le> clock s + life"
    and "claim_granted view s k' fp w s'" and "\<And>r. P r \<Longrightarrow> cr_lifecycle r \<noteq> InFlight"
  shows "kept view until deadline k P s'"
proof -
  from assms(1) obtain r where r: "view s k = Some r" "P r" "deadline \<le> until s k" by (auto simp: kept_def)
  have "k \<noteq> k'" using assms(4) r(1) assms(5) [OF r(2)] by (auto simp: claim_granted_def)
  with assms(4) r(1) have "view s' k = Some r" by (auto simp: claim_granted_def)
  with r(2) renewed_until [OF assms(2) r(3) assms(3)] show ?thesis by (simp add: kept_def)
qed

text \<open>The checkpoint and the commit touch the records of their owner only.\<close>

lemma kept_advanced:
  assumes "kept view until deadline k P s" and "renewed clock until life s s'" and "deadline \<le> clock s + life"
    and "claim_advanced view s t stage s'"
    and "\<And>r r'. P r \<Longrightarrow> cr_owner r = ct_owner t \<Longrightarrow> cr_owner r' = cr_owner r \<Longrightarrow> cr_fingerprint r' = cr_fingerprint r \<Longrightarrow>
      stage (cr_lifecycle r') \<Longrightarrow> P r'"
  shows "kept view until deadline k P s'"
proof -
  from assms(1) obtain r where r: "view s k = Some r" "P r" "deadline \<le> until s k" by (auto simp: kept_def)
  have "\<exists>r'. view s' k = Some r' \<and> P r'"
  proof (cases "k = ct_key t")
    case True
    with assms(4) r(1) obtain r' where "view s' k = Some r'" "cr_owner r = ct_owner t" "cr_owner r' = cr_owner r"
      "cr_fingerprint r' = cr_fingerprint r" "stage (cr_lifecycle r')"
      by (auto simp: claim_advanced_def)
    then show ?thesis using assms(5) [OF r(2)] by blast
  next
    case False
    with assms(4) r(1,2) show ?thesis by (auto simp: claim_advanced_def)
  qed
  with renewed_until [OF assms(2) r(3) assms(3)] show ?thesis by (auto simp: kept_def)
qed

subsection \<open>The invariant\<close>

text \<open>Submissions of one key are the time to live apart; the latest comes first.\<close>

fun apart :: "duration \<Rightarrow> ((string \<times> string) \<times> nat) list \<Rightarrow> bool" where
  "apart life [] \<longleftrightarrow> True"
| "apart life (((k, w), t) # log) \<longleftrightarrow> (\<forall>((k', w'), t') \<in> set log. k' = k \<longrightarrow> t' + life \<le> t) \<and> apart life log"

lemma apart_nth:
  assumes "apart life log" and "i < j" and "j < length log" and "fst (fst (log ! i)) = fst (fst (log ! j))"
  shows "snd (log ! j) + life \<le> snd (log ! i)"
  using assms
proof (induction log arbitrary: i j)
  case (Cons e log)
  obtain k w t where e: "e = ((k, w), t)" by (metis surj_pair)
  obtain j' where j: "j = Suc j'" using Cons.prems(2) by (cases j) auto
  show ?case
  proof (cases i)
    case 0
    have "log ! j' \<in> set log" using Cons.prems(3) j by simp
    with Cons.prems(1,4) e j 0 show ?thesis by fastforce
  next
    case (Suc i')
    with Cons.IH [of i' j'] Cons.prems e j show ?thesis by simp
  qed
qed simp

definition is_submitter :: "string \<Rightarrow> 'v claim_record \<Rightarrow> bool" where
  "is_submitter w r \<longleftrightarrow> cr_owner r = w \<and> cr_lifecycle r \<noteq> InFlight"

text \<open>
  As long as a submission is younger than the time to live, its record is there, past its
  in-flight stage, and the submitter's. Tokens are held by their owners.
\<close>

definition expiry_inv ::
    "('s \<Rightarrow> string \<rightharpoonup> 'v claim_record) \<Rightarrow> ('s \<Rightarrow> string \<Rightarrow> nat) \<Rightarrow> ('s \<Rightarrow> nat) \<Rightarrow> duration \<Rightarrow> 's expiring \<Rightarrow> bool" where
  "expiry_inv view until clock life x \<longleftrightarrow>
     length (ex_times x) = length (sys_submitted (ex_system x)) \<and>
     (\<forall>k w t. ((k, w), t) \<in> set (submissions x) \<longrightarrow> t \<le> clock (sys_store (ex_system x)) \<and>
        (clock (sys_store (ex_system x)) < t + life \<longrightarrow>
           kept view until (t + life) k (is_submitter w) (sys_store (ex_system x)))) \<and>
     (\<forall>w t. sys_phase (ex_system x) w = Holding t \<longrightarrow> ct_owner t = w \<and> w \<notin> snd ` set (sys_submitted (ex_system x))) \<and>
     (\<forall>w t. sys_phase (ex_system x) w = Submitted t \<longrightarrow> ct_owner t = w) \<and>
     (\<forall>w. sys_phase (ex_system x) w = Fresh \<longrightarrow> w \<notin> snd ` set (sys_submitted (ex_system x))) \<and>
     apart life (submissions x)"

lemma expiry_invD:
  assumes "expiry_inv view until clock life x"
  shows "length (ex_times x) = length (sys_submitted (ex_system x))"
    and "((k, w), t) \<in> set (submissions x) \<Longrightarrow> t \<le> clock (sys_store (ex_system x))"
    and "((k, w), t) \<in> set (submissions x) \<Longrightarrow> clock (sys_store (ex_system x)) < t + life \<Longrightarrow>
      kept view until (t + life) k (is_submitter w) (sys_store (ex_system x))"
    and "sys_phase (ex_system x) w = Holding tok \<Longrightarrow> ct_owner tok = w \<and> w \<notin> snd ` set (sys_submitted (ex_system x))"
    and "sys_phase (ex_system x) w = Submitted tok \<Longrightarrow> ct_owner tok = w"
    and "sys_phase (ex_system x) w = Fresh \<Longrightarrow> w \<notin> snd ` set (sys_submitted (ex_system x))"
    and "apart life (submissions x)"
  using assms by (auto simp: expiry_inv_def)

text \<open>A store operation that keeps the submitters' records keeps the invariant.\<close>

lemma expiry_store_step:
  assumes inv: "expiry_inv view until clock life x" and "clock st' = clock (sys_store (ex_system x))"
    and "\<And>k w deadline. deadline \<le> clock (sys_store (ex_system x)) + life \<Longrightarrow>
      kept view until deadline k (is_submitter w) (sys_store (ex_system x)) \<Longrightarrow> kept view until deadline k (is_submitter w) st'"
    and "\<And>t. p = Holding t \<Longrightarrow> ct_owner t = w \<and> w \<notin> snd ` set (sys_submitted (ex_system x))"
    and "\<And>t. p = Submitted t \<Longrightarrow> ct_owner t = w" and "p \<noteq> Fresh"
  shows "expiry_inv view until clock life
     \<lparr>ex_system = (ex_system x)\<lparr>sys_store := st', sys_phase := (sys_phase (ex_system x))(w := p)\<rparr>, ex_times = ex_times x\<rparr>"
proof -
  have "kept view until (t + life) k (is_submitter w') st'"
    if "((k, w'), t) \<in> set (submissions x)" "clock (sys_store (ex_system x)) < t + life" for k w' t
    using expiry_invD(2) [OF inv that(1)] by (intro assms(3) expiry_invD(3) [OF inv that]) simp
  then show ?thesis
    using expiry_invD [OF inv] assms(2,4,5,6) by (auto simp: expiry_inv_def submissions_def)
qed

lemma submitters_granted:
  assumes "claim_granted view s k' fp w' s'" and "renewed clock until life s s'"
    and "deadline \<le> clock s + life" and "kept view until deadline k (is_submitter w) s"
  shows "kept view until deadline k (is_submitter w) s'"
  by (rule kept_granted [OF assms(4,2,3,1)]) (simp add: is_submitter_def)

lemma submitters_advanced:
  assumes "claim_advanced view s t stage s'" and "\<And>l. stage l \<Longrightarrow> l \<noteq> InFlight" and "renewed clock until life s s'"
    and "deadline \<le> clock s + life" and "kept view until deadline k (is_submitter w) s"
  shows "kept view until deadline k (is_submitter w) s'"
  by (rule kept_advanced [OF assms(5,3,4,1)]) (simp add: is_submitter_def assms(2))

lemma stage_past_flight: "is_submitting e l \<Longrightarrow> l \<noteq> InFlight" "is_completed v l \<Longrightarrow> l \<noteq> InFlight"
  by (auto simp: is_submitting_def is_completed_def)

subsection \<open>The contract of a store whose records expire\<close>

text \<open>
  On top of the contract of a claim store: an operation gives the record that it writes the time
  to live from now on, and time removes nothing but records past their deadline.
\<close>

locale expiring_claim_store = claim_store claim mark_submitting complete view invar
  for claim :: "('s, 'v) claim_fn" and mark_submitting :: "'s mark_fn" and complete :: "('s, 'v) complete_fn"
    and view :: "'s \<Rightarrow> string \<rightharpoonup> 'v claim_record" and invar :: "'s \<Rightarrow> bool" +
  fixes clock :: "'s \<Rightarrow> nat"
    and until :: "'s \<Rightarrow> string \<Rightarrow> nat"
    and elapse :: "nat \<Rightarrow> 's \<Rightarrow> 's"
    and life :: duration
  assumes claim_renews: "invar s \<Longrightarrow> claim s now k fp w lease life = (res, s') \<Longrightarrow> renewed clock until life s s'"
  and mark_renews: "invar s \<Longrightarrow> mark_submitting s now t e lease life = (res', s') \<Longrightarrow>
       renewed clock until life s s' \<and> (res' = Ok () \<longrightarrow> clock s + life \<le> until s' (ct_key t))"
  and complete_renews: "invar s \<Longrightarrow> complete s t v x life = (res', s') \<Longrightarrow>
       renewed clock until life s s' \<and> (res' = Ok () \<longrightarrow> clock s + life \<le> until s' (ct_key t))"
  and elapse_invar: "invar s \<Longrightarrow> invar (elapse d s)"
  and elapse_clock: "clock (elapse d s) = clock s + d"
  and elapse_until: "until (elapse d s) k = until s k"
  and elapse_view: "invar s \<Longrightarrow>
       view (elapse d s) k = view s k \<or> view (elapse d s) k = None \<and> until s k \<le> clock s + d"
begin

lemma kept_elapse:
  assumes "invar s" and "kept view until deadline k P s" and "clock s + d < deadline"
  shows "kept view until deadline k P (elapse d s)"
proof -
  from assms(2) obtain r where r: "view s k = Some r" "P r" "deadline \<le> until s k" by (auto simp: kept_def)
  have "view (elapse d s) k = Some r" using elapse_view [OF assms(1), of d k] r(1,3) assms(3) by auto
  with r(2,3) show ?thesis by (simp add: kept_def elapse_until)
qed

abbreviation step :: "'s expiring \<Rightarrow> 's expiring \<Rightarrow> bool" where
  "step \<equiv> expiring_step life claim mark_submitting complete clock elapse"

abbreviation run :: "'s expiring \<Rightarrow> 's expiring \<Rightarrow> bool" where
  "run \<equiv> expiring_run life claim mark_submitting complete clock elapse"

definition timed_inv :: "'s expiring \<Rightarrow> bool" where
  "timed_inv x \<longleftrightarrow> invar (sys_store (ex_system x)) \<and> expiry_inv view until clock life x"

lemma timed_elapse:
  assumes "timed_inv x"
  shows "timed_inv (x\<lparr>ex_system := (ex_system x)\<lparr>sys_store := elapse d (sys_store (ex_system x))\<rparr>\<rparr>)"
proof -
  have inv: "invar (sys_store (ex_system x))" "expiry_inv view until clock life x"
    using assms by (simp_all add: timed_inv_def)
  have "kept view until (t + life) k (is_submitter w) (elapse d (sys_store (ex_system x)))"
    if "((k, w), t) \<in> set (submissions x)" "clock (sys_store (ex_system x)) + d < t + life" for k w t
    using expiry_invD(3) [OF inv(2) that(1)] that(2) by (intro kept_elapse [OF inv(1)]) simp_all
  then show ?thesis
    using expiry_invD [OF inv(2)] elapse_invar [OF inv(1)]
    by (auto simp: timed_inv_def expiry_inv_def submissions_def elapse_clock intro: trans_le_add1)
qed

text \<open>The work of one worker, on a store in a consistent state.\<close>

lemma timed_claim:
  assumes inv: "timed_inv x" and fresh: "sys_phase (ex_system x) w = Fresh"
    and claim: "claim (sys_store (ex_system x)) now key fp w lease life = (res, st')"
  shows "timed_inv \<lparr>ex_system = (ex_system x)\<lparr>sys_store := st', sys_phase := (sys_phase (ex_system x))(w := after_claim res)\<rparr>,
     ex_times = ex_times x\<rparr>"
proof -
  let ?s = "ex_system x"
  have ok: "invar (sys_store ?s)" and ex: "expiry_inv view until clock life x" using inv by (simp_all add: timed_inv_def)
  have renewed: "renewed clock until life (sys_store ?s) st'" by (rule claim_renews [OF ok claim])
  have "invar st'" using claim_invar [OF ok, of now key fp w lease life] claim by simp
  have effect: "view st' = view (sys_store ?s) \<or> claim_granted view (sys_store ?s) key fp w st'"
    using claim_Holding [OF ok claim] claim_Stopped [OF ok claim]
    by (cases res rule: after_claim.cases) auto
  have holding: "after_claim res = Holding t \<Longrightarrow> ct_owner t = w" for t
    using claim_Holding [OF ok claim] by simp
  have "expiry_inv view until clock life
      \<lparr>ex_system = ?s\<lparr>sys_store := st', sys_phase := (sys_phase ?s)(w := after_claim res)\<rparr>, ex_times = ex_times x\<rparr>"
  proof (rule expiry_store_step [OF ex])
    show "clock st' = clock (sys_store ?s)" using renewed by (simp add: renewed_def)
    show "kept view until deadline k (is_submitter w') st'"
      if "deadline \<le> clock (sys_store ?s) + life" "kept view until deadline k (is_submitter w') (sys_store ?s)"
      for k w' deadline
      using effect kept_same [OF that(2) renewed that(1)] submitters_granted [OF _ renewed that] by blast
    show "ct_owner t = w \<and> w \<notin> snd ` set (sys_submitted ?s)" if "after_claim res = Holding t" for t
      using holding [OF that] expiry_invD(6) [OF ex fresh] by simp
    show "ct_owner t = w" if "after_claim res = Submitted t" for t
      using that by (cases res rule: after_claim.cases) auto
    show "after_claim res \<noteq> Fresh" by (cases res rule: after_claim.cases) auto
  qed
  with \<open>invar st'\<close> show ?thesis by (simp add: timed_inv_def)
qed

lemma timed_write:
  assumes inv: "timed_inv x" and "invar st'" and renewed: "renewed clock until life (sys_store (ex_system x)) st'"
    and effect: "view st' = view (sys_store (ex_system x)) \<or> claim_advanced view (sys_store (ex_system x)) t stage st'"
    and stage: "\<And>l. stage l \<Longrightarrow> l \<noteq> InFlight"
    and phase: "p = Stopped \<or> p = Submitted t \<and> ct_owner t = w"
  shows "timed_inv \<lparr>ex_system = (ex_system x)\<lparr>sys_store := st', sys_phase := (sys_phase (ex_system x))(w := p)\<rparr>,
     ex_times = ex_times x\<rparr>"
proof -
  let ?s = "ex_system x"
  have ex: "expiry_inv view until clock life x" using inv by (simp add: timed_inv_def)
  have "expiry_inv view until clock life
      \<lparr>ex_system = ?s\<lparr>sys_store := st', sys_phase := (sys_phase ?s)(w := p)\<rparr>, ex_times = ex_times x\<rparr>"
  proof (rule expiry_store_step [OF ex])
    show "clock st' = clock (sys_store ?s)" using renewed by (simp add: renewed_def)
    show "kept view until deadline k (is_submitter w') st'"
      if "deadline \<le> clock (sys_store ?s) + life" "kept view until deadline k (is_submitter w') (sys_store ?s)"
      for k w' deadline
      using effect kept_same [OF that(2) renewed that(1)] submitters_advanced [OF _ stage renewed that] by blast
  qed (use phase in auto)
  with \<open>invar st'\<close> show ?thesis by (simp add: timed_inv_def)
qed

text \<open>A submission finds no younger one of its key: the record would be its submitter's.\<close>

lemma timed_submit:
  assumes inv: "timed_inv x" and hold: "sys_phase (ex_system x) w = Holding t"
    and mark: "mark_submitting (sys_store (ex_system x)) now t e lease life = (Ok (), st')"
  shows "timed_inv \<lparr>ex_system = (ex_system x)\<lparr>sys_store := st', sys_phase := (sys_phase (ex_system x))(w := Submitted t),
       sys_submitted := (ct_key t, w) # sys_submitted (ex_system x)\<rparr>, ex_times = clock st' # ex_times x\<rparr>"
proof -
  let ?s = "ex_system x" and ?x = "\<lparr>ex_system = (ex_system x)\<lparr>sys_store := st',
      sys_phase := (sys_phase (ex_system x))(w := Submitted t)\<rparr>, ex_times = ex_times x\<rparr>"
  have ok: "invar (sys_store ?s)" and ex: "expiry_inv view until clock life x" using inv by (simp_all add: timed_inv_def)
  have renewed: "renewed clock until life (sys_store ?s) st'" and deadline: "clock (sys_store ?s) + life \<le> until st' (ct_key t)"
    using mark_renews [OF ok mark] by simp_all
  have same: "clock st' = clock (sys_store ?s)" using renewed by (simp add: renewed_def)
  have "invar st'" using mark_invar [OF ok, of now t e lease life] mark by simp
  note advanced = mark_Ok [OF ok mark]
  have owner: "ct_owner t = w" "w \<notin> snd ` set (sys_submitted ?s)" using expiry_invD(4) [OF ex hold] by simp_all
  from timed_write [OF inv \<open>invar st'\<close> renewed disjI2 [OF advanced] stage_past_flight(1), where p = "Submitted t" and w = w] owner(1)
  have ex': "expiry_inv view until clock life ?x" by (simp add: timed_inv_def)
  obtain r r' where r: "view (sys_store ?s) (ct_key t) = Some r" "cr_owner r = w"
      "view st' (ct_key t) = Some r'" "is_submitter w r'"
    using advanced owner(1) by (auto simp: claim_advanced_def is_submitter_def is_submitting_def)
  have mine: "kept view until (clock st' + life) (ct_key t) (is_submitter w) st'"
    using r(3,4) deadline same by (auto simp: kept_def)
  have spaced: "t' + life \<le> clock st'" if "((ct_key t, w'), t') \<in> set (submissions x)" for w' t'
  proof (rule ccontr)
    assume "\<not> t' + life \<le> clock st'"
    with expiry_invD(3) [OF ex that] same have "kept view until (t' + life) (ct_key t) (is_submitter w') (sys_store ?s)"
      by simp
    with r(1,2) have "w' = w" by (auto simp: kept_def is_submitter_def)
    with that owner(2) show False by (auto simp: submissions_def image_iff dest!: set_zip_leftD)
  qed
  have times: "length (ex_times x) = length (sys_submitted ?s)" by (rule expiry_invD(1) [OF ex])
  have "expiry_inv view until clock life \<lparr>ex_system = ?s\<lparr>sys_store := st', sys_phase := (sys_phase ?s)(w := Submitted t),
      sys_submitted := (ct_key t, w) # sys_submitted ?s\<rparr>, ex_times = clock st' # ex_times x\<rparr>"
    using expiry_invD [OF ex'] mine spaced owner expiry_invD(4,6) [OF ex]
    by (auto simp: expiry_inv_def submissions_def)
  with \<open>invar st'\<close> show ?thesis by (simp add: timed_inv_def)
qed

lemma complete_effect_past_flight:
  assumes "invar s" and "complete s t v x life = (res', s')"
  shows "invar s' \<and> renewed clock until life s s' \<and>
     (view s' = view s \<or> claim_advanced view s t (is_completed v) s')"
  using complete_renews [OF assms] complete_effect [OF assms] complete_invar [OF assms(1), of t v x life] assms(2) by simp

lemma timed_step:
  assumes "step x y" and inv: "timed_inv x"
  shows "timed_inv y"
  using assms(1)
proof cases
  case (x_work s ts)
  have ok: "invar (sys_store (ex_system x))" and ex: "expiry_inv view until clock life x"
    using inv by (simp_all add: timed_inv_def)
  from x_work(2) show ?thesis
  proof cases
    case (w_claim w now key fp lease ttl res st')
    with timed_claim [OF inv w_claim(2), of now key fp lease res st'] x_work(1,3)
    show ?thesis by (simp add: lasting_defs)
  next
    case (w_submit w t now e lease ttl st')
    with timed_submit [OF inv w_submit(2), of now e lease st'] x_work(1,3)
    show ?thesis by (simp add: lasting_defs)
  next
    case (w_refused w t now e lease ttl er st')
    then have mark: "mark_submitting (sys_store (ex_system x)) now t e lease life = (Err er, st')"
      by (simp add: lasting_defs)
    have "invar st'" using mark_invar [OF ok, of now t e lease life] mark by simp
    with timed_write [OF inv _ _ mark_Err [OF ok mark] stage_past_flight(1), where p = Stopped and w = w]
      mark_renews [OF ok mark] w_refused(1) x_work(1,3)
    show ?thesis by simp
  next
    case (w_complete w t response tx ttl res' st')
    then have "complete (sys_store (ex_system x)) t response tx life = (res', st')"
      by (simp add: lasting_defs)
    note effect = complete_effect_past_flight [OF ok this]
    with timed_write [OF inv, of st' t "is_completed response" Stopped w] stage_past_flight(2) [of response]
      w_complete(1) x_work(1,3)
    show ?thesis by simp
  next
    case (w_stop w)
    have "kept view until deadline k (is_submitter w') (sys_store (ex_system x)) \<Longrightarrow>
        kept view until deadline k (is_submitter w') (sys_store (ex_system x))" for deadline k w' .
    then have "expiry_inv view until clock life \<lparr>ex_system = (ex_system x)\<lparr>sys_store := sys_store (ex_system x),
        sys_phase := (sys_phase (ex_system x))(w := Stopped)\<rparr>, ex_times = ex_times x\<rparr>"
      by (intro expiry_store_step [OF ex]) simp_all
    with ok w_stop x_work(1,3) show ?thesis by (simp add: timed_inv_def)
  qed
next
  case (x_elapse d)
  then show ?thesis using timed_elapse [OF inv] by simp
qed

lemma timed_run:
  assumes "run x y" and "timed_inv x"
  shows "timed_inv y"
  using assms by (induction rule: expiring_run.induct) (auto intro: timed_step)

lemma timed_initial: "invar st \<Longrightarrow> timed_inv (initial_expiring st)"
  by (simp add: timed_inv_def expiry_inv_def initial_expiring_def initial_system_def submissions_def)

lemma submissions_apart:
  assumes "run (initial_expiring st) x" and "invar st"
    and "i < j" and "j < length (submissions x)" and "fst (fst (submissions x ! i)) = fst (fst (submissions x ! j))"
  shows "snd (submissions x ! j) + life \<le> snd (submissions x ! i)"
proof -
  have "apart life (submissions x)"
    using timed_run [OF assms(1) timed_initial [OF assms(2)]] expiry_invD(7) by (auto simp: timed_inv_def)
  then show ?thesis by (rule apart_nth) (use assms in simp_all)
qed

lemma token_owner:
  assumes "timed_inv x" and "sys_phase (ex_system x) w = Holding t \<or> sys_phase (ex_system x) w = Submitted t"
  shows "ct_owner t = w"
proof -
  have "expiry_inv view until clock life x" using assms(1) by (simp add: timed_inv_def)
  from expiry_invD(4,5) [OF this] assms(2) show ?thesis by blast
qed

text \<open>
  A record past its in-flight stage whose owner has stopped is changed by nobody: until its
  deadline it is kept as it is.
\<close>

lemma kept_write:
  assumes inv: "timed_inv x" and held: "sys_phase (ex_system x) w' = Holding t \<or> sys_phase (ex_system x) w' = Submitted t"
    and stopped: "sys_phase (ex_system x) w = Stopped"
    and P: "\<And>r. P r \<Longrightarrow> cr_owner r = w \<and> cr_lifecycle r \<noteq> InFlight"
    and kept: "kept view until deadline k P (sys_store (ex_system x))"
    and "deadline \<le> clock (sys_store (ex_system x)) + life"
    and renewed: "renewed clock until life (sys_store (ex_system x)) st'"
    and effect: "view st' = view (sys_store (ex_system x)) \<or> claim_advanced view (sys_store (ex_system x)) t stage st'"
  shows "kept view until deadline k P st'"
proof -
  have "ct_owner t = w'" "w' \<noteq> w" using token_owner [OF inv held] held stopped by auto
  then have "P r \<Longrightarrow> cr_owner r \<noteq> ct_owner t" for r using P by auto
  with effect kept_same [OF kept renewed assms(6)] kept_advanced [OF kept renewed assms(6)] show ?thesis by blast
qed

lemma kept_step:
  assumes "step x y" and inv: "timed_inv x" and stopped: "sys_phase (ex_system x) w = Stopped"
    and P: "\<And>r. P r \<Longrightarrow> cr_owner r = w \<and> cr_lifecycle r \<noteq> InFlight"
    and kept: "kept view until deadline k P (sys_store (ex_system x))"
    and recent: "deadline \<le> clock (sys_store (ex_system x)) + life" and "clock (sys_store (ex_system y)) < deadline"
  shows "kept view until deadline k P (sys_store (ex_system y)) \<and> sys_phase (ex_system y) w = Stopped"
  using assms(1)
proof cases
  case (x_work s ts)
  have ok: "invar (sys_store (ex_system x))" using inv by (simp add: timed_inv_def)
  note keeps = kept_write [OF inv _ stopped P kept recent]
  from x_work(2) show ?thesis
  proof cases
    case (w_claim w' now key fp lease ttl res st')
    then have claim: "claim (sys_store (ex_system x)) now key fp w' lease life = (res, st')" by (simp add: lasting_defs)
    note renewed = claim_renews [OF ok claim]
    have "view st' = view (sys_store (ex_system x)) \<or> claim_granted view (sys_store (ex_system x)) key fp w' st'"
      using claim_Holding [OF ok claim] claim_Stopped [OF ok claim]
      by (cases res rule: after_claim.cases) auto
    then have "kept view until deadline k P st'"
      using kept_same [OF kept renewed recent] kept_granted [OF kept renewed recent] P by blast
    with w_claim(1,2) x_work(1) stopped show ?thesis by auto
  next
    case (w_submit w' t now e lease ttl st')
    then have mark: "mark_submitting (sys_store (ex_system x)) now t e lease life = (Ok (), st')" by (simp add: lasting_defs)
    from keeps [of w' t st' "is_submitting e"] w_submit(1,2) x_work(1) stopped mark_renews [OF ok mark] mark_Ok [OF ok mark]
    show ?thesis by auto
  next
    case (w_refused w' t now e lease ttl er st')
    then have mark: "mark_submitting (sys_store (ex_system x)) now t e lease life = (Err er, st')" by (simp add: lasting_defs)
    from keeps [of w' t st' "is_submitting e"] w_refused(1,2) x_work(1) stopped mark_renews [OF ok mark] mark_Err [OF ok mark]
    show ?thesis by auto
  next
    case (w_complete w' t response tx ttl res' st')
    then have complete: "complete (sys_store (ex_system x)) t response tx life = (res', st')" by (simp add: lasting_defs)
    from keeps [of w' t st' "is_completed response"] w_complete(1,2) x_work(1) stopped
      complete_effect_past_flight [OF ok complete]
    show ?thesis by auto
  next
    case (w_stop w')
    with kept stopped x_work(1) show ?thesis by simp
  qed
next
  case (x_elapse d)
  then have "clock (sys_store (ex_system x)) + d < deadline" using assms(7) by (simp add: elapse_clock)
  with kept_elapse [OF _ kept] inv stopped x_elapse show ?thesis by (simp add: timed_inv_def)
qed

lemma clock_step:
  assumes "step x y" and "timed_inv x"
  shows "clock (sys_store (ex_system x)) \<le> clock (sys_store (ex_system y))"
  using assms(1)
proof cases
  case (x_work s ts)
  have ok: "invar (sys_store (ex_system x))" using assms(2) by (simp add: timed_inv_def)
  from x_work(2) have "clock (sys_store s) = clock (sys_store (ex_system x))"
  proof cases
    case (w_claim w now key fp lease ttl res st')
    with claim_renews [OF ok, of now key fp w lease res st'] show ?thesis by (simp add: lasting_defs renewed_def)
  next
    case (w_submit w t now e lease ttl st')
    with mark_renews [OF ok, of now t e lease "Ok ()" st'] show ?thesis by (simp add: lasting_defs renewed_def)
  next
    case (w_refused w t now e lease ttl er st')
    with mark_renews [OF ok, of now t e lease "Err er" st'] show ?thesis by (simp add: lasting_defs renewed_def)
  next
    case (w_complete w t response tx ttl res' st')
    with complete_renews [OF ok, of t response tx res' st'] show ?thesis by (simp add: lasting_defs renewed_def)
  qed simp
  with x_work(1) show ?thesis by simp
qed (simp add: elapse_clock)

lemma kept_run:
  assumes "run x y" and "timed_inv x" and "sys_phase (ex_system x) w = Stopped"
    and P: "\<And>r. P r \<Longrightarrow> cr_owner r = w \<and> cr_lifecycle r \<noteq> InFlight"
    and "kept view until deadline k P (sys_store (ex_system x))"
    and "deadline \<le> clock (sys_store (ex_system x)) + life" and "clock (sys_store (ex_system y)) < deadline"
  shows "kept view until deadline k P (sys_store (ex_system y)) \<and> sys_phase (ex_system y) w = Stopped \<and>
    deadline \<le> clock (sys_store (ex_system y)) + life"
  using assms(1-3,5-7)
proof (induction rule: expiring_run.induct)
  case (xr_step x y z)
  have inv: "timed_inv y" by (rule timed_run [OF xr_step.hyps(1) xr_step.prems(1)])
  have later: "clock (sys_store (ex_system y)) \<le> clock (sys_store (ex_system z))"
    by (rule clock_step [OF xr_step.hyps(2) inv])
  with xr_step have "kept view until deadline k P (sys_store (ex_system y)) \<and> sys_phase (ex_system y) w = Stopped \<and>
    deadline \<le> clock (sys_store (ex_system y)) + life" by simp
  with kept_step [OF xr_step.hyps(2) inv _ P] xr_step.prems(5) later show ?case by fastforce
qed simp

text \<open>A committed response is replayed for the time to live.\<close>

lemma committed_is_replayed_in_time:
  assumes run: "run (initial_expiring st0) x" and "invar st0"
    and hold: "sys_phase (ex_system x) w = Holding t \<or> sys_phase (ex_system x) w = Submitted t"
    and commit: "complete (sys_store (ex_system x)) t response tx life = (Ok (), st)"
    and later: "run \<lparr>ex_system = (ex_system x)\<lparr>sys_store := st, sys_phase := (sys_phase (ex_system x))(w := Stopped)\<rparr>,
        ex_times = ex_times x\<rparr> y"
    and soon: "clock (sys_store (ex_system y)) < clock st + life"
  shows "\<exists>r. view (sys_store (ex_system x)) (ct_key t) = Some r \<and>
     (\<forall>out. fst (claim (sys_store (ex_system y)) now (ct_key t) (cr_fingerprint r) owner lease ttl) = Ok out
        \<longrightarrow> out = Replay response)"
proof -
  let ?s = "ex_system x"
  let ?x = "\<lparr>ex_system = ?s\<lparr>sys_store := st, sys_phase := (sys_phase ?s)(w := Stopped)\<rparr>, ex_times = ex_times x\<rparr>"
  have inv: "timed_inv x" by (rule timed_run [OF run timed_initial [OF assms(2)]])
  then have ok: "invar (sys_store ?s)" by (simp add: timed_inv_def)
  have "step x ?x"
    using x_work [OF worker_step.w_complete [OF hold, of "lasting_complete life complete" response tx 0 "Ok ()" st] refl] commit
    by (simp add: lasting_defs)
  then have inv': "timed_inv ?x" by (rule timed_step [OF _ inv])
  have owner: "ct_owner t = w" by (rule token_owner [OF inv hold])
  obtain r r' where r: "view (sys_store ?s) (ct_key t) = Some r" "view st (ct_key t) = Some r'"
      "cr_fingerprint r' = cr_fingerprint r" "cr_owner r' = w" "is_completed response (cr_lifecycle r')"
    using complete_Ok [OF ok commit] owner by (auto simp: claim_advanced_def)
  define P where "P q \<longleftrightarrow> cr_owner q = w \<and> cr_fingerprint q = cr_fingerprint r \<and> is_completed response (cr_lifecycle q)" for q :: "'v claim_record"
  have P: "P q \<Longrightarrow> cr_owner q = w \<and> cr_lifecycle q \<noteq> InFlight" for q by (auto simp: P_def is_completed_def)
  have "clock st + life \<le> until st (ct_key t)"
    using complete_renews [OF ok commit] by (simp add: renewed_def)
  with r have "kept view until (clock st + life) (ct_key t) P st" by (auto simp: kept_def P_def)
  with kept_run [OF later inv' _ P, where deadline = "clock st + life" and k = "ct_key t"] soon
  have "kept view until (clock st + life) (ct_key t) P (sys_store (ex_system y))" by simp
  then obtain q where "view (sys_store (ex_system y)) (ct_key t) = Some q" "P q" by (auto simp: kept_def)
  with claim_Completed timed_run [OF later inv'] have
    "fst (claim (sys_store (ex_system y)) now (ct_key t) (cr_fingerprint r) owner lease ttl) = Ok out \<Longrightarrow> out = Replay response" for out
    by (auto simp: P_def is_completed_def timed_inv_def)
  with r(1) show ?thesis by blast
qed

end

subsection \<open>The Redis store\<close>

text \<open>The scripts write a record, if at all, by one \<open>SET\<close> with the time to live that they are given.\<close>

lemma claim_lua_set:
  assumes "claim_lua api db k fp w lease ttl now = Some (parts, db')"
  shows "db' = db \<or> (\<exists>b. r_set_px api db k b ttl = Some db')"
  using assms by (auto simp: claim_lua_def Let_def split: option.splits if_splits)

lemma mark_submitting_lua_set:
  assumes "mark_submitting_lua api db k owner e lease now ttl = Some (parts, db')"
  shows "db' = db \<and> first_part parts \<noteq> Some ''ok'' \<or> (\<exists>b. r_set_px api db k b ttl = Some db')"
  using assms by (auto simp: mark_submitting_lua_def first_part_def Let_def split: option.splits if_splits)

lemma complete_lua_set:
  assumes "complete_lua api db k owner j e ttl = Some (parts, db')"
  shows "db' = db \<and> first_part parts \<noteq> Some ''ok'' \<or> (\<exists>b. r_set_px api db k b ttl = Some db')"
  using assms by (auto simp: complete_lua_def first_part_def Let_def split: option.splits if_splits)

definition redis_clock :: "('db \<Rightarrow> nat) \<Rightarrow> 'db redis_state \<Rightarrow> nat" where
  "redis_clock db_clock st = db_clock (rs_db st)"

definition redis_until :: "('db \<Rightarrow> string \<Rightarrow> nat) \<Rightarrow> 'db redis_state \<Rightarrow> string \<Rightarrow> nat" where
  "redis_until db_until st = db_until (rs_db st)"

definition redis_elapse :: "(nat \<Rightarrow> 'db \<Rightarrow> 'db) \<Rightarrow> nat \<Rightarrow> 'db redis_state \<Rightarrow> 'db redis_state" where
  "redis_elapse pass d st = st\<lparr>rs_db := pass d (rs_db st)\<rparr>"

text \<open>
  What is used of the server's expiry: the clock stands still while a script runs, \<open>SET ... PX\<close>
  sets the deadline of its key from the clock, and the passing of time removes keys at their
  deadlines or later, and nothing else.
\<close>

locale expiring_redis = redis_server api parse print
  for api :: "('db, 'b) redis_api" and parse :: "string \<Rightarrow> string + 'v" and print :: "'v \<Rightarrow> string + string" +
  fixes db_clock :: "'db \<Rightarrow> nat"
    and db_until :: "'db \<Rightarrow> string \<Rightarrow> nat"
    and pass :: "nat \<Rightarrow> 'db \<Rightarrow> 'db"
    and life :: duration
  assumes set_clock: "r_set_px api db k b px = Some db' \<Longrightarrow> db_clock db' = db_clock db"
    and set_until: "r_set_px api db k b px = Some db' \<Longrightarrow> db_until db' = (db_until db)(k := db_clock db + nat px)"
    and pass_clock: "db_clock (pass d db) = db_clock db + d"
    and pass_until: "db_until (pass d db) = db_until db"
    and pass_get: "r_get api (pass d db) k = r_get api db k \<or>
         r_get api (pass d db) k = None \<and> db_until db k \<le> db_clock db + d"
    and life_fits: "life < 2 ^ 63"
begin

lemma life_arg: "life \<le> nat (ttl_arg life)"
proof -
  have fits: "max life 1 < 2 ^ 63" using life_fits by simp
  then have "unat (of_nat (max life 1) :: i64) = max life 1"
    by (simp add: unat_of_nat take_bit_nat_eq_self)
  moreover have "signed_take_bit 63 (int (max life 1)) = int (max life 1)"
    using fits by (intro signed_take_bit_int_eq_self) auto
  ultimately show ?thesis by (simp add: ttl_arg_def signed_of_nat)
qed

lemma set_renews:
  assumes "r_set_px api db k b (ttl_arg life) = Some db'"
  shows "renewed db_clock db_until life db db' \<and> db_clock db + life \<le> db_until db' k"
  using set_clock [OF assms] set_until [OF assms] life_arg by (auto simp: renewed_def)

lemma write_renews:
  assumes "rs_db st' = rs_db st \<and> (\<exists>e. res = Err e) \<or>
     (\<exists>parts. script (rs_db st) = Some (parts, rs_db st') \<and> (res = Ok () \<longrightarrow> first_part parts = Some ''ok''))"
    and "\<And>parts db'. script (rs_db st) = Some (parts, db') \<Longrightarrow>
      db' = rs_db st \<and> first_part parts \<noteq> Some ''ok'' \<or> (\<exists>b. r_set_px api (rs_db st) k b (ttl_arg life) = Some db')"
  shows "renewed (redis_clock db_clock) (redis_until db_until) life st st' \<and>
     (res = Ok () \<longrightarrow> redis_clock db_clock st + life \<le> redis_until db_until st' k)"
  using assms set_renews by (fastforce simp: renewed_def redis_clock_def redis_until_def)

end

text \<open>The server's expiry gives the expiry contract of the store.\<close>

sublocale expiring_redis \<subseteq> lasting: expiring_claim_store "redis_claim api parse" "redis_mark_submitting api"
    "redis_complete api print" "redis_view api parse" "redis_ok api parse"
    "redis_clock db_clock" "redis_until db_until" "redis_elapse pass" life
proof unfold_locales
  fix s now k fp w lease s' and res :: "engine_error + 'v claim_outcome"
  assume run: "redis_claim api parse s now k fp w lease life = (res, s')"
  have "rs_db s' = rs_db s \<or> (\<exists>b. r_set_px api (rs_db s) k b (ttl_arg life) = Some (rs_db s'))"
    using redis_claim_cases [OF run] by (auto dest: claim_lua_set)
  then show "renewed (redis_clock db_clock) (redis_until db_until) life s s'"
  proof
    assume "\<exists>b. r_set_px api (rs_db s) k b (ttl_arg life) = Some (rs_db s')"
    then have "renewed db_clock db_until life (rs_db s) (rs_db s')" using set_renews by blast
    then show ?thesis by (simp add: renewed_def redis_clock_def redis_until_def)
  qed (simp add: renewed_def redis_clock_def redis_until_def)
next
  fix s now t e lease res' s'
  assume run: "redis_mark_submitting api s now t e lease life = (res', s')"
  show "renewed (redis_clock db_clock) (redis_until db_until) life s s' \<and>
     (res' = Ok () \<longrightarrow> redis_clock db_clock s + life \<le> redis_until db_until s' (ct_key t))"
    by (rule write_renews [where script = "\<lambda>db. mark_submitting_lua api db (ct_key t) (ct_owner t) e
          (millis_arg lease) (sint now) (ttl_arg life)",
          OF redis_write_cases [OF run [unfolded redis_mark_submitting_def]]])
      (rule mark_submitting_lua_set)
next
  fix s t v x res' s'
  assume run: "redis_complete api print s t v x life = (res', s')"
  show "renewed (redis_clock db_clock) (redis_until db_until) life s s' \<and>
     (res' = Ok () \<longrightarrow> redis_clock db_clock s + life \<le> redis_until db_until s' (ct_key t))"
  proof (cases "print v")
    case (Inl er)
    with run show ?thesis by (auto simp: redis_complete_def renewed_def)
  next
    case (Inr j)
    show ?thesis
      by (rule write_renews [where script = "\<lambda>db. complete_lua api db (ct_key t) (ct_owner t) j
            (case x of None \<Rightarrow> [] | Some x \<Rightarrow> x) (ttl_arg life)",
            OF redis_write_cases [OF run [unfolded redis_complete_def Inr sum.case]]])
        (rule complete_lua_set)
  qed
next
  fix s :: "'db redis_state" and d
  show "redis_ok api parse (redis_elapse pass d s)" if ok: "redis_ok api parse s"
    unfolding redis_ok_def db_ok_def
  proof (intro allI impI)
    fix k assume "r_get api (rs_db (redis_elapse pass d s)) k \<noteq> None"
    then have live: "r_get api (pass d (rs_db s)) k \<noteq> None" by (simp add: redis_elapse_def)
    then have "r_get api (pass d (rs_db s)) k = r_get api (rs_db s) k" using pass_get [of d "rs_db s" k] by auto
    with ok live show "view (rs_db (redis_elapse pass d s)) k \<noteq> None"
      by (simp add: redis_ok_def db_ok_def db_view_def redis_elapse_def)
  qed
  show "redis_view api parse (redis_elapse pass d s) k = redis_view api parse s k \<or>
      redis_view api parse (redis_elapse pass d s) k = None \<and> redis_until db_until s k \<le> redis_clock db_clock s + d" for k
    using pass_get [of d "rs_db s" k]
    by (auto simp: redis_view_def redis_elapse_def db_view_def redis_until_def redis_clock_def)
qed (simp_all add: redis_clock_def redis_until_def redis_elapse_def pass_clock pass_until)

context expiring_redis
begin

lemmas submissions_apart = lasting.submissions_apart
lemmas committed_is_replayed_in_time = lasting.committed_is_replayed_in_time

end

subsection \<open>A concrete server with expiry\<close>

record timed_db =
  td_rows :: "string \<rightharpoonup> lua_claim \<times> nat"
  td_clock :: nat

text \<open>A key is live before its deadline.\<close>

definition timed_get :: "timed_db \<Rightarrow> string \<Rightarrow> lua_claim option" where
  "timed_get db k = (case td_rows db k of Some (b, t) \<Rightarrow> if td_clock db < t then Some b else None | None \<Rightarrow> None)"

definition timed_set :: "timed_db \<Rightarrow> string \<Rightarrow> lua_claim \<Rightarrow> int \<Rightarrow> timed_db option" where
  "timed_set db k b px = (if 0 < px then Some (db\<lparr>td_rows := (td_rows db)(k \<mapsto> (b, td_clock db + nat px))\<rparr>) else None)"

definition timed_until :: "timed_db \<Rightarrow> string \<Rightarrow> nat" where
  "timed_until db k = (case td_rows db k of Some (_, t) \<Rightarrow> t | None \<Rightarrow> 0)"

definition timed_pass :: "nat \<Rightarrow> timed_db \<Rightarrow> timed_db" where
  "timed_pass d db = db\<lparr>td_clock := td_clock db + d\<rparr>"

definition timed_server :: "(timed_db, lua_claim) redis_api" where
  "timed_server = \<lparr>r_get = timed_get, r_set_px = timed_set, cjson_encode = (\<lambda>rec. rec), cjson_decode = Some\<rparr>"

lemmas timed_defs = timed_server_def timed_get_def timed_set_def timed_until_def timed_pass_def

lemma timed_server_expires:
  assumes "life < 2 ^ 63"
  shows "expiring_redis timed_server text_codec text_codec td_clock timed_until timed_pass life"
proof
  show "\<exists>n. cjson_decode timed_server (cjson_encode timed_server rec) =
      Some (rec\<lparr>lua_lease_expires_at_ms := map_option n (lua_lease_expires_at_ms rec),
                lua_created_at_ms := map_option n (lua_created_at_ms rec)\<rparr>)" for rec
    by (intro exI [of _ "\<lambda>x. x"]) (simp add: timed_server_def option.map_ident)
qed (use assms in \<open>auto simp: timed_defs text_codec_def fun_eq_iff split: if_splits option.splits\<close>)

text \<open>One day, the default of \<open>IDEMPOTENCY_TTL_SECS\<close>, in milliseconds.\<close>

interpretation timed_server: expiring_redis timed_server text_codec text_codec td_clock timed_until timed_pass 86400000
  by (rule timed_server_expires) simp

definition timed_fresh :: "timed_db redis_state" where
  "timed_fresh = \<lparr>rs_db = \<lparr>td_rows = Map.empty, td_clock = 0\<rparr>, rs_links = [], rs_counters = no_counters\<rparr>"

lemma timed_fresh_empty: "r_get timed_server (rs_db timed_fresh) = Map.empty"
  by (simp add: timed_defs timed_fresh_def fun_eq_iff)

text \<open>Runs with a time to live of a tenth of a second.\<close>

definition timed_schedule :: "string expiring_action list \<Rightarrow> timed_db redis_state expiring" where
  "timed_schedule as = fold (expiring_act 100 (redis_claim timed_server text_codec) (redis_mark_submitting timed_server)
     (redis_complete timed_server text_codec) (redis_clock td_clock) (redis_elapse timed_pass)) as (initial_expiring timed_fresh)"

lemma timed_schedule_run:
  "expiring_run 100 (redis_claim timed_server text_codec) (redis_mark_submitting timed_server)
     (redis_complete timed_server text_codec) (redis_clock td_clock) (redis_elapse timed_pass)
     (initial_expiring timed_fresh) (timed_schedule as)"
  unfolding timed_schedule_def by (rule expiring_schedule_from)

text \<open>
  A worker submits and crashes, and its key is presented again once its time to live is over: the record of the
  submission has expired with its unknown outcome, and the key is submitted a second time.
\<close>

definition late_retry :: "string expiring_action list" where
  "late_retry =
     [Work (Do_claim ''a'' 0 ''k'' ''fp'' 10 0), Work (Do_submit ''a'' 1 ''tx'' 10 0), Work (Do_stop ''a''),
      Wait 100,
      Work (Do_claim ''b'' 0 ''k'' ''fp'' 10 0), Work (Do_submit ''b'' 1 ''tx2'' 10 0)]"

lemma expired_key_resubmitted:
  "submissions (timed_schedule late_retry) = [((''k'', ''b''), 100), ((''k'', ''a''), 0)]"
  by code_simp

subsection \<open>Properties\<close>



text \<open>
  C18. Over a Redis server that expires its records, an acknowledged commit is replayed for the
  time to live: until that much server time has passed, every claim of the key with the same
  fingerprint that is answered at all replays exactly that response, whatever happened in
  between.\<close>

theorem redis_response_replayed_until_expiry:
  assumes "expiring_redis api parse print db_clock db_until pass life"
    and "r_get api (rs_db st0) = Map.empty"
    and "expiring_run life (redis_claim api parse) (redis_mark_submitting api) (redis_complete api print)
           (redis_clock db_clock) (redis_elapse pass) (initial_expiring st0) x"
    and "sys_phase (ex_system x) w = Holding t \<or> sys_phase (ex_system x) w = Submitted t"
    and "redis_complete api print (sys_store (ex_system x)) t response tx life = (Ok (), st)"
    and "expiring_run life (redis_claim api parse) (redis_mark_submitting api) (redis_complete api print)
           (redis_clock db_clock) (redis_elapse pass)
           \<lparr>ex_system = (ex_system x)\<lparr>sys_store := st, sys_phase := (sys_phase (ex_system x))(w := Stopped)\<rparr>,
            ex_times = ex_times x\<rparr> y"
    and "db_clock (rs_db (sys_store (ex_system y))) < db_clock (rs_db st) + life"
  shows "\<exists>r. redis_view api parse (sys_store (ex_system x)) (ct_key t) = Some r \<and>
     (\<forall>out. fst (redis_claim api parse (sys_store (ex_system y)) now (ct_key t) (cr_fingerprint r) owner lease ttl) = Ok out
        \<longrightarrow> out = Replay response)"
  by (rule expiring_redis.committed_is_replayed_in_time [OF assms(1,3) _ assms(4-6)])
    (simp_all add: empty_server_ok assms(2) assms(7) [folded redis_clock_def])

definition timed_submitted :: "timed_db redis_state expiring" where
  "timed_submitted = timed_schedule [Work (Do_claim ''a'' 0 ''k'' ''fp'' 10 0), Work (Do_submit ''a'' 1 ''tx'' 10 0)]"

lemma timed_submitted_facts:
  "sys_phase (ex_system timed_submitted) ''a'' = Submitted \<lparr>ct_key = ''k'', ct_owner = ''a''\<rparr>"
  "fst (redis_complete timed_server text_codec (sys_store (ex_system timed_submitted))
      \<lparr>ct_key = ''k'', ct_owner = ''a''\<rparr> ''done'' None 100) = Ok ()"
  by code_simp+

definition timed_committed :: "timed_db redis_state" where
  "timed_committed = snd (redis_complete timed_server text_codec (sys_store (ex_system timed_submitted))
      \<lparr>ct_key = ''k'', ct_owner = ''a''\<rparr> ''done'' None 100)"

lemma timed_committed_clock: "td_clock (rs_db timed_committed) = 0"
  by code_simp

theorem redis_response_replayed_until_expiry_witness:
  "\<exists>r. redis_view timed_server text_codec (sys_store (ex_system timed_submitted)) ''k'' = Some r \<and>
     (\<forall>out. fst (redis_claim timed_server text_codec (redis_elapse timed_pass 60 timed_committed) 500 ''k''
        (cr_fingerprint r) ''b'' 10 100) = Ok out \<longrightarrow> out = Replay ''done'')"
proof -
  let ?x = "timed_submitted" and ?t = "\<lparr>ct_key = ''k'', ct_owner = ''a''\<rparr>"
  let ?y = "\<lparr>ex_system = (ex_system ?x)\<lparr>sys_store := timed_committed, sys_phase := (sys_phase (ex_system ?x))(''a'' := Stopped)\<rparr>,
     ex_times = ex_times ?x\<rparr>"
  have commit: "redis_complete timed_server text_codec (sys_store (ex_system ?x)) ?t ''done'' None 100 = (Ok (), timed_committed)"
    by (simp add: prod_eq_iff timed_submitted_facts timed_committed_def)
  have life: "expiring_redis timed_server text_codec text_codec td_clock timed_until timed_pass 100"
    by (rule timed_server_expires) simp
  have run: "expiring_run 100 (redis_claim timed_server text_codec) (redis_mark_submitting timed_server)
     (redis_complete timed_server text_codec) (redis_clock td_clock) (redis_elapse timed_pass)
     (initial_expiring timed_fresh) timed_submitted"
    unfolding timed_submitted_def by (rule timed_schedule_run)
  have later: "expiring_run 100 (redis_claim timed_server text_codec) (redis_mark_submitting timed_server)
     (redis_complete timed_server text_codec) (redis_clock td_clock) (redis_elapse timed_pass) ?y
     (?y\<lparr>ex_system := (ex_system ?y)\<lparr>sys_store := redis_elapse timed_pass 60 (sys_store (ex_system ?y))\<rparr>\<rparr>)"
    by (rule xr_step [OF xr_refl x_elapse])
  from redis_response_replayed_until_expiry [OF life timed_fresh_empty run disjI2 [OF timed_submitted_facts(1)] commit later,
      of 500 "''b''" 10 100] timed_committed_clock
  show ?thesis by (simp add: redis_elapse_def timed_pass_def)
qed

end
