(* ===== verification/Spec2Isabelle.thy ===== *)
theory Spec2Isabelle
  imports Server Claim_Expiry
begin

text \<open>
  A verification development of the Nodus protocol core engine, an HTTP service in Rust that
  accepts signed requests of partner services, submits payments to a blockchain through chain
  adapters, and prepares, checks and submits transactions on the Soroban contract of a liquidity
  pool. Its concerns are that a payment is not submitted twice, that only authorised requests
  have an effect, that a transaction handed out for signing is the one that was asked for, and
  that the arithmetic of the pool is right. All paths below are under \<^verbatim>\<open>src/\<close> of the crate.

  \<^bold>\<open>How the program fits together.\<close> \<^verbatim>\<open>main.rs\<close> reads the configuration, builds the stores and
  the engine, and wraps groups of routes into layers: authentication, then rate limiting, then the
  handler. A payment handler calls the engine, which validates the request, claims its
  idempotency key, asks the router for the cheapest healthy adapter, checkpoints the claim,
  submits with retries, stores the payment and notifies webhooks. Adapters are wrapped by circuit
  breakers. A pool handler calls the contract client, which reads ledger entries over Soroban RPC,
  quotes with the pool arithmetic, and prepares and validates transactions against the embedded
  interface of the contract.

  \<^bold>\<open>The theories, in the order of their dependencies.\<close>

  \<^item> \<^verbatim>\<open>Prelude\<close>: \<open>Result\<close> as a sum, panics as \<open>outcome\<close>, state-passing combinators, checked and
    wrapping arithmetic on words, and the simplification collections \<open>res_simps\<close> and its like.
  \<^item> \<^verbatim>\<open>Text_Ops\<close>: the string operations of the standard library on strings as lists of bytes, with
    the lemmas that invert them.
  \<^item> \<^verbatim>\<open>Pool_Math\<close> (\<^verbatim>\<open>pool/math.rs\<close>): quotes, minting, withdrawal and the Newton square root on
    128-bit words. A swap never lowers the product of the reserves, the reverse quote is sound and
    tight, minting and withdrawing earns nothing, withdrawals stay within the reserves.
  \<^item> \<^verbatim>\<open>Utils\<close> (\<^verbatim>\<open>utils/mod.rs\<close>), \<^verbatim>\<open>Validation\<close> (\<^verbatim>\<open>validation.rs\<close>): errors, asset identities, rational
    prices, payments; the input checks and exactly what they accept.
  \<^item> \<^verbatim>\<open>Observability\<close> (\<^verbatim>\<open>observability.rs\<close>): counters, gauges, request statistics, label
    sanitising, the rendering; the statistics are those of the requests served.
  \<^item> \<^verbatim>\<open>Rate_Limit\<close>, \<^verbatim>\<open>Nonce_Store\<close>, \<^verbatim>\<open>Auth\<close> (files of the same names): token buckets, replay
    protection in memory and in Redis behind the locale \<open>nonce_store\<close>, the registry of service
    keys and the check of a signed request. An accepted request holds its scope and a valid
    signature, and no later request spends its nonce.
  \<^item> \<^verbatim>\<open>Config\<close> (\<^verbatim>\<open>config.rs\<close>): the environment, start-up refusals and static readiness.
  \<^item> \<^verbatim>\<open>Fingerprint\<close>, \<^verbatim>\<open>Idempotency\<close>, \<^verbatim>\<open>Claim_Protocol\<close>, \<^verbatim>\<open>Redis_Claims\<close> (\<^verbatim>\<open>idempotency.rs\<close>): the
    canonical text of a request, the claim records, the in-memory store, and the Redis store with
    its three Lua scripts. Workers on a store are the step relation \<open>worker_step\<close>, whose runs
    interleave workers, let them crash and let clocks jump. The locale \<open>claim_store\<close> states what a
    store promises; at most one submission for each key is proved once inside it and holds for
    both stores, the Redis store refining the in-memory one.
  \<^item> \<^verbatim>\<open>Claim_Expiry\<close> (\<^verbatim>\<open>idempotency.rs\<close>): the same workers on a Redis server whose clock moves and which
    drops records past their time to live. The locale \<open>expiring_claim_store\<close> extends the contract by
    deadlines; two submissions of a key are the time to live apart, a committed response is
    replayed that long, and a later request is executed anew.
  \<^item> \<^verbatim>\<open>Adapters\<close>, \<^verbatim>\<open>Circuit_Breaker\<close>, \<^verbatim>\<open>Router\<close>, \<^verbatim>\<open>Retry\<close>, \<^verbatim>\<open>Stores\<close> (\<^verbatim>\<open>adapters/\<close>, \<^verbatim>\<open>circuit_breaker.rs\<close>,
    \<^verbatim>\<open>router.rs\<close>, \<^verbatim>\<open>retry.rs\<close>, \<^verbatim>\<open>store.rs\<close>, \<^verbatim>\<open>webhook.rs\<close>): the trait of chain adapters as a record of
    operations, the breaker as an adapter around another one, selection of a route, the retry loop
    and the payment and webhook stores behind the locale \<open>entity_store\<close>.
  \<^item> \<^verbatim>\<open>Engine\<close> (\<^verbatim>\<open>engine/mod.rs\<close>): initiation with and without a key. An idempotent initiation is a
    worker of the claim protocol, and over any store that keeps the contract a repeated request
    replays the stored response. A checkpoint bounds the workers that submit, not the attempts of
    the retry loop of one worker.
  \<^item> \<^verbatim>\<open>Batch\<close> (\<^verbatim>\<open>batch.rs\<close>, \<^verbatim>\<open>api/batch.rs\<close>), \<^verbatim>\<open>Rates\<close> (\<^verbatim>\<open>rates.rs\<close>, \<^verbatim>\<open>api/rates.rs\<close>), \<^verbatim>\<open>Handlers\<close>
    (\<^verbatim>\<open>api/payments.rs\<close>, \<^verbatim>\<open>api/fees.rs\<close>, \<^verbatim>\<open>api/health.rs\<close>, \<^verbatim>\<open>api/webhooks.rs\<close>): batches of payments, the
    cached prices, and the handlers around the engine.
  \<^item> \<^verbatim>\<open>Pool_Abi\<close>, \<^verbatim>\<open>Pool_Xdr\<close>, \<^verbatim>\<open>Soroban\<close>, \<^verbatim>\<open>Pool_Prepare\<close>, \<^verbatim>\<open>Pool_Contract\<close>, \<^verbatim>\<open>Pool_Api\<close> (\<^verbatim>\<open>pool/\<close>,
    \<^verbatim>\<open>api/pool.rs\<close>): the embedded interface, typed values and envelopes, the RPC client, preparation
    and validation of a transaction, the contract client with its cache, and the pool handlers. A
    prepared transaction is a single call of the requested function with the requested arguments,
    and validation accepts exactly such transactions.
  \<^item> \<^verbatim>\<open>Server\<close> (\<^verbatim>\<open>main.rs\<close>, \<^verbatim>\<open>middleware.rs\<close>, \<open>create_claim_store\<close>): start-up, the routes with their
    scopes, the layers of a route, CORS and request identifiers. Its properties span the
    components: what a handler may be reached by, how many requests a budget admits, and what a
    server on the main network is sure to have.
\<close>

text \<open>
  \<^bold>\<open>Conventions.\<close> A \<open>Result\<close> is a sum with \<open>Err\<close> and \<open>Ok\<close>; \<open>outcome\<close> adds the panic where the source
  can panic. Unchecked arithmetic wraps, as in a release build, and division by zero panics.
  Integers keep their width, except lengths and statuses. Shared state behind a lock is
  passed explicitly; where the source takes the lock several times in one operation, the model
  has one step for each time it matters (\<open>worker_step\<close>). Clocks are arguments, one for each
  reading that the code makes.

  \<^bold>\<open>Bounds.\<close> The square root recurses with a decreasing iterate and is total. The retry loop
  recurses on the remaining attempts, the poll of a submission on the remaining polls, at most ten
  (\<open>MAX_POLLS\<close>), a batch on its items, at most one hundred (\<open>MAX_BATCH\<close>). No definition uses fuel.

  \<^bold>\<open>Parameters.\<close> Code outside the crate is an argument of the definitions that use it: SHA-256, HMAC
  and hexadecimal coding, the JSON and XDR codecs, Redis, Horizon, the Soroban RPC endpoint, the
  price feed, webhook delivery, random identifiers and the floating-point operations whose
  rounding the code does not depend on. What a property needs of them (a codec that inverts
  itself, a Redis server that applies a script atomically or fails before or after it) is a
  hypothesis of its statement or of the locales \<open>redis_server\<close>, \<open>expiring_redis\<close> and
  \<open>expiring_server\<close>; the
  witnesses instantiate them with concrete functions.

  \<^bold>\<open>Not modelled.\<close> The HTTP framework (matching of routes, body limits as layers, listening),
  log lines and tracing spans, the task-local correlation identifier and the header that forwards
  it, the gauges that the engine, the contract client and start-up set (write-only; the counters of
  the engine and the claim stores are modelled), and module declarations. The \<open>Debug\<close> rendering of
  texts is the one of printable characters; Unicode tables are not modelled. Tasks of a batch run in any order but not interleaved. Three places of the source
  do not compile and are modelled as far as they have a meaning: the engine passes an unbound
  name for the payload, for which the model takes the token of the callers; the handler of
  initiation matches a payment against another type when a key is present, and that branch is
  left out; \<open>fetch_pool_instance_map\<close> returns a value of another type, so its decoding step, and the undefined
  \<open>i128_to_u128\<close>, are parameters.
\<close>

end
